(* ===== verification/Prelude.thy ===== *)
theory Prelude
  imports Main "HOL-Library.Word"
begin

text \<open>
  Shared vocabulary of the development: the byte strings the program reads
  (file contents, rc files, command-line arguments are all \<open>char list\<close>), the
  C library predicates and constants the sources call (\<open>isspace\<close>,
  \<open>isupper\<close> in the C locale, \<open>SIZE_MAX\<close>), and generic lemmas on lists
  and counting that the component theories share.
\<close>

named_theorems c_lib_simps "characteristic equations of the C library functions the sources call"

type_synonym bytes = "char list"

abbreviation nl :: char where
  "nl \<equiv> CHR ''\<newline>''"

abbreviation cr :: char where
  "cr \<equiv> CHR 0x0D"

definition backslash :: char where
  "backslash = CHR 0x5C"

text \<open>\<open>std::isspace\<close> and \<open>std::isupper\<close> in the classic ("C") locale.\<close>

definition c_isspace :: "char \<Rightarrow> bool" where
  "c_isspace c \<longleftrightarrow> c = CHR '' '' \<or> c = CHR 0x09 \<or> c = nl \<or> c = CHR 0x0B \<or> c = CHR 0x0C \<or> c = cr"

definition c_isupper :: "char \<Rightarrow> bool" where
  "c_isupper c \<longleftrightarrow> (65::nat) \<le> of_char c \<and> of_char c \<le> (90::nat)"

text \<open>\<open>size_t\<close> is 64 bits wide; \<open>(PCRE2_SIZE) -1\<close> is \<open>SIZE_MAX\<close>.\<close>

definition size_max :: nat where
  "size_max = 2 ^ 64 - 1"

lemma c_isspace_nl [c_lib_simps]: "c_isspace nl"
  and c_isspace_cr [c_lib_simps]: "c_isspace cr"
  and c_isspace_dash [c_lib_simps]: "\<not> c_isspace CHR ''-''"
  and c_isspace_hash [c_lib_simps]: "\<not> c_isspace CHR ''#''"
  by (simp_all add: c_isspace_def)

text \<open>
  A \<open>char *\<close> read as a C string ends at its first NUL byte: what
  \<open>strcmp\<close>, \<open>strlen\<close> and \<open>std::string(char*)\<close> see of a buffer.
\<close>

definition c_str :: "bytes \<Rightarrow> bytes" where
  "c_str s = takeWhile (\<lambda>c. c \<noteq> CHR 0x00) s"

text \<open>
  \<open>atoi\<close>: leading white space, an optional sign, then the longest run of
  decimal digits (no digits reads as 0). Overflow is undefined in C; the model reads
  the digits as an unbounded integer.
\<close>

definition c_isdigit :: "char \<Rightarrow> bool" where
  "c_isdigit c \<longleftrightarrow> (48::nat) \<le> of_char c \<and> of_char c \<le> (57::nat)"

definition digits_value :: "bytes \<Rightarrow> int" where
  "digits_value ds = foldl (\<lambda>n d. 10 * n + (int (of_char d) - 48)) 0 ds"

definition c_atoi :: "bytes \<Rightarrow> int" where
  "c_atoi s =
     (let t = dropWhile c_isspace s in
      case t of
        c # r \<Rightarrow> if c = CHR ''-'' then - digits_value (takeWhile c_isdigit r)
                  else if c = CHR ''+'' then digits_value (takeWhile c_isdigit r)
                  else digits_value (takeWhile c_isdigit t)
      | [] \<Rightarrow> 0)"

text \<open>\<open>std::to_string\<close> of an unsigned integer: its decimal digits.\<close>

fun dec_string :: "nat \<Rightarrow> bytes" where
  "dec_string n =
     (if n < 10 then [char_of (48 + n)] else dec_string (n div 10) @ [char_of (48 + n mod 10)])"

declare dec_string.simps [simp del]

text \<open>The items an optional result contributes to a history.\<close>

definition list_of_opt :: "'a option \<Rightarrow> 'a list" where
  "list_of_opt r = (case r of None \<Rightarrow> [] | Some x \<Rightarrow> [x])"

lemma list_of_opt_simps [simp]: "list_of_opt None = []" "list_of_opt (Some x) = [x]"
  by (simp_all add: list_of_opt_def)

lemma dropWhile_shorter:
  "xs \<noteq> [] \<Longrightarrow> P (hd xs) \<Longrightarrow> length (dropWhile P xs) < length xs"
  by (cases xs) (auto intro: le_less_trans [OF length_dropWhile_le])

lemma dropWhile_append_all:
  "\<forall>c\<in>set ws. P c \<Longrightarrow> dropWhile P (ws @ xs) = dropWhile P xs"
  by (induction ws) auto

lemma c_str_no_nul [simp]: "CHR 0x00 \<notin> set s \<Longrightarrow> c_str s = s"
  unfolding c_str_def takeWhile_eq_all_conv by blast

subsection \<open>Counting a byte in a slice\<close>

text \<open>
  \<open>count_in c xs a b\<close> is the number of bytes \<open>c\<close> in the half-open slice
  \<open>[a, b)\<close> of \<open>xs\<close>, as \<open>std::count(xs + a, xs + b, c)\<close>.
\<close>

definition count_in :: "char \<Rightarrow> bytes \<Rightarrow> nat \<Rightarrow> nat \<Rightarrow> nat" where
  "count_in c xs a b = length (filter (\<lambda>x. x = c) (take (b - a) (drop a xs)))"

lemma count_in_empty [simp]: "count_in c xs a a = 0"
  by (simp add: count_in_def)

lemma count_in_split:
  assumes "a \<le> b" and "b \<le> d"
  shows "count_in c xs a d = count_in c xs a b + count_in c xs b d"
proof -
  have len: "d - a = (b - a) + (d - b)"
    using assms by simp
  have "take (d - a) (drop a xs) = take (b - a) (drop a xs) @ take (d - b) (drop (b - a) (drop a xs))"
    unfolding len by (rule take_add)
  moreover have "drop (b - a) (drop a xs) = drop b xs"
    using assms by simp
  ultimately show ?thesis
    by (simp add: count_in_def)
qed

lemma count_in_mono:
  assumes "b \<le> d"
  shows "count_in c xs a b \<le> count_in c xs a d"
proof -
  have "take (b - a) (drop a xs) = take (b - a) (take (d - a) (drop a xs))"
    using assms by (simp add: min_def)
  then have "filter (\<lambda>x. x = c) (take (b - a) (drop a xs)) =
      filter (\<lambda>x. x = c) (take (b - a) (take (d - a) (drop a xs)))" by simp
  then show ?thesis
    unfolding count_in_def
    by (metis (no_types) append_take_drop_id filter_append le_add1 length_append)
qed

lemma count_in_zero_iff:
  "count_in c xs a b = 0 \<longleftrightarrow> c \<notin> set (take (b - a) (drop a xs))"
  by (auto simp add: count_in_def filter_empty_conv)

subsection \<open>Sorted, duplicate-free lists\<close>

lemma strict_sorted_unique:
  assumes "sorted_wrt (<) xs" and "sorted_wrt (<) ys" and "set xs = set ys"
  shows "xs = (ys :: 'a :: linorder list)"
  using assms sorted_distinct_set_unique [of xs ys] by (simp add: strict_sorted_iff)

lemma strict_sorted_remdups_map:
  assumes "mono f" and "sorted xs"
  shows "sorted_wrt (<) (remdups (map (f :: nat \<Rightarrow> nat) xs))"
proof -
  have "sorted_wrt (\<lambda>x y. f x \<le> f y) xs"
    using assms(2) unfolding sorted_wrt_iff_nth_less
    by (metis assms(1) monoD)
  then have "sorted (map f xs)"
    by (simp add: sorted_map)
  then show ?thesis
    by (simp add: strict_sorted_iff sorted_remdups)
qed

lemma sorted_wrt_snoc_less:
  "sorted_wrt (<) xs \<Longrightarrow> (\<forall>x\<in>set xs. x < y) \<Longrightarrow> sorted_wrt (<) (xs @ [y :: nat])"
  by (simp add: sorted_wrt_append)

text \<open>
  \<open>atoi\<close> reads back what \<open>std::to_string\<close> writes.
\<close>

lemma dec_string_digits: "dec_string n \<noteq> [] \<and> (\<forall>c\<in>set (dec_string n). c_isdigit c)"
proof (induction n rule: dec_string.induct)
  case (1 n)
  have "c_isdigit (char_of (48 + k))" if "k < 10" for k :: nat
    using that by (simp add: c_isdigit_def of_char_of)
  then show ?case
    using 1 unfolding dec_string.simps [of n] by auto
qed

lemma digits_value_snoc: "digits_value (xs @ [d]) = 10 * digits_value xs + (int (of_char d) - 48)"
  by (simp add: digits_value_def)

lemma digits_value_dec_string: "digits_value (dec_string n) = int n"
proof (induction n rule: dec_string.induct)
  case (1 n)
  show ?case
  proof (cases "n < 10")
    case True
    then show ?thesis by (subst dec_string.simps) (simp add: digits_value_def of_char_of)
  next
    case False
    then have "digits_value (dec_string n) = 10 * int (n div 10) + int (n mod 10)"
      using 1 by (subst dec_string.simps) (simp add: digits_value_snoc of_char_of)
    then show ?thesis by presburger
  qed
qed

lemma c_atoi_digits:
  assumes "s \<noteq> []" and "\<forall>c\<in>set s. c_isdigit c"
  shows "c_atoi s = digits_value s"
proof (cases s)
  case (Cons c r)
  then have "\<not> c_isspace c" and "c \<noteq> CHR ''-''" and "c \<noteq> CHR ''+''"
    using assms(2) by (auto simp: c_isdigit_def c_isspace_def)
  moreover have "takeWhile c_isdigit s = s"
    using assms(2) by (simp add: takeWhile_eq_all_conv)
  ultimately show ?thesis
    using Cons by (simp add: c_atoi_def)
qed (use assms in simp)

lemma c_atoi_dec_string [c_lib_simps]: "c_atoi (dec_string n) = int n"
  using c_atoi_digits [of "dec_string n"] dec_string_digits [of n] digits_value_dec_string [of n] by simp

end
