(* ===== verification/Scanner.thy ===== *)
theory Scanner
  imports Prelude
begin

text \<open>
  Model of \<open>src/src/FileScannerPCRE2.cpp\<close>: the regex the constructor builds
  around the user's pattern, the compile-time checks of the constructor, the
  end-of-line callout, and the scan loop of \<open>FileScannerPCRE2::ScanFile\<close>.
  The PCRE2 library is an interface: \<open>pcre2_match\<close> is a function of the
  start offset and the match options, and the theorems about the loop assume
  only the contract PCRE2 documents for it (\<open>pcre2_contract\<close>).
\<close>

section \<open>The PCRE2 interface\<close>

datatype pcre2_compile_flag =
  PCRE2_NO_AUTO_CAPTURE | PCRE2_MULTILINE | PCRE2_NEVER_BACKSLASH_C | PCRE2_NEVER_UTF
  | PCRE2_NEVER_UCP | PCRE2_JIT_COMPLETE | PCRE2_CASELESS

text \<open>
  The two option values the loop passes: \<open>0\<close>, or
  \<open>PCRE2_NOTEMPTY_ATSTART | PCRE2_ANCHORED\<close> when it retries after an empty match.
\<close>

datatype match_options = NoOptions | NotEmptyAtStartAnchored

text \<open>
  The return code of \<open>pcre2_match\<close> with the offset vector it fills:
  \<open>PCRE2_ERROR_NOMATCH\<close>, another negative error code, \<open>0\<close> (ovector too
  small), or a match \<open>[ovector[0], ovector[1])\<close>. On no match PCRE2 leaves
  the ovector unchanged.
\<close>

datatype pcre2_rc = RcNoMatch | RcError int | RcZero | RcMatch nat nat

type_synonym pcre2_matcher = "nat \<Rightarrow> match_options \<Rightarrow> pcre2_rc"

record 'code pcre2_lib =
  pcre2_compile :: "bytes \<Rightarrow> pcre2_compile_flag set \<Rightarrow> (int \<times> nat) + 'code"
  pcre2_jit_compile :: "'code \<Rightarrow> int"
  pcre2_callout_count :: "'code \<Rightarrow> nat"
  pcre2_match :: "'code \<Rightarrow> bytes \<Rightarrow> pcre2_matcher"

definition PCRE2_ERROR_JIT_BADOPTION :: int where
  "PCRE2_ERROR_JIT_BADOPTION = -45"

datatype scanner_error =
    RegexCompileFailed bytes nat int
  | JitCompileError int
  | CalloutsNotSupported
  | PCRE2MatchError int

section \<open>The constructor\<close>

text \<open>The pattern transformations, in the order of the source (lines 115--128).\<close>

definition quote_literal :: "bytes \<Rightarrow> bytes" where
  "quote_literal r = [backslash, CHR ''Q''] @ r @ [backslash, CHR ''E'']"

definition word_wrap :: "bytes \<Rightarrow> bytes" where
  "word_wrap r = [backslash] @ ''b(?:'' @ r @ '')'' @ [backslash] @ ''b''"

definition callout_wrap :: "bytes \<Rightarrow> bytes" where
  "callout_wrap r = ''(?:'' @ r @ '')(?=.*?$)(?C1)''"

definition build_regex :: "bool \<Rightarrow> bool \<Rightarrow> bytes \<Rightarrow> bytes" where
  "build_regex pattern_is_literal word_regexp regex =
     (let r1 = (if pattern_is_literal then quote_literal regex else regex);
          r2 = (if word_regexp then word_wrap r1 else r1)
      in callout_wrap r2)"

definition regex_compile_options :: "bool \<Rightarrow> pcre2_compile_flag set" where
  "regex_compile_options ignore_case =
     {PCRE2_NO_AUTO_CAPTURE, PCRE2_MULTILINE, PCRE2_NEVER_BACKSLASH_C, PCRE2_NEVER_UTF,
      PCRE2_NEVER_UCP, PCRE2_JIT_COMPLETE}
     \<union> (if ignore_case then {PCRE2_CASELESS} else {})"

record 'code file_scanner_pcre2 =
  m_pcre2_regex :: 'code
  m_ignore_case :: bool
  m_word_regexp :: bool
  m_pattern_is_literal :: bool

definition FileScannerPCRE2_ctor ::
  "'code pcre2_lib \<Rightarrow> bytes \<Rightarrow> bool \<Rightarrow> bool \<Rightarrow> bool \<Rightarrow> scanner_error + 'code file_scanner_pcre2" where
  "FileScannerPCRE2_ctor lib regex ignore_case word_regexp pattern_is_literal =
     (let r = build_regex pattern_is_literal word_regexp regex in
      case pcre2_compile lib r (regex_compile_options ignore_case) of
        Inl (error_code, error_offset) \<Rightarrow> Inl (RegexCompileFailed r error_offset error_code)
      | Inr code \<Rightarrow>
          (let jit_retval = pcre2_jit_compile lib code in
           if jit_retval \<noteq> 0 \<and> jit_retval \<noteq> PCRE2_ERROR_JIT_BADOPTION then Inl (JitCompileError jit_retval)
           else if 1 < pcre2_callout_count lib code then Inl CalloutsNotSupported
           else Inr \<lparr>m_pcre2_regex = code, m_ignore_case = ignore_case,
                     m_word_regexp = word_regexp, m_pattern_is_literal = pattern_is_literal\<rparr>))"

subsection \<open>The exception messages\<close>

text \<open>
  \<open>pcre2_get_error_message(code, buffer, size)\<close> of the PCRE2 library: its
  return value (the message length, or a negative error for an unknown code) and the
  NUL-terminated text it leaves in the buffer.
\<close>

type_synonym pcre2_error_messages = "int \<Rightarrow> nat \<Rightarrow> int \<times> bytes"

text \<open>\<open>PCRE2ErrorCodeToErrorString\<close> (lines 338--350): a 512-unit buffer, empty text on failure.\<close>

definition PCRE2ErrorCodeToErrorString :: "pcre2_error_messages \<Rightarrow> int \<Rightarrow> bytes" where
  "PCRE2ErrorCodeToErrorString get_msg errorcode =
     (case get_msg errorcode 512 of (retval, buf) \<Rightarrow> if 0 \<le> retval then c_str buf else [])"

text \<open>
  What the \<open>FileScannerException\<close> of each error says (lines 136--137, 154,
  162, 313).
\<close>

definition scanner_error_what :: "pcre2_error_messages \<Rightarrow> scanner_error \<Rightarrow> bytes" where
  "scanner_error_what get_msg e =
     (case e of
        RegexCompileFailed r off code \<Rightarrow>
          ''Compilation of regex '' @ [CHR 0x22] @ r @ [CHR 0x22] @ '' failed at offset '' @
          dec_string off @ '': '' @ PCRE2ErrorCodeToErrorString get_msg code
      | JitCompileError rv \<Rightarrow> ''PCRE2 JIT compilation error: '' @ PCRE2ErrorCodeToErrorString get_msg rv
      | CalloutsNotSupported \<Rightarrow> ''Callouts not supported.''
      | PCRE2MatchError rc \<Rightarrow> ''PCRE2 match error: '' @ PCRE2ErrorCodeToErrorString get_msg rc)"

section \<open>The end-of-line callout\<close>

text \<open>
  \<open>callout_handler\<close> (lines 48--65) sees the subject, the start of the tentative
  match and the current position, and rejects (returns 1) a match that contains
  a newline. The lookahead \<open>(?=.*?$)\<close> that precedes the callout always
  succeeds in multiline mode, so the compiled regex accepts exactly the matches
  of the user's pattern that the callout accepts.
\<close>

definition callout_handler :: "bytes \<Rightarrow> nat \<Rightarrow> nat \<Rightarrow> int" where
  "callout_handler subject start_match current_position =
     (if nl \<in> set (take (current_position - start_match) (drop start_match subject)) then 1 else 0)"

definition accepted :: "(nat \<Rightarrow> nat \<Rightarrow> bool) \<Rightarrow> bytes \<Rightarrow> nat \<Rightarrow> nat \<Rightarrow> bool" where
  "accepted R subject s e \<longleftrightarrow> R s e \<and> callout_handler subject s e = 0"

section \<open>The scan loop\<close>

text \<open>
  \<open>Match m(file_data, file_size, ovector[0], ovector[1], line_no)\<close> (line 331):
  the match's byte range and its 1-based line number.
\<close>

record match =
  match_start :: nat
  match_end :: nat
  match_line_no :: nat

type_synonym match_list = "match list"

text \<open>
  \<open>FileScanner::CountLinesSinceLastMatch(a, b)\<close> counts the newlines in
  \<open>[a, b)\<close>.
\<close>

definition CountLinesSinceLastMatch :: "bytes \<Rightarrow> nat \<Rightarrow> nat \<Rightarrow> nat" where
  "CountLinesSinceLastMatch data a b = count_in nl data a b"

text \<open>
  The locals of \<open>ScanFile\<close> that live across iterations: the ovector, the start
  offset, the running line number, the line of the last reported match, the
  position the line count has reached (\<open>prev_lineno_search_end\<close>, as an offset)
  and the match list.
\<close>

record scan_state =
  ovec0 :: nat
  ovec1 :: nat
  start_offset :: nat
  line_no :: nat
  prev_lineno :: nat
  prev_lineno_search_end :: nat
  ml :: match_list

text \<open>
  Lines 206--215: \<open>line_no = 1\<close>, \<open>prev_lineno = 0\<close>, the search end at the
  start of the file, and \<open>ovector = {-1, 0}\<close> to fool the zero-length test on the
  first iteration.
\<close>

definition scan_init :: scan_state where
  "scan_init = \<lparr>ovec0 = size_max, ovec1 = 0, start_offset = 0, line_no = 1, prev_lineno = 0,
                prev_lineno_search_end = 0, ml = []\<rparr>"

datatype scan_step = Continue scan_state | Return "scanner_error + match_list"

text \<open>
  One iteration of the \<open>while\<close> loop (lines 222--334), with its test. Every
  \<open>break\<close> and \<open>return\<close> ends the loop with the match list as it is; the
  exception of line 313 is the error value. The two disabled branches of the
  no-match case (\<open>\r\n\<close> and UTF-8 skipping, guarded by \<open>false\<close>) are
  omitted: the retry position is always \<open>start_offset + 1\<close>.
\<close>

definition ScanFile_step :: "pcre2_matcher \<Rightarrow> bytes \<Rightarrow> scan_state \<Rightarrow> scan_step" where
  "ScanFile_step pmatch file_data st =
     (let file_size = length file_data in
      if \<not> start_offset st < file_size then Return (Inr (ml st))
      else
        let so = ovec1 st;
            st1 = st\<lparr>start_offset := so\<rparr>
        in if ovec0 st = ovec1 st \<and> ovec0 st = file_size then Return (Inr (ml st))
        else
          let options = (if ovec0 st = ovec1 st then NotEmptyAtStartAnchored else NoOptions) in
          case pmatch so options of
            RcNoMatch \<Rightarrow>
              (if options = NoOptions then Return (Inr (ml st))
               else Continue (st1\<lparr>ovec1 := so + 1\<rparr>))
          | RcError rc \<Rightarrow> Return (Inl (PCRE2MatchError rc))
          | RcZero \<Rightarrow> Return (Inr (ml st))
          | RcMatch s e \<Rightarrow>
              (let ln = line_no st + CountLinesSinceLastMatch file_data (prev_lineno_search_end st) s;
                   st2 = st1\<lparr>ovec0 := s, ovec1 := e, line_no := ln, prev_lineno_search_end := s\<rparr>
               in if ln = prev_lineno st then Continue st2
                  else Continue (st2\<lparr>prev_lineno := ln,
                                     ml := ml st @ [\<lparr>match_start = s, match_end = e, match_line_no = ln\<rparr>]\<rparr>)))"

text \<open>
  The loop itself. Whether it ends depends on what \<open>pcre2_match\<close> returns, so it
  is a partial function: \<open>None\<close> is a loop that never ends.
\<close>

partial_function (option) scan_loop ::
  "pcre2_matcher \<Rightarrow> bytes \<Rightarrow> scan_state \<Rightarrow> (scanner_error + match_list) option" where
  "scan_loop pmatch file_data st =
     (case ScanFile_step pmatch file_data st of
        Return r \<Rightarrow> Some r
      | Continue st' \<Rightarrow> scan_loop pmatch file_data st')"

definition ScanFile :: "pcre2_matcher \<Rightarrow> bytes \<Rightarrow> (scanner_error + match_list) option" where
  "ScanFile pmatch file_data = scan_loop pmatch file_data scan_init"

definition scanner_ScanFile ::
  "'code pcre2_lib \<Rightarrow> 'code file_scanner_pcre2 \<Rightarrow> bytes \<Rightarrow> (scanner_error + match_list) option" where
  "scanner_ScanFile lib sc file_data = ScanFile (pcre2_match lib (m_pcre2_regex sc) file_data) file_data"

section \<open>What a scan should report\<close>

text \<open>The 1-based line of byte offset \<open>p\<close>: one more than the newlines before it.\<close>

definition line_of :: "bytes \<Rightarrow> nat \<Rightarrow> nat" where
  "line_of data p = Suc (count_in nl data 0 p)"

text \<open>Some accepted match of the compiled regex starts at \<open>s\<close>.\<close>

definition match_at :: "(nat \<Rightarrow> nat \<Rightarrow> bool) \<Rightarrow> nat \<Rightarrow> nat \<Rightarrow> bool" where
  "match_at ok N s \<longleftrightarrow> (\<exists>e\<in>{s..N}. ok s e)"

text \<open>
  The lines a scan of a non-empty buffer should report: every line on which some
  accepted match starts, in ascending order, each once.
\<close>

definition matching_lines :: "(nat \<Rightarrow> nat \<Rightarrow> bool) \<Rightarrow> bytes \<Rightarrow> nat list" where
  "matching_lines ok data =
     (if data = [] then []
      else remdups (map (line_of data) (filter (match_at ok (length data)) [0..<Suc (length data)])))"

text \<open>
  What PCRE2 promises for \<open>pcre2_match\<close> on a subject of length \<open>N\<close> from any
  start offset up to \<open>N\<close>: without options, the leftmost accepted match at or after
  the start offset, or no match when there is none; with
  \<open>PCRE2_NOTEMPTY_ATSTART | PCRE2_ANCHORED\<close>, a non-empty accepted match at the
  start offset, or no match when there is none. It never reports an error.
\<close>

definition pcre2_plain_ok :: "(nat \<Rightarrow> nat \<Rightarrow> bool) \<Rightarrow> nat \<Rightarrow> pcre2_matcher \<Rightarrow> nat \<Rightarrow> bool" where
  "pcre2_plain_ok ok N pmatch so \<longleftrightarrow>
     (case pmatch so NoOptions of
        RcMatch s e \<Rightarrow> so \<le> s \<and> s \<le> e \<and> e \<le> N \<and> ok s e \<and> (\<forall>s'\<in>{so..<s}. \<not> match_at ok N s')
      | RcNoMatch \<Rightarrow> (\<forall>s'\<in>{so..N}. \<not> match_at ok N s')
      | _ \<Rightarrow> False)"

definition pcre2_anchored_ok :: "(nat \<Rightarrow> nat \<Rightarrow> bool) \<Rightarrow> nat \<Rightarrow> pcre2_matcher \<Rightarrow> nat \<Rightarrow> bool" where
  "pcre2_anchored_ok ok N pmatch so \<longleftrightarrow>
     (case pmatch so NotEmptyAtStartAnchored of
        RcMatch s e \<Rightarrow> s = so \<and> so < e \<and> e \<le> N \<and> ok s e
      | RcNoMatch \<Rightarrow> (\<forall>e\<in>{Suc so..N}. \<not> ok so e)
      | _ \<Rightarrow> False)"

definition pcre2_contract :: "(nat \<Rightarrow> nat \<Rightarrow> bool) \<Rightarrow> nat \<Rightarrow> pcre2_matcher \<Rightarrow> bool" where
  "pcre2_contract ok N pmatch \<longleftrightarrow>
     (\<forall>so\<in>{0..N}. pcre2_plain_ok ok N pmatch so \<and> pcre2_anchored_ok ok N pmatch so)"

text \<open>The weaker promise that matches lie in the subject and retries make progress.\<close>

definition pcre2_bounds :: "nat \<Rightarrow> pcre2_matcher \<Rightarrow> bool" where
  "pcre2_bounds N pmatch \<longleftrightarrow> (\<forall>so\<in>{0..N}.
     (case pmatch so NoOptions of RcMatch s e \<Rightarrow> so \<le> s \<and> s \<le> e \<and> e \<le> N | _ \<Rightarrow> True) \<and>
     (case pmatch so NotEmptyAtStartAnchored of RcMatch s e \<Rightarrow> s = so \<and> so < e \<and> e \<le> N | _ \<Rightarrow> True))"

section \<open>Loop invariant and variant\<close>

definition scan_measure :: "nat \<Rightarrow> scan_state \<Rightarrow> nat" where
  "scan_measure N st = 2 * (Suc N - ovec1 st) + (if ovec0 st = ovec1 st then 0 else 1)"

text \<open>
  The invariant of the loop: where the ovector and the line bookkeeping stand, and
  that the match list holds, in ascending order, exactly the lines of the accepted
  matches that start before \<open>ovector[1]\<close> or at \<open>ovector[0]\<close>.
\<close>

definition scan_inv :: "(nat \<Rightarrow> nat \<Rightarrow> bool) \<Rightarrow> bytes \<Rightarrow> scan_state \<Rightarrow> bool" where
  "scan_inv R data st \<longleftrightarrow>
     (let N = length data; ok = accepted R data in
      ovec1 st \<le> N \<and> start_offset st \<le> ovec1 st \<and>
      (start_offset st = N \<longrightarrow> ovec0 st = N \<and> ovec1 st = N) \<and>
      (ovec0 st = size_max \<and> ovec1 st = 0 \<and> line_no st = 1 \<and> prev_lineno st = 0 \<and>
         prev_lineno_search_end st = 0 \<and> ml st = []
       \<or> ovec0 st \<le> ovec1 st \<and> match_at ok N (ovec0 st) \<and> prev_lineno_search_end st = ovec0 st \<and>
         line_no st = line_of data (ovec0 st) \<and> prev_lineno st = line_no st) \<and>
      sorted_wrt (<) (map match_line_no (ml st)) \<and>
      (\<forall>m\<in>set (ml st). ok (match_start m) (match_end m) \<and>
         match_line_no m = line_of data (match_start m) \<and> match_line_no m \<le> prev_lineno st) \<and>
      set (map match_line_no (ml st)) = line_of data ` {s. match_at ok N s \<and> (s < ovec1 st \<or> s = ovec0 st)})"

section \<open>A reference matcher and example patterns\<close>

text \<open>
  A matcher that meets \<open>pcre2_contract\<close> for any acceptance predicate: the
  leftmost start with an accepted match, ended at the first accepted end. It shows
  the contract is satisfiable and drives the concrete scenarios below.
\<close>

definition ref_match :: "(nat \<Rightarrow> nat \<Rightarrow> bool) \<Rightarrow> nat \<Rightarrow> pcre2_matcher" where
  "ref_match ok N so opts =
     (case opts of
        NoOptions \<Rightarrow>
          (case List.find (match_at ok N) [so..<Suc N] of
             None \<Rightarrow> RcNoMatch
           | Some s \<Rightarrow> (case List.find (ok s) [s..<Suc N] of None \<Rightarrow> RcNoMatch | Some e \<Rightarrow> RcMatch s e))
      | NotEmptyAtStartAnchored \<Rightarrow>
          (case List.find (ok so) [Suc so..<Suc N] of None \<Rightarrow> RcNoMatch | Some e \<Rightarrow> RcMatch so e))"

text \<open>The matches of a literal pattern, and of \<open>a\s+b\<close> (without the callout).\<close>

definition literal_re :: "bytes \<Rightarrow> bytes \<Rightarrow> nat \<Rightarrow> nat \<Rightarrow> bool" where
  "literal_re lit data s e \<longleftrightarrow> e = s + length lit \<and> take (length lit) (drop s data) = lit"

definition a_space_b_re :: "bytes \<Rightarrow> nat \<Rightarrow> nat \<Rightarrow> bool" where
  "a_space_b_re data s e \<longleftrightarrow>
     s + 3 \<le> e \<and> e \<le> length data \<and> data ! s = CHR ''a'' \<and> data ! (e - 1) = CHR ''b'' \<and>
     (\<forall>i\<in>{Suc s..<e - 1}. c_isspace (data ! i))"

text \<open>The files of the spec's scenarios 1 (literal match) and 3 (multiline guard).\<close>

definition scenario_literal_file :: bytes where
  "scenario_literal_file = ''foo\<newline>FOO\<newline>foo bar\<newline>''"

definition scenario_multiline_file :: bytes where
  "scenario_multiline_file = ''a\<newline>b\<newline>a b\<newline>''"

section \<open>Proofs about the scan loop\<close>


lemma scan_loop_Return: "ScanFile_step pm data st = Return r \<Longrightarrow> scan_loop pm data st = Some r"
  by (subst scan_loop.simps) simp

lemma scan_loop_Continue: "ScanFile_step pm data st = Continue st' \<Longrightarrow> scan_loop pm data st = scan_loop pm data st'"
  by (subst scan_loop.simps) simp

lemma scan_loop_rule:
  assumes "P st"
    and ret: "\<And>st r. P st \<Longrightarrow> ScanFile_step pm data st = Return r \<Longrightarrow> Q r"
    and cont: "\<And>st st'. P st \<Longrightarrow> ScanFile_step pm data st = Continue st' \<Longrightarrow>
        P st' \<and> scan_measure (length data) st' < scan_measure (length data) st"
  shows "\<exists>r. scan_loop pm data st = Some r \<and> Q r"
  using assms(1)
proof (induction "scan_measure (length data) st" arbitrary: st rule: less_induct)
  case less
  show ?case
  proof (cases "ScanFile_step pm data st")
    case (Continue st')
    with cont [OF less.prems] have "P st'" and "scan_measure (length data) st' < scan_measure (length data) st"
      by blast+
    with less.hyps obtain r where "scan_loop pm data st' = Some r \<and> Q r" by blast
    with Continue show ?thesis by (simp add: scan_loop_Continue)
  next
    case (Return r)
    with ret [OF less.prems] show ?thesis by (simp add: scan_loop_Return)
  qed
qed

lemma ScanFile_step_Continue_cases:
  assumes "ScanFile_step pm data st = Continue st'"
  obtains (retry) "start_offset st < length data" "ovec0 st = ovec1 st" "ovec1 st \<noteq> length data"
      "pm (ovec1 st) NotEmptyAtStartAnchored = RcNoMatch"
      "st' = st\<lparr>start_offset := ovec1 st, ovec1 := Suc (ovec1 st)\<rparr>"
  | (found) s e where "start_offset st < length data" "\<not> (ovec0 st = ovec1 st \<and> ovec0 st = length data)"
      "pm (ovec1 st) (if ovec0 st = ovec1 st then NotEmptyAtStartAnchored else NoOptions) = RcMatch s e"
      "ovec0 st' = s" "ovec1 st' = e" "start_offset st' = ovec1 st" "prev_lineno_search_end st' = s"
      "line_no st' = line_no st + count_in nl data (prev_lineno_search_end st) s"
      "line_no st' = prev_lineno st \<and> prev_lineno st' = prev_lineno st \<and> ml st' = ml st
       \<or> line_no st' \<noteq> prev_lineno st \<and> prev_lineno st' = line_no st' \<and>
         ml st' = ml st @ [\<lparr>match_start = s, match_end = e, match_line_no = line_no st'\<rparr>]"
  using assms unfolding ScanFile_step_def Let_def CountLinesSinceLastMatch_def
  by (auto split: if_splits pcre2_rc.splits intro: that)

lemma ScanFile_step_Return_cases:
  assumes "ScanFile_step pm data st = Return r"
  obtains (stop) "r = Inr (ml st)"
      "\<not> start_offset st < length data \<or> (ovec0 st = ovec1 st \<and> ovec0 st = length data)
       \<or> (ovec0 st \<noteq> ovec1 st \<and> pm (ovec1 st) NoOptions = RcNoMatch)
       \<or> pm (ovec1 st) (if ovec0 st = ovec1 st then NotEmptyAtStartAnchored else NoOptions) = RcZero"
  | (error) rc where "r = Inl (PCRE2MatchError rc)"
      "pm (ovec1 st) (if ovec0 st = ovec1 st then NotEmptyAtStartAnchored else NoOptions) = RcError rc"
  using assms unfolding ScanFile_step_def Let_def
  by (auto split: if_splits pcre2_rc.splits intro: that)



lemma line_of_nonzero [simp]: "line_of data p \<noteq> 0"
  by (simp add: line_of_def)

lemma line_of_mono: "p \<le> q \<Longrightarrow> line_of data p \<le> line_of data q"
  by (simp add: line_of_def count_in_mono)

lemma line_of_advance: "a \<le> b \<Longrightarrow> line_of data a + count_in nl data a b = line_of data b"
  unfolding line_of_def using count_in_split [of 0 a b nl data] by simp

lemma accepted_no_nl: "accepted R data s e \<Longrightarrow> count_in nl data s e = 0"
  by (simp add: accepted_def callout_handler_def count_in_zero_iff split: if_splits)

lemma accepted_same_line:
  assumes "accepted R data s e" and "s \<le> p" and "p \<le> e"
  shows "line_of data p = line_of data s"
proof -
  have "count_in nl data s p \<le> count_in nl data s e"
    using assms(3) by (rule count_in_mono)
  with accepted_no_nl [OF assms(1)] have "count_in nl data s p = 0" by simp
  with line_of_advance [OF assms(2), of data] show ?thesis by simp
qed

lemma match_at_le: "match_at ok N s \<Longrightarrow> s \<le> N"
  by (auto simp: match_at_def)

lemma match_at_size_max: "N < size_max \<Longrightarrow> \<not> match_at ok N size_max"
  by (auto dest: match_at_le)

lemma scan_inv_init: "data \<noteq> [] \<Longrightarrow> length data < size_max \<Longrightarrow> scan_inv R data scan_init"
  by (auto simp: scan_inv_def scan_init_def dest: match_at_le)

lemma scan_measure_retry:
  "ovec0 st = ovec1 st \<Longrightarrow> ovec1 st < N \<Longrightarrow>
   scan_measure N (st\<lparr>start_offset := ovec1 st, ovec1 := Suc (ovec1 st)\<rparr>) < scan_measure N st"
  by (auto simp: scan_measure_def)

lemma scan_measure_found:
  assumes "ovec1 st \<le> s" and "s \<le> e" and "e \<le> N"
    and "ovec0 st = ovec1 st \<longrightarrow> s = ovec1 st \<and> ovec1 st < e"
    and "ovec0 st' = s" and "ovec1 st' = e"
  shows "scan_measure N st' < scan_measure N st"
  using assms by (auto simp: scan_measure_def)

text \<open>A retry after an empty match that finds no non-empty match there.\<close>

lemma scan_inv_retry:
  assumes inv: "scan_inv R data st" and N: "length data < size_max"
    and so: "start_offset st < length data" and eq: "ovec0 st = ovec1 st" and ne: "ovec1 st \<noteq> length data"
  shows "scan_inv R data (st\<lparr>start_offset := ovec1 st, ovec1 := Suc (ovec1 st)\<rparr>)"
proof -
  let ?ok = "accepted R data" and ?N = "length data"
  have shape: "ovec0 st \<le> ovec1 st \<and> match_at ?ok ?N (ovec0 st) \<and> prev_lineno_search_end st = ovec0 st \<and>
         line_no st = line_of data (ovec0 st) \<and> prev_lineno st = line_no st"
    using inv eq N unfolding scan_inv_def Let_def by (auto simp: size_max_def)
  have "{s. match_at ?ok ?N s \<and> (s < Suc (ovec1 st) \<or> s = ovec0 st)} =
        {s. match_at ?ok ?N s \<and> (s < ovec1 st \<or> s = ovec0 st)}"
    using eq by auto
  with inv eq ne shape show ?thesis
    unfolding scan_inv_def Let_def by auto
qed



lemma contract_at:
  assumes "pcre2_contract ok N pm" and "so \<le> N"
  shows "pcre2_plain_ok ok N pm so" and "pcre2_anchored_ok ok N pm so"
  using assms by (simp_all add: pcre2_contract_def)

lemma contract_found:
  assumes "pcre2_contract ok N pm" and "so \<le> N" and "pm so opts = RcMatch s e"
  shows "so \<le> s \<and> s \<le> e \<and> e \<le> N \<and> ok s e \<and> (\<forall>x\<in>{so..<s}. \<not> match_at ok N x)
         \<and> (opts = NotEmptyAtStartAnchored \<longrightarrow> s = so \<and> so < e)"
proof (cases opts)
  case NoOptions
  with contract_at(1) [OF assms(1,2)] assms(3) show ?thesis
    by (simp add: pcre2_plain_ok_def)
next
  case NotEmptyAtStartAnchored
  with contract_at(2) [OF assms(1,2)] assms(3) show ?thesis
    by (auto simp: pcre2_anchored_ok_def)
qed

lemma contract_no_error:
  assumes "pcre2_contract ok N pm" and "so \<le> N"
  shows "pm so opts \<noteq> RcZero" and "pm so opts \<noteq> RcError rc"
  using contract_at [OF assms]
  by (cases opts; auto simp: pcre2_plain_ok_def pcre2_anchored_ok_def)+

lemma contract_nomatch:
  assumes "pcre2_contract ok N pm" and "so \<le> N" and "pm so NoOptions = RcNoMatch"
  shows "\<forall>x\<in>{so..N}. \<not> match_at ok N x"
  using contract_at(1) [OF assms(1,2)] assms(3) by (simp add: pcre2_plain_ok_def)

lemma bounds_found:
  assumes "pcre2_bounds N pm" and "so \<le> N" and "pm so opts = RcMatch s e"
  shows "so \<le> s \<and> s \<le> e \<and> e \<le> N \<and> (opts = NotEmptyAtStartAnchored \<longrightarrow> s = so \<and> so < e)"
proof -
  have "so \<in> {0..N}" using assms(2) by simp
  from bspec [OF assms(1) [unfolded pcre2_bounds_def] this] assms(3) show ?thesis
    by (cases opts) auto
qed

lemma contract_bounds:
  assumes c: "pcre2_contract ok N pm"
  shows "pcre2_bounds N pm"
  unfolding pcre2_bounds_def
proof
  fix so assume "so \<in> {0..N}"
  then have so: "so \<le> N" by simp
  have "case pm so NoOptions of RcMatch s e \<Rightarrow> so \<le> s \<and> s \<le> e \<and> e \<le> N | _ \<Rightarrow> True"
    using contract_found [OF c so, of NoOptions] by (cases "pm so NoOptions") auto
  moreover have "case pm so NotEmptyAtStartAnchored of RcMatch s e \<Rightarrow> s = so \<and> so < e \<and> e \<le> N | _ \<Rightarrow> True"
    using contract_found [OF c so, of NotEmptyAtStartAnchored] by (cases "pm so NotEmptyAtStartAnchored") auto
  ultimately show "(case pm so NoOptions of RcMatch s e \<Rightarrow> so \<le> s \<and> s \<le> e \<and> e \<le> N | _ \<Rightarrow> True) \<and>
    (case pm so NotEmptyAtStartAnchored of RcMatch s e \<Rightarrow> s = so \<and> so < e \<and> e \<le> N | _ \<Rightarrow> True)" ..
qed

text \<open>The lines of the matches starting in \<open>[s, e]\<close> of an accepted match are its line.\<close>

lemma lines_within_match:
  assumes "accepted R data s e"
  shows "line_of data ` {x. s \<le> x \<and> x \<le> e \<and> P x} \<subseteq> {line_of data s}"
proof
  fix y
  assume "y \<in> line_of data ` {x. s \<le> x \<and> x \<le> e \<and> P x}"
  then obtain x where x: "s \<le> x" "x \<le> e" "y = line_of data x" by blast
  have "line_of data x = line_of data s"
    by (rule accepted_same_line [OF assms x(1,2)])
  with x(3) show "y \<in> {line_of data s}" by simp
qed

lemma scan_inv_found:
  assumes inv: "scan_inv R data st" and N: "length data < size_max"
    and so: "start_offset st < length data" and notend: "\<not> (ovec0 st = ovec1 st \<and> ovec0 st = length data)"
    and c: "pcre2_contract (accepted R data) (length data) pm"
    and m: "pm (ovec1 st) (if ovec0 st = ovec1 st then NotEmptyAtStartAnchored else NoOptions) = RcMatch s e"
    and f0: "ovec0 st' = s" and f1: "ovec1 st' = e" and fso: "start_offset st' = ovec1 st"
    and fpe: "prev_lineno_search_end st' = s"
    and fln: "line_no st' = line_no st + count_in nl data (prev_lineno_search_end st) s"
    and fml: "line_no st' = prev_lineno st \<and> prev_lineno st' = prev_lineno st \<and> ml st' = ml st
       \<or> line_no st' \<noteq> prev_lineno st \<and> prev_lineno st' = line_no st' \<and>
         ml st' = ml st @ [\<lparr>match_start = s, match_end = e, match_line_no = line_no st'\<rparr>]"
  shows "scan_inv R data st' \<and> scan_measure (length data) st' < scan_measure (length data) st"
proof -
  let ?ok = "accepted R data" and ?N = "length data"
  let ?A = "\<lambda>b c. {x. match_at ?ok ?N x \<and> (x < b \<or> x = c)}"
  have b1: "ovec1 st \<le> ?N" and bso: "start_offset st \<le> ovec1 st"
    and sorted: "sorted_wrt (<) (map match_line_no (ml st))"
    and sound: "\<forall>m\<in>set (ml st). ?ok (match_start m) (match_end m) \<and>
         match_line_no m = line_of data (match_start m) \<and> match_line_no m \<le> prev_lineno st"
    and cover: "set (map match_line_no (ml st)) = line_of data ` ?A (ovec1 st) (ovec0 st)"
    and shape: "ovec0 st = size_max \<and> ovec1 st = 0 \<and> line_no st = 1 \<and> prev_lineno st = 0 \<and>
         prev_lineno_search_end st = 0 \<and> ml st = []
       \<or> ovec0 st \<le> ovec1 st \<and> match_at ?ok ?N (ovec0 st) \<and> prev_lineno_search_end st = ovec0 st \<and>
         line_no st = line_of data (ovec0 st) \<and> prev_lineno st = line_no st"
    using inv unfolding scan_inv_def Let_def by blast+
  from contract_found [OF c b1 m]
  have s1: "ovec1 st \<le> s" and se: "s \<le> e" and eN: "e \<le> ?N" and ok: "?ok s e"
    and gap: "\<forall>x\<in>{ovec1 st..<s}. \<not> match_at ?ok ?N x"
    and anch: "ovec0 st = ovec1 st \<longrightarrow> s = ovec1 st \<and> ovec1 st < e"
    by auto
  have ms: "match_at ?ok ?N s"
    using se eN ok by (auto simp: match_at_def)
  have ln: "line_no st' = line_of data s"
    using shape s1 fln line_of_advance [of "ovec0 st" s data] by (auto simp: line_of_def)
  have pl_le: "prev_lineno st \<le> line_of data s"
    using shape s1 line_of_mono [of "ovec0 st" s data] by auto
  have ov0_lt: "match_at ?ok ?N (ovec0 st) \<Longrightarrow> ovec0 st < e"
    using shape anch s1 se match_at_size_max [OF N] by (cases "ovec0 st = ovec1 st") auto
  have sub1: "?A (ovec1 st) (ovec0 st) \<subseteq> ?A e s"
    using s1 se ov0_lt by auto
  have sub2: "?A e s \<subseteq> ?A (ovec1 st) (ovec0 st) \<union> {x. s \<le> x \<and> x \<le> e \<and> match_at ?ok ?N x}"
    using gap se by auto
  have cover': "line_of data ` ?A e s = line_of data ` ?A (ovec1 st) (ovec0 st) \<union> {line_of data s}"
  proof
    show "line_of data ` ?A e s \<subseteq> line_of data ` ?A (ovec1 st) (ovec0 st) \<union> {line_of data s}"
      using image_mono [OF sub2, of "line_of data"] lines_within_match [OF ok, of "match_at ?ok ?N"]
      by (auto simp: image_Un)
    show "line_of data ` ?A (ovec1 st) (ovec0 st) \<union> {line_of data s} \<subseteq> line_of data ` ?A e s"
      using image_mono [OF sub1, of "line_of data"] ms by auto
  qed
  have inv': "scan_inv R data st'"
  proof (cases "line_no st' = prev_lineno st")
    case True
    then have skip: "prev_lineno st' = prev_lineno st" "ml st' = ml st"
      using fml by auto
    have old: "match_at ?ok ?N (ovec0 st) \<and> line_of data (ovec0 st) = line_of data s"
      using shape True ln by auto
    then have "line_of data s \<in> line_of data ` ?A (ovec1 st) (ovec0 st)"
      by (metis (mono_tags, lifting) image_eqI mem_Collect_eq)
    then have "set (map match_line_no (ml st')) = line_of data ` ?A e s"
      using cover cover' skip by auto
    then show ?thesis
      using b1 s1 se eN ms skip sorted sound ln True f0 f1 fso fpe bso
      unfolding scan_inv_def Let_def by auto
  next
    case False
    then have app: "prev_lineno st' = line_no st'"
        "ml st' = ml st @ [\<lparr>match_start = s, match_end = e, match_line_no = line_no st'\<rparr>]"
      using fml by auto
    have lt: "\<forall>m\<in>set (ml st). match_line_no m < line_no st'"
      using sound pl_le ln False by fastforce
    have "sorted_wrt (<) (map match_line_no (ml st'))"
      using sorted_wrt_snoc_less [OF sorted, of "line_no st'"] lt app by simp
    moreover have "set (map match_line_no (ml st')) = line_of data ` ?A e s"
      using cover cover' app ln by auto
    moreover have "\<forall>m\<in>set (ml st'). ?ok (match_start m) (match_end m) \<and>
         match_line_no m = line_of data (match_start m) \<and> match_line_no m \<le> prev_lineno st'"
      using sound app ln ok pl_le by fastforce
    ultimately show ?thesis
      using b1 s1 se eN ms ln f0 f1 fso fpe bso app
      unfolding scan_inv_def Let_def by auto
  qed
  have "scan_measure ?N st' < scan_measure ?N st"
    using s1 se eN anch f0 f1 by (rule scan_measure_found)
  with inv' show ?thesis by blast
qed



lemma scan_inv_stop:
  assumes inv: "scan_inv R data st" and N: "length data < size_max"
    and c: "pcre2_contract (accepted R data) (length data) pm"
    and stop: "\<not> start_offset st < length data \<or> (ovec0 st = ovec1 st \<and> ovec0 st = length data)
       \<or> (ovec0 st \<noteq> ovec1 st \<and> pm (ovec1 st) NoOptions = RcNoMatch)
       \<or> pm (ovec1 st) (if ovec0 st = ovec1 st then NotEmptyAtStartAnchored else NoOptions) = RcZero"
  shows "set (map match_line_no (ml st)) = line_of data ` {s. match_at (accepted R data) (length data) s}"
proof -
  let ?ok = "accepted R data" and ?N = "length data"
  have b1: "ovec1 st \<le> ?N" and bso: "start_offset st \<le> ovec1 st"
    and fin: "start_offset st = ?N \<longrightarrow> ovec0 st = ?N \<and> ovec1 st = ?N"
    and cover: "set (map match_line_no (ml st)) =
        line_of data ` {x. match_at ?ok ?N x \<and> (x < ovec1 st \<or> x = ovec0 st)}"
    using inv unfolding scan_inv_def Let_def by blast+
  have all: "{x. match_at ?ok ?N x \<and> (x < ovec1 st \<or> x = ovec0 st)} = {x. match_at ?ok ?N x}"
  proof (cases "ovec0 st = ovec1 st \<and> ovec0 st = ?N")
    case True
    then show ?thesis by (auto dest: match_at_le)
  next
    case False
    from stop False consider "\<not> start_offset st < ?N"
      | "ovec0 st \<noteq> ovec1 st \<and> pm (ovec1 st) NoOptions = RcNoMatch"
      | "pm (ovec1 st) (if ovec0 st = ovec1 st then NotEmptyAtStartAnchored else NoOptions) = RcZero"
      by blast
    then show ?thesis
    proof cases
      case 1
      with b1 bso fin False show ?thesis by simp
    next
      case 2
      have "x < ovec1 st" if "match_at ?ok ?N x" for x
      proof -
        have "x \<le> ?N" using that by (rule match_at_le)
        with 2 contract_nomatch [OF c b1] that show ?thesis
          by (meson atLeastAtMost_iff not_le)
      qed
      then show ?thesis by auto
    next
      case 3
      with contract_no_error(1) [OF c b1] show ?thesis by blast
    qed
  qed
  with cover show ?thesis by simp
qed

lemma scan_loop_correct:
  assumes c: "pcre2_contract (accepted R data) (length data) pm" and N: "length data < size_max"
    and inv: "scan_inv R data st"
  shows "\<exists>ms. scan_loop pm data st = Some (Inr ms) \<and> sorted_wrt (<) (map match_line_no ms) \<and>
     set (map match_line_no ms) = line_of data ` {s. match_at (accepted R data) (length data) s} \<and>
     (\<forall>m\<in>set ms. accepted R data (match_start m) (match_end m) \<and> match_line_no m = line_of data (match_start m))"
proof -
  have "\<exists>r. scan_loop pm data st = Some r \<and> (\<exists>ms. r = Inr ms \<and> sorted_wrt (<) (map match_line_no ms) \<and>
     set (map match_line_no ms) = line_of data ` {s. match_at (accepted R data) (length data) s} \<and>
     (\<forall>m\<in>set ms. accepted R data (match_start m) (match_end m) \<and> match_line_no m = line_of data (match_start m)))"
proof (rule scan_loop_rule [where P = "scan_inv R data"])
  show "scan_inv R data st" by (rule inv)
next
  fix st r
  assume inv: "scan_inv R data st" and ret: "ScanFile_step pm data st = Return r"
  have b1: "ovec1 st \<le> length data"
    using inv by (simp add: scan_inv_def Let_def)
  have props: "sorted_wrt (<) (map match_line_no (ml st))"
      "\<forall>m\<in>set (ml st). accepted R data (match_start m) (match_end m) \<and> match_line_no m = line_of data (match_start m)"
    using inv by (simp_all add: scan_inv_def Let_def)
  from ret show "\<exists>ms. r = Inr ms \<and> sorted_wrt (<) (map match_line_no ms) \<and>
     set (map match_line_no ms) = line_of data ` {s. match_at (accepted R data) (length data) s} \<and>
     (\<forall>m\<in>set ms. accepted R data (match_start m) (match_end m) \<and> match_line_no m = line_of data (match_start m))"
  proof (cases rule: ScanFile_step_Return_cases)
    case stop
    with scan_inv_stop [OF inv N c] props show ?thesis by auto
  next
    case (error rc)
    with contract_no_error(2) [OF c b1] show ?thesis by blast
  qed
next
  fix st st'
  assume inv: "scan_inv R data st" and step: "ScanFile_step pm data st = Continue st'"
  have b1: "ovec1 st \<le> length data"
    using inv by (simp add: scan_inv_def Let_def)
  from step show "scan_inv R data st' \<and> scan_measure (length data) st' < scan_measure (length data) st"
  proof (cases rule: ScanFile_step_Continue_cases)
    case retry
    with scan_inv_retry [OF inv N] scan_measure_retry [of st "length data"] b1 show ?thesis
      by auto
  next
    case (found s e)
    with scan_inv_found [OF inv N _ _ c] show ?thesis by blast
  qed
qed
  then show ?thesis by blast
qed

lemma find_upt_Some:
  assumes "List.find P [a..<b] = Some x"
  shows "a \<le> x \<and> x < b \<and> P x \<and> (\<forall>y\<in>{a..<x}. \<not> P y)"
proof -
  from assms obtain i where i: "i < b - a" "P (a + i)" "x = a + i" "\<forall>j<i. \<not> P (a + j)"
    by (auto simp: find_Some_iff)
  have "\<not> P y" if "y \<in> {a..<x}" for y
  proof -
    have "y - a < i" using that i(3) by auto
    then have "\<not> P (a + (y - a))" using i(4) by blast
    moreover have "a + (y - a) = y" using that by auto
    ultimately show ?thesis by simp
  qed
  with i show ?thesis by auto
qed

lemma find_upt_None: "List.find P [a..<b] = None \<Longrightarrow> \<forall>y\<in>{a..<b}. \<not> P y"
  by (auto simp: find_None_iff)

lemma ref_match_contract: "pcre2_contract ok N (ref_match ok N)"
  unfolding pcre2_contract_def
proof
  fix so assume so: "so \<in> {0..N}"
  have plain: "pcre2_plain_ok ok N (ref_match ok N) so"
  proof (cases "List.find (match_at ok N) [so..<Suc N]")
    case None
    then show ?thesis
      using find_upt_None [OF None] by (auto simp: pcre2_plain_ok_def ref_match_def)
  next
    case (Some s)
    note s = find_upt_Some [OF Some]
    then obtain e where "e \<in> {s..N}" "ok s e" by (auto simp: match_at_def)
    then have "List.find (ok s) [s..<Suc N] \<noteq> None"
      by (auto simp: find_None_iff)
    then obtain e' where e': "List.find (ok s) [s..<Suc N] = Some e'" by blast
    note e'' = find_upt_Some [OF e']
    show ?thesis
      using Some e' s e'' by (auto simp: pcre2_plain_ok_def ref_match_def)
  qed
  have anch: "pcre2_anchored_ok ok N (ref_match ok N) so"
  proof (cases "List.find (ok so) [Suc so..<Suc N]")
    case None
    then show ?thesis
      using find_upt_None [OF None] by (auto simp: pcre2_anchored_ok_def ref_match_def)
  next
    case (Some e)
    then show ?thesis
      using find_upt_Some [OF Some] by (auto simp: pcre2_anchored_ok_def ref_match_def)
  qed
  from plain anch show "pcre2_plain_ok ok N (ref_match ok N) so \<and> pcre2_anchored_ok ok N (ref_match ok N) so" ..
qed


section \<open>Properties of ScanFile\<close>

text \<open>
  C1. Given a PCRE2 library that meets its contract, \<open>ScanFile\<close> returns, and the
  line numbers of the matches it reports are exactly the lines on which some match
  of the compiled regex starts, in ascending order, one record per line.
\<close>

theorem ScanFile_reports_matching_lines:
  assumes "pcre2_contract (accepted R data) (length data) pm" and "length data < size_max"
  shows "\<exists>ms. ScanFile pm data = Some (Inr ms) \<and> map match_line_no ms = matching_lines (accepted R data) data"
proof (cases "data = []")
  case True
  then have "ScanFile pm data = Some (Inr [])"
    by (simp add: ScanFile_def scan_loop_Return ScanFile_step_def scan_init_def)
  with True show ?thesis by (simp add: matching_lines_def)
next
  case False
  let ?ok = "accepted R data" and ?N = "length data"
  from scan_loop_correct [OF assms scan_inv_init [OF False assms(2)]]
  obtain ms where ms: "ScanFile pm data = Some (Inr ms)" and srt: "sorted_wrt (<) (map match_line_no ms)"
    and st: "set (map match_line_no ms) = line_of data ` {s. match_at ?ok ?N s}"
    by (auto simp: ScanFile_def)
  have ml_eq: "matching_lines ?ok data = remdups (map (line_of data) (filter (match_at ?ok ?N) [0..<Suc ?N]))"
    using False by (simp add: matching_lines_def del: upt_Suc)
  have "mono (line_of data)"
    by (simp add: mono_def line_of_mono)
  moreover have "sorted (filter (match_at ?ok ?N) [0..<Suc ?N])"
    by (rule sorted_wrt_filter) (rule sorted_upt)
  ultimately have "sorted_wrt (<) (matching_lines ?ok data)"
    unfolding ml_eq by (rule strict_sorted_remdups_map)
  moreover have "set (matching_lines ?ok data) = line_of data ` {s. match_at ?ok ?N s}"
  proof -
    have "{x. x < Suc ?N \<and> match_at ?ok ?N x} = {x. match_at ?ok ?N x}"
      by (auto dest: match_at_le)
    moreover have "set (matching_lines ?ok data) = line_of data ` {x. x < Suc ?N \<and> match_at ?ok ?N x}"
      unfolding ml_eq by (auto simp del: upt_Suc)
    ultimately show ?thesis by simp
  qed
  ultimately have "map match_line_no ms = matching_lines ?ok data"
    using srt st by (simp add: strict_sorted_unique)
  with ms show ?thesis by blast
qed



text \<open>Scenario 1 of the spec: \<open>foo\<close> against \<open>foo\nFOO\nfoo bar\n\<close> reports lines 1 and 3.\<close>

theorem ScanFile_reports_matching_lines_witness:
  "pcre2_contract (accepted (literal_re ''foo'' scenario_literal_file) scenario_literal_file)
     (length scenario_literal_file)
     (ref_match (accepted (literal_re ''foo'' scenario_literal_file) scenario_literal_file)
        (length scenario_literal_file)) \<and>
   length scenario_literal_file < size_max \<and>
   (\<exists>ms. ScanFile (ref_match (accepted (literal_re ''foo'' scenario_literal_file) scenario_literal_file)
        (length scenario_literal_file)) scenario_literal_file = Some (Inr ms) \<and>
      map match_line_no ms = [1, 3])"
proof -
  let ?ok = "accepted (literal_re ''foo'' scenario_literal_file) scenario_literal_file"
  have c: "pcre2_contract ?ok (length scenario_literal_file) (ref_match ?ok (length scenario_literal_file))"
    by (rule ref_match_contract)
  have b: "length scenario_literal_file < size_max"
    by (simp add: scenario_literal_file_def size_max_def)
  have l: "matching_lines ?ok scenario_literal_file = [1, 3]"
    by (simp add: scenario_literal_file_def matching_lines_def match_at_def accepted_def literal_re_def
        callout_handler_def line_of_def count_in_def upt_rec)
  from ScanFile_reports_matching_lines [OF c b] l c b show ?thesis by simp
qed

text \<open>
  C2. No match that \<open>ScanFile\<close> reports contains a newline byte: the callout
  rejects every candidate that spans one, so each record lies within the line whose
  number it carries.
\<close>

theorem ScanFile_match_within_line:
  assumes "pcre2_contract (accepted R data) (length data) pm" and "length data < size_max"
  shows "\<exists>ms. ScanFile pm data = Some (Inr ms) \<and>
    (\<forall>m\<in>set ms. nl \<notin> set (take (match_end m - match_start m) (drop (match_start m) data)) \<and>
       match_line_no m = line_of data (match_start m))"
proof (cases "data = []")
  case True
  then have "ScanFile pm data = Some (Inr [])"
    by (simp add: ScanFile_def scan_loop_Return ScanFile_step_def scan_init_def)
  then show ?thesis by simp
next
  case False
  from scan_loop_correct [OF assms scan_inv_init [OF False assms(2)]]
  obtain ms where "ScanFile pm data = Some (Inr ms)"
    and "\<forall>m\<in>set ms. accepted R data (match_start m) (match_end m) \<and> match_line_no m = line_of data (match_start m)"
    by (auto simp: ScanFile_def)
  then show ?thesis
    by (auto simp: accepted_def callout_handler_def split: if_splits)
qed

text \<open>Scenario 3 of the spec: \<open>a\s+b\<close> against \<open>a\nb\na b\n\<close>.\<close>

theorem ScanFile_match_within_line_witness:
  "pcre2_contract (accepted (a_space_b_re scenario_multiline_file) scenario_multiline_file)
     (length scenario_multiline_file)
     (ref_match (accepted (a_space_b_re scenario_multiline_file) scenario_multiline_file)
        (length scenario_multiline_file)) \<and>
   length scenario_multiline_file < size_max \<and>
   (\<exists>ms. ScanFile (ref_match (accepted (a_space_b_re scenario_multiline_file) scenario_multiline_file)
        (length scenario_multiline_file)) scenario_multiline_file = Some (Inr ms) \<and>
    (\<forall>m\<in>set ms. nl \<notin> set (take (match_end m - match_start m) (drop (match_start m) scenario_multiline_file)) \<and>
       match_line_no m = line_of scenario_multiline_file (match_start m)))"
proof -
  let ?ok = "accepted (a_space_b_re scenario_multiline_file) scenario_multiline_file"
  have c: "pcre2_contract ?ok (length scenario_multiline_file) (ref_match ?ok (length scenario_multiline_file))"
    by (rule ref_match_contract)
  have b: "length scenario_multiline_file < size_max"
    by (simp add: scenario_multiline_file_def size_max_def)
  from ScanFile_match_within_line [OF c b] c b show ?thesis by simp
qed

text \<open>
  C3. \<open>ScanFile\<close> returns whenever \<open>pcre2_match\<close> reports matches inside the
  subject at or after the start offset and, on a retry after an empty match, a
  non-empty match at the retry offset: the loop cannot run forever on an empty
  match.
\<close>

theorem ScanFile_terminates:
  assumes bounds: "pcre2_bounds (length data) pm"
  shows "\<exists>r. ScanFile pm data = Some r"
proof -
  have "\<exists>r. scan_loop pm data scan_init = Some r \<and> True"
  proof (rule scan_loop_rule [where P = "\<lambda>st. ovec1 st \<le> length data"])
    show "ovec1 scan_init \<le> length data" by (simp add: scan_init_def)
  next
    fix st st'
    assume b1: "ovec1 st \<le> length data" and step: "ScanFile_step pm data st = Continue st'"
    from step show "ovec1 st' \<le> length data \<and> scan_measure (length data) st' < scan_measure (length data) st"
    proof (cases rule: ScanFile_step_Continue_cases)
      case retry
      with b1 scan_measure_retry [of st "length data"] show ?thesis by auto
    next
      case (found s e)
      with bounds_found [OF bounds b1] have "ovec1 st \<le> s \<and> s \<le> e \<and> e \<le> length data \<and>
          (ovec0 st = ovec1 st \<longrightarrow> s = ovec1 st \<and> ovec1 st < e)"
        by fastforce
      with found scan_measure_found [of st s e "length data" st'] show ?thesis by auto
    qed
  qed simp
  then show ?thesis by (simp add: ScanFile_def)
qed

theorem ScanFile_terminates_witness:
  "pcre2_bounds (length scenario_literal_file)
     (ref_match (accepted (literal_re ''foo'' scenario_literal_file) scenario_literal_file)
        (length scenario_literal_file)) \<and>
   (\<exists>r. ScanFile (ref_match (accepted (literal_re ''foo'' scenario_literal_file) scenario_literal_file)
        (length scenario_literal_file)) scenario_literal_file = Some r)"
proof -
  have b: "pcre2_bounds (length scenario_literal_file)
     (ref_match (accepted (literal_re ''foo'' scenario_literal_file) scenario_literal_file)
        (length scenario_literal_file))"
    by (rule contract_bounds [OF ref_match_contract])
  from ScanFile_terminates [OF b] b show ?thesis by blast
qed

text \<open>
  C4. A match error ends the scan with the error, and the matches found before it
  are not returned: after a first match \<open>[0, e)\<close>, an error from the next call
  of \<open>pcre2_match\<close> makes the result the error.
\<close>

theorem ScanFile_match_error:
  assumes "0 < e" and "e < length data"
    and "pm 0 NoOptions = RcMatch 0 e" and "pm e NoOptions = RcError rc"
  shows "ScanFile pm data = Some (Inl (PCRE2MatchError rc))"
proof -
  have "data \<noteq> []" using assms(2) by auto
  with assms show ?thesis
  unfolding ScanFile_def
  by (subst scan_loop.simps, simp add: ScanFile_step_def scan_init_def size_max_def
        CountLinesSinceLastMatch_def Let_def,
      subst scan_loop.simps, simp add: ScanFile_step_def)
qed

theorem ScanFile_match_error_witness:
  "ScanFile (\<lambda>so opts. if so = 0 then RcMatch 0 1 else RcError (-2)) ''ab'' = Some (Inl (PCRE2MatchError (-2)))"
  by (rule ScanFile_match_error [where e = 1]) simp_all

text \<open>
  C5. The constructor yields a scanner exactly when PCRE2 compiles the pattern
  \<open>(?:\b(?:\Q regex \E)\b)(?=.*?$)(?C1)\<close> (the \<open>\Q...\E\<close> quoting only for a
  literal pattern, inside the word-boundary wrapper, which is only there for
  \<open>-w\<close>) with \<open>PCRE2_NO_AUTO_CAPTURE\<close>, \<open>MULTILINE\<close>,
  \<open>NEVER_BACKSLASH_C\<close>, \<open>NEVER_UTF\<close>, \<open>NEVER_UCP\<close>, \<open>JIT_COMPLETE\<close>
  and, for \<open>-i\<close>, \<open>CASELESS\<close>; JIT compilation returns 0 or
  \<open>PCRE2_ERROR_JIT_BADOPTION\<close> (-45, no JIT support); and the compiled pattern
  holds no callout beyond the internal one. The scanner then holds that compiled
  pattern and the flags it was given.
\<close>

theorem FileScannerPCRE2_ctor_Inr:
  "FileScannerPCRE2_ctor lib regex ignore_case word_regexp pattern_is_literal = Inr sc \<longleftrightarrow>
   (\<exists>code. pcre2_compile lib
        (''(?:'' @ (if word_regexp then [backslash] @ ''b(?:'' else []) @
         (if pattern_is_literal then [backslash, CHR ''Q''] @ regex @ [backslash, CHR ''E''] else regex) @
         (if word_regexp then '')'' @ [backslash] @ ''b'' else []) @ '')(?=.*?$)(?C1)'')
        ({PCRE2_NO_AUTO_CAPTURE, PCRE2_MULTILINE, PCRE2_NEVER_BACKSLASH_C, PCRE2_NEVER_UTF,
          PCRE2_NEVER_UCP, PCRE2_JIT_COMPLETE} \<union> (if ignore_case then {PCRE2_CASELESS} else {})) = Inr code \<and>
      (pcre2_jit_compile lib code = 0 \<or> pcre2_jit_compile lib code = -45) \<and>
      pcre2_callout_count lib code \<le> 1 \<and>
      sc = \<lparr>m_pcre2_regex = code, m_ignore_case = ignore_case,
            m_word_regexp = word_regexp, m_pattern_is_literal = pattern_is_literal\<rparr>)"
proof -
  have r: "build_regex pattern_is_literal word_regexp regex =
      ''(?:'' @ (if word_regexp then [backslash] @ ''b(?:'' else []) @
       (if pattern_is_literal then [backslash, CHR ''Q''] @ regex @ [backslash, CHR ''E''] else regex) @
       (if word_regexp then '')'' @ [backslash] @ ''b'' else []) @ '')(?=.*?$)(?C1)''"
    by (simp add: build_regex_def quote_literal_def word_wrap_def callout_wrap_def)
  show ?thesis
    unfolding FileScannerPCRE2_ctor_def r [symmetric]
    by (auto simp: Let_def regex_compile_options_def PCRE2_ERROR_JIT_BADOPTION_def split: sum.splits)
qed

end
