(* ===== verification/SyncQueue.thy ===== *)
theory SyncQueue
  imports Prelude
begin

text \<open>
  Model of \<open>src/src/sync_queue.h\<close>. Each member function of \<open>sync_queue\<close> runs
  under \<open>m_mutex\<close>, so each critical section is one atomic operation on the
  queue's fields. \<open>wait_pull\<close> and \<open>wait_for_worker_completion\<close> wait on a
  condition variable: they are split into the section before the wait and the
  section after a wake-up. The concurrent system of N worker threads, a master
  thread and any thread that closes the queue is a step relation; a ghost history
  of pushed and pulled items records the order in which items pass through.
\<close>

section \<open>The queue and its critical sections\<close>

datatype queue_op_status = QSuccess | QEmpty | QFull | QClosed | QBusy | QTimeout | QNotReady

record 'a sync_queue =
  m_underlying_queue :: "'a list"
  m_closed :: bool
  m_num_waiting_threads :: nat
  m_num_waiting_threads_notification_level :: nat

definition sync_queue_new :: "'a sync_queue" where
  "sync_queue_new = \<lparr>m_underlying_queue = [], m_closed = False, m_num_waiting_threads = 0,
     m_num_waiting_threads_notification_level = 500\<rparr>"

text \<open>\<open>close()\<close> (lines 60--72); it then notifies all waiters of \<open>m_cv\<close>.\<close>

definition sq_close :: "'a sync_queue \<Rightarrow> 'a sync_queue" where
  "sq_close q = q\<lparr>m_closed := True\<rparr>"

text \<open>\<open>wait_push(x)\<close> (lines 74--98); on success it notifies one waiter of \<open>m_cv\<close>.\<close>

definition sq_wait_push :: "'a \<Rightarrow> 'a sync_queue \<Rightarrow> queue_op_status \<times> 'a sync_queue" where
  "sq_wait_push x q =
     (if m_closed q then (QClosed, q)
      else (QSuccess, q\<lparr>m_underlying_queue := m_underlying_queue q @ [x]\<rparr>))"

text \<open>
  \<open>wait_pull\<close>, before the wait (lines 130--137): count the thread as waiting;
  \<open>m_cv_complete\<close> is notified when the count reaches the notification level.
\<close>

definition sq_pull_enter :: "'a sync_queue \<Rightarrow> 'a sync_queue" where
  "sq_pull_enter q = q\<lparr>m_num_waiting_threads := Suc (m_num_waiting_threads q)\<rparr>"

definition sq_pull_notifies :: "'a sync_queue \<Rightarrow> bool" where
  "sq_pull_notifies q \<longleftrightarrow> m_num_waiting_threads q = m_num_waiting_threads_notification_level q"

text \<open>The predicate of \<open>m_cv.wait\<close> (line 140).\<close>

definition sq_pull_ready :: "'a sync_queue \<Rightarrow> bool" where
  "sq_pull_ready q \<longleftrightarrow> m_underlying_queue q \<noteq> [] \<or> m_closed q"

text \<open>
  \<open>wait_pull\<close>, after the wait (lines 142--155). The predicate holds here, so the
  queue is non-empty unless it is closed; \<open>front()\<close> of an empty queue, which the
  predicate rules out, is undefined in C++ and left as a failed pull.
\<close>

definition sq_pull_exit :: "'a sync_queue \<Rightarrow> (queue_op_status \<times> 'a option) \<times> 'a sync_queue" where
  "sq_pull_exit q =
     (let q' = q\<lparr>m_num_waiting_threads := m_num_waiting_threads q - 1\<rparr> in
      if m_underlying_queue q = [] \<and> m_closed q then ((QClosed, None), q')
      else (case m_underlying_queue q of
              x # rest \<Rightarrow> ((QSuccess, Some x), q'\<lparr>m_underlying_queue := rest\<rparr>)
            | [] \<Rightarrow> ((QClosed, None), q')))"

text \<open>
  A whole \<open>wait_pull\<close> by a thread that does not have to wait: \<open>None\<close> when the
  calling thread would block.
\<close>

definition sq_wait_pull :: "'a sync_queue \<Rightarrow> ((queue_op_status \<times> 'a option) \<times> 'a sync_queue) option" where
  "sq_wait_pull q =
     (let q1 = sq_pull_enter q in if sq_pull_ready q1 then Some (sq_pull_exit q1) else None)"

text \<open>\<open>wait_for_worker_completion(n)\<close> (lines 207--225): set the level, then wait.\<close>

definition sq_wfwc_enter :: "nat \<Rightarrow> 'a sync_queue \<Rightarrow> 'a sync_queue" where
  "sq_wfwc_enter num_workers q = q\<lparr>m_num_waiting_threads_notification_level := num_workers\<rparr>"

definition sq_complete_ready :: "nat \<Rightarrow> 'a sync_queue \<Rightarrow> bool" where
  "sq_complete_ready num_workers q \<longleftrightarrow>
     (m_num_waiting_threads q = num_workers \<and> m_underlying_queue q = []) \<or> m_closed q"

definition sq_wfwc_result :: "'a sync_queue \<Rightarrow> queue_op_status" where
  "sq_wfwc_result q = (if m_closed q then QClosed else QSuccess)"

section \<open>Threads around one queue\<close>

text \<open>
  A worker is running with the items it will push before its next pull, parked in
  \<open>m_cv.wait\<close> (counted in \<open>m_num_waiting_threads\<close>), woken and waiting to
  re-acquire the mutex (still counted), or exited after a pull returned
  \<open>closed\<close>. The master runs until it calls \<open>wait_for_worker_completion\<close>, is
  parked in \<open>m_cv_complete.wait\<close>, woken, or has returned a status.
\<close>

datatype 'a worker = WRun "'a list" | WParked | WWoken | WExited

datatype master = MStart | MBlocked | MWoken | MReturned queue_op_status

record 'a qsys =
  qs_queue :: "'a sync_queue"
  qs_workers :: "nat \<Rightarrow> 'a worker"
  qs_master :: master
  qs_pushed :: "'a list"
  qs_pulled :: "'a list"

fun parked :: "'a worker \<Rightarrow> bool" where
  "parked WParked = True"
| "parked WWoken = True"
| "parked _ = False"

text \<open>The queue seeded with the root items, workers about to pull, the master not yet waiting.\<close>

definition qsys_init :: "'a list \<Rightarrow> 'a qsys" where
  "qsys_init seed = \<lparr>qs_queue = sync_queue_new\<lparr>m_underlying_queue := seed\<rparr>,
     qs_workers = (\<lambda>_. WRun []), qs_master = MStart, qs_pushed = seed, qs_pulled = []\<rparr>"

text \<open>\<open>m_cv_complete.notify_all()\<close> wakes the master if it is parked.\<close>

definition wake_master :: "master \<Rightarrow> master" where
  "wake_master m = (if m = MBlocked then MWoken else m)"

text \<open>\<open>m_cv.notify_all()\<close> wakes every parked worker.\<close>

definition wake_all :: "(nat \<Rightarrow> 'a worker) \<Rightarrow> nat \<Rightarrow> 'a worker" where
  "wake_all w = (\<lambda>i. if w i = WParked then WWoken else w i)"

text \<open>What a worker does once its pull returned: process the item (and plan pushes) or exit.\<close>

fun after_pull :: "'a option \<Rightarrow> 'a list \<Rightarrow> 'a worker" where
  "after_pull (Some x) ys = WRun ys"
| "after_pull None ys = WExited"

text \<open>
  One critical section of one thread, for \<open>N\<close> workers. A push by a worker
  notifies one parked worker, if there is one; a pull enters and either returns at
  once or parks; a woken worker re-checks the predicate; any thread may close the
  queue; the master waits for \<open>N\<close> idle workers.
\<close>

inductive qstep :: "nat \<Rightarrow> 'a qsys \<Rightarrow> 'a qsys \<Rightarrow> bool" for N :: nat where
  push_closed: "i < N \<Longrightarrow> qs_workers s i = WRun (x # xs) \<Longrightarrow> m_closed (qs_queue s) \<Longrightarrow>
    qstep N s (s\<lparr>qs_workers := (qs_workers s)(i := WRun xs)\<rparr>)"
| push_wake: "i < N \<Longrightarrow> qs_workers s i = WRun (x # xs) \<Longrightarrow> sq_wait_push x (qs_queue s) = (QSuccess, q') \<Longrightarrow>
    j < N \<Longrightarrow> qs_workers s j = WParked \<Longrightarrow>
    qstep N s (s\<lparr>qs_queue := q', qs_workers := ((qs_workers s)(i := WRun xs))(j := WWoken),
                 qs_pushed := qs_pushed s @ [x]\<rparr>)"
| push_nowake: "i < N \<Longrightarrow> qs_workers s i = WRun (x # xs) \<Longrightarrow> sq_wait_push x (qs_queue s) = (QSuccess, q') \<Longrightarrow>
    \<forall>j<N. qs_workers s j \<noteq> WParked \<Longrightarrow>
    qstep N s (s\<lparr>qs_queue := q', qs_workers := (qs_workers s)(i := WRun xs), qs_pushed := qs_pushed s @ [x]\<rparr>)"
| pull_now: "i < N \<Longrightarrow> qs_workers s i = WRun [] \<Longrightarrow> q1 = sq_pull_enter (qs_queue s) \<Longrightarrow> sq_pull_ready q1 \<Longrightarrow>
    sq_pull_exit q1 = ((st, r), q') \<Longrightarrow>
    qstep N s (s\<lparr>qs_queue := q', qs_workers := (qs_workers s)(i := after_pull r ys),
                 qs_master := (if sq_pull_notifies q1 then wake_master (qs_master s) else qs_master s),
                 qs_pulled := qs_pulled s @ list_of_opt r\<rparr>)"
| pull_park: "i < N \<Longrightarrow> qs_workers s i = WRun [] \<Longrightarrow> q1 = sq_pull_enter (qs_queue s) \<Longrightarrow> \<not> sq_pull_ready q1 \<Longrightarrow>
    qstep N s (s\<lparr>qs_queue := q1, qs_workers := (qs_workers s)(i := WParked),
                 qs_master := (if sq_pull_notifies q1 then wake_master (qs_master s) else qs_master s)\<rparr>)"
| resume_pull: "i < N \<Longrightarrow> qs_workers s i = WWoken \<Longrightarrow> sq_pull_ready (qs_queue s) \<Longrightarrow>
    sq_pull_exit (qs_queue s) = ((st, r), q') \<Longrightarrow>
    qstep N s (s\<lparr>qs_queue := q', qs_workers := (qs_workers s)(i := after_pull r ys),
                 qs_pulled := qs_pulled s @ list_of_opt r\<rparr>)"
| resume_park: "i < N \<Longrightarrow> qs_workers s i = WWoken \<Longrightarrow> \<not> sq_pull_ready (qs_queue s) \<Longrightarrow>
    qstep N s (s\<lparr>qs_workers := (qs_workers s)(i := WParked)\<rparr>)"
| close: "qstep N s (s\<lparr>qs_queue := sq_close (qs_queue s), qs_workers := wake_all (qs_workers s)\<rparr>)"
| master_call: "qs_master s = MStart \<Longrightarrow> q1 = sq_wfwc_enter N (qs_queue s) \<Longrightarrow>
    qstep N s (s\<lparr>qs_queue := q1,
                 qs_master := (if sq_complete_ready N q1 then MReturned (sq_wfwc_result q1) else MBlocked)\<rparr>)"
| master_resume: "qs_master s = MWoken \<Longrightarrow>
    qstep N s (s\<lparr>qs_master := (if sq_complete_ready N (qs_queue s) then MReturned (sq_wfwc_result (qs_queue s))
                              else MBlocked)\<rparr>)"

text \<open>Spurious wake-ups, which every predicate wait of the source tolerates.\<close>

inductive spurious :: "nat \<Rightarrow> 'a qsys \<Rightarrow> 'a qsys \<Rightarrow> bool" for N :: nat where
  worker_spurious: "i < N \<Longrightarrow> qs_workers s i = WParked \<Longrightarrow>
    spurious N s (s\<lparr>qs_workers := (qs_workers s)(i := WWoken)\<rparr>)"
| master_spurious: "qs_master s = MBlocked \<Longrightarrow> spurious N s (s\<lparr>qs_master := MWoken\<rparr>)"

inductive reachable :: "nat \<Rightarrow> 'a list \<Rightarrow> 'a qsys \<Rightarrow> bool" for N :: nat and seed :: "'a list" where
  init: "reachable N seed (qsys_init seed)"
| step: "reachable N seed s \<Longrightarrow> qstep N s t \<Longrightarrow> reachable N seed t"
| spur: "reachable N seed s \<Longrightarrow> spurious N s t \<Longrightarrow> reachable N seed t"

section \<open>Invariants\<close>

definition parked_count :: "nat \<Rightarrow> (nat \<Rightarrow> 'a worker) \<Rightarrow> nat" where
  "parked_count N w = card {i. i < N \<and> parked (w i)}"

text \<open>Every item pulled was pushed before, and the pulls take the pushed items in order.\<close>

definition qsys_fifo :: "'a qsys \<Rightarrow> bool" where
  "qsys_fifo s \<longleftrightarrow> qs_pushed s = qs_pulled s @ m_underlying_queue (qs_queue s)"

text \<open>\<open>m_num_waiting_threads\<close> counts exactly the workers inside \<open>wait_pull\<close>.\<close>

definition qsys_counted :: "nat \<Rightarrow> 'a qsys \<Rightarrow> bool" where
  "qsys_counted N s \<longleftrightarrow> m_num_waiting_threads (qs_queue s) = parked_count N (qs_workers s)"

text \<open>Once the master saw the quorum on an open queue, every worker is parked on an empty queue.\<close>

definition qsys_quiescent :: "nat \<Rightarrow> 'a qsys \<Rightarrow> bool" where
  "qsys_quiescent N s \<longleftrightarrow>
     (qs_master s = MReturned QSuccess \<and> \<not> m_closed (qs_queue s) \<longrightarrow>
        (\<forall>i<N. parked (qs_workers s i)) \<and> m_underlying_queue (qs_queue s) = [])"

text \<open>
  The master never sleeps through its predicate: while it waits in
  \<open>m_cv_complete\<close> the notification level is its \<open>N\<close>, and on an open queue
  the predicate is false.
\<close>

definition qsys_no_lost_wakeup :: "nat \<Rightarrow> 'a qsys \<Rightarrow> bool" where
  "qsys_no_lost_wakeup N s \<longleftrightarrow>
     (qs_master s = MBlocked \<or> qs_master s = MWoken \<longrightarrow>
        m_num_waiting_threads_notification_level (qs_queue s) = N) \<and>
     (qs_master s = MBlocked \<and> \<not> m_closed (qs_queue s) \<longrightarrow> \<not> sq_complete_ready N (qs_queue s))"

section \<open>Proofs\<close>


lemmas sq_defs = sq_close_def sq_wait_push_def sq_pull_enter_def sq_pull_notifies_def sq_pull_ready_def
  sq_pull_exit_def sq_wfwc_enter_def sq_complete_ready_def sq_wfwc_result_def

lemma parked_count_same:
  "parked v = parked (w j) \<Longrightarrow> parked_count N (w(j := v)) = parked_count N w"
  unfolding parked_count_def by (rule arg_cong [where f = card]) auto

lemma parked_count_wake_all [simp]: "parked_count N (wake_all w) = parked_count N w"
  unfolding parked_count_def wake_all_def by (rule arg_cong [where f = card]) auto

lemma card_remove_split: "finite S \<Longrightarrow> card S = card (S - {j}) + (if j \<in> S then 1 else 0)"
proof (cases "j \<in> S")
  case True
  assume "finite S"
  from card.remove [OF this True] True show ?thesis by simp
qed simp

lemma parked_count_upd:
  assumes "j < N"
  shows "parked_count N (w(j := v)) + (if parked (w j) then 1 else 0) =
         parked_count N w + (if parked v then 1 else 0)"
proof -
  let ?S = "{i. i < N \<and> parked (w i)}" and ?S' = "{i. i < N \<and> parked ((w(j := v)) i)}"
  have fin: "finite ?S" "finite ?S'" by simp_all
  have eq: "?S' - {j} = ?S - {j}" by auto
  have "card ?S = card (?S - {j}) + (if parked (w j) then 1 else 0)"
    using card_remove_split [OF fin(1), of j] assms by simp
  moreover have "card ?S' = card (?S' - {j}) + (if parked v then 1 else 0)"
    using card_remove_split [OF fin(2), of j] assms by simp
  ultimately show ?thesis
    unfolding parked_count_def eq by simp
qed

lemma parked_count_all:
  assumes "parked_count N w = N" and "i < N"
  shows "parked (w i)"
proof -
  have "{k. k < N \<and> parked (w k)} \<subseteq> {..<N}" by auto
  moreover have "card {k. k < N \<and> parked (w k)} = card {..<N}"
    using assms(1) by (simp add: parked_count_def)
  ultimately have "{k. k < N \<and> parked (w k)} = {..<N}"
    by (intro card_subset_eq) auto
  with assms(2) show ?thesis by blast
qed

lemma qstep_fifo: "qstep N s t \<Longrightarrow> qsys_fifo s \<Longrightarrow> qsys_fifo t"
  by (induction rule: qstep.induct)
     (auto simp: qsys_fifo_def sq_defs Let_def split: if_splits list.splits)

lemma qstep_counted: "qstep N s t \<Longrightarrow> qsys_counted N s \<Longrightarrow> qsys_counted N t"
proof (induction rule: qstep.induct)
  case (push_closed i s x xs)
  then show ?case by (simp add: qsys_counted_def parked_count_same)
next
  case (push_wake i s x xs q' j)
  then have "i \<noteq> j" by auto
  with push_wake have "parked_count N (((qs_workers s)(i := WRun xs))(j := WWoken)) = parked_count N (qs_workers s)"
    by (simp add: parked_count_same)
  with push_wake show ?case
    by (auto simp: qsys_counted_def sq_defs split: if_splits)
next
  case (push_nowake i s x xs q')
  then show ?case
    by (auto simp: qsys_counted_def sq_defs parked_count_same split: if_splits)
next
  case (pull_now i s q1 st r q' ys)
  have "parked (after_pull r ys) = parked (qs_workers s i)"
    using pull_now.hyps(2) by (cases r) auto
  with pull_now show ?case
    by (auto simp: qsys_counted_def sq_defs Let_def parked_count_same split: if_splits list.splits)
next
  case (pull_park i s q1)
  with parked_count_upd [OF pull_park.hyps(1), of "qs_workers s" WParked] show ?case
    by (simp add: qsys_counted_def sq_defs)
next
  case (resume_pull i s st r q' ys)
  have "\<not> parked (after_pull r ys)" by (cases r) auto
  with resume_pull parked_count_upd [OF resume_pull.hyps(1), of "qs_workers s" "after_pull r ys"] show ?case
    by (auto simp: qsys_counted_def sq_defs Let_def split: if_splits list.splits)
next
  case (resume_park i s)
  then show ?case by (simp add: qsys_counted_def parked_count_same)
next
  case (close s)
  then show ?case by (simp add: qsys_counted_def sq_defs)
next
  case (master_call s q1)
  then show ?case by (simp add: qsys_counted_def sq_defs)
next
  case (master_resume s)
  then show ?case by (simp add: qsys_counted_def)
qed



lemma qstep_quiescent:
  assumes "qstep N s t" and "qsys_counted N s" and "qsys_quiescent N s"
  shows "qsys_quiescent N t"
  using assms
proof (induction rule: qstep.induct)
  case (master_call s q1)
  show ?case
  proof (cases "sq_complete_ready N q1")
    case True
    then have "\<not> m_closed q1 \<Longrightarrow> m_num_waiting_threads q1 = N \<and> m_underlying_queue q1 = []"
      by (simp add: sq_complete_ready_def)
    with master_call parked_count_all [of N "qs_workers s"] show ?thesis
      by (auto simp: qsys_quiescent_def qsys_counted_def sq_defs)
  next
    case False
    with master_call show ?thesis by (simp add: qsys_quiescent_def)
  qed
next
  case (master_resume s)
  show ?case
  proof (cases "sq_complete_ready N (qs_queue s)")
    case True
    then have "\<not> m_closed (qs_queue s) \<Longrightarrow> m_num_waiting_threads (qs_queue s) = N \<and> m_underlying_queue (qs_queue s) = []"
      by (simp add: sq_complete_ready_def)
    with master_resume parked_count_all [of N "qs_workers s"] show ?thesis
      by (auto simp: qsys_quiescent_def qsys_counted_def sq_defs)
  next
    case False
    with master_resume show ?thesis by (simp add: qsys_quiescent_def)
  qed
qed (fastforce simp: qsys_quiescent_def sq_defs wake_master_def Let_def split: if_splits list.splits)+

lemma spurious_inv:
  assumes "spurious N s t"
  shows "qsys_fifo s \<Longrightarrow> qsys_fifo t"
    and "qsys_counted N s \<Longrightarrow> qsys_counted N t"
    and "qsys_quiescent N s \<Longrightarrow> qsys_quiescent N t"
  using assms
  by (induction rule: spurious.induct)
     (auto simp: qsys_fifo_def qsys_counted_def qsys_quiescent_def parked_count_same)

lemma qsys_init_inv: "qsys_fifo (qsys_init seed) \<and> qsys_counted N (qsys_init seed) \<and> qsys_quiescent N (qsys_init seed)"
  by (simp add: qsys_init_def sync_queue_new_def qsys_fifo_def qsys_counted_def qsys_quiescent_def parked_count_def)

lemma reachable_inv:
  "reachable N seed s \<Longrightarrow> qsys_fifo s \<and> qsys_counted N s \<and> qsys_quiescent N s"
proof (induction rule: reachable.induct)
  case init
  show ?case by (rule qsys_init_inv)
next
  case (step s t)
  then show ?case by (blast intro: qstep_fifo qstep_counted qstep_quiescent)
next
  case (spur s t)
  then show ?case by (blast dest: spurious_inv)
qed



lemma parked_count_le: "parked_count N w \<le> N"
proof -
  have "{i. i < N \<and> parked (w i)} \<subseteq> {..<N}" by auto
  then show ?thesis unfolding parked_count_def using card_mono [of "{..<N}"] by fastforce
qed

lemma parked_count_lt:
  assumes "i < N" and "\<not> parked (w i)"
  shows "parked_count N w < N"
proof -
  have "{k. k < N \<and> parked (w k)} \<subseteq> {..<N} - {i}" using assms by auto
  then have "parked_count N w \<le> card ({..<N} - {i})"
    unfolding parked_count_def by (intro card_mono) auto
  then show ?thesis using assms(1) by simp
qed

lemma parked_count_pos:
  assumes "i < N" and "parked (w i)"
  shows "0 < parked_count N w"
  unfolding parked_count_def using assms by (auto simp: card_gt_0_iff)

lemma qstep_no_lost_wakeup:
  assumes "qstep N s t" and "qsys_counted N s" and "qsys_no_lost_wakeup N s"
  shows "qsys_no_lost_wakeup N t"
  using assms
proof (induction rule: qstep.induct)
  case (pull_now i s q1 st r q' ys)
  have "m_num_waiting_threads (qs_queue s) < N"
    using pull_now.hyps(1,2) pull_now.prems(1) parked_count_lt [of i N "qs_workers s"]
    by (simp add: qsys_counted_def)
  with pull_now show ?case
    by (auto simp: qsys_no_lost_wakeup_def sq_defs wake_master_def Let_def split: if_splits list.splits)
next
  case (pull_park i s q1)
  then show ?case
    by (auto simp: qsys_no_lost_wakeup_def sq_defs wake_master_def)
next
  case (resume_pull i s st r q' ys)
  have "0 < m_num_waiting_threads (qs_queue s)" "m_num_waiting_threads (qs_queue s) \<le> N"
    using resume_pull.hyps(1,2) resume_pull.prems(1) parked_count_pos [of i N "qs_workers s"] parked_count_le
    by (simp_all add: qsys_counted_def)
  with resume_pull show ?case
    by (auto simp: qsys_no_lost_wakeup_def sq_defs Let_def split: if_splits list.splits)
qed (auto simp: qsys_no_lost_wakeup_def sq_defs Let_def split: if_splits)

lemma reachable_no_lost_wakeup: "reachable N seed s \<Longrightarrow> qsys_no_lost_wakeup N s"
proof (induction rule: reachable.induct)
  case init
  show ?case by (simp add: qsys_no_lost_wakeup_def qsys_init_def)
next
  case (step s t)
  then show ?case using reachable_inv qstep_no_lost_wakeup by blast
next
  case (spur s t)
  from spur.hyps(2) spur.IH show ?case
    by (cases rule: spurious.cases) (auto simp: qsys_no_lost_wakeup_def)
qed

lemma exited_master_stays_blocked:
  assumes "qstep N s t" and "qs_master s = MBlocked" and "\<forall>i<N. qs_workers s i = WExited"
  shows "qs_master t = MBlocked \<and> (\<forall>i<N. qs_workers t i = WExited)"
  using assms by (induction rule: qstep.induct) (auto simp: wake_all_def)



lemma qstep_to: "qstep N s t \<Longrightarrow> t = t' \<Longrightarrow> qstep N s t'"
  by simp

section \<open>Properties of the queue\<close>

text \<open>
  C6. Items leave the queue in the order they entered it: in every reachable state
  the items pulled so far, by any worker, followed by the items still queued, are
  exactly the items pushed so far (the root items first).
\<close>

theorem reachable_fifo:
  "reachable N seed s \<Longrightarrow> qs_pulled s @ m_underlying_queue (qs_queue s) = qs_pushed s"
  using reachable_inv [of N seed s] by (simp add: qsys_fifo_def)

theorem reachable_fifo_witness:
  "\<exists>s. reachable 2 [0::nat, 1] s \<and> qs_pulled s = [0] \<and>
     qs_pulled s @ m_underlying_queue (qs_queue s) = qs_pushed s"
proof -
  let ?s0 = "qsys_init [0::nat, 1]"
  let ?q1 = "sq_pull_enter (qs_queue ?s0)"
  have ex: "sq_pull_exit ?q1 = ((QSuccess, Some 0),
      ?q1\<lparr>m_num_waiting_threads := 0, m_underlying_queue := [1]\<rparr>)"
    by (simp add: qsys_init_def sync_queue_new_def sq_defs)
  let ?s1 = "?s0\<lparr>qs_queue := ?q1\<lparr>m_num_waiting_threads := 0, m_underlying_queue := [1]\<rparr>,
     qs_workers := (qs_workers ?s0)(0 := after_pull (Some (0::nat)) []),
     qs_master := (if sq_pull_notifies ?q1 then wake_master (qs_master ?s0) else qs_master ?s0),
     qs_pulled := qs_pulled ?s0 @ list_of_opt (Some 0)\<rparr>"
  have "qstep 2 ?s0 ?s1"
    by (rule qstep.pull_now [OF _ _ refl _ ex]) (simp_all add: qsys_init_def sync_queue_new_def sq_defs)
  then have r: "reachable 2 [0, 1] ?s1"
    by (rule reachable.step [OF reachable.init])
  have "qs_pulled ?s1 = [0]" by (simp add: qsys_init_def)
  with r reachable_fifo [OF r] show ?thesis by blast
qed

text \<open>
  C7. When \<open>wait_for_worker_completion(N)\<close> has returned \<open>success\<close> and the
  queue is still open, all N workers are inside \<open>wait_pull\<close> and the queue is
  empty: no worker can push new work, so closing the queue loses nothing.
\<close>

theorem quorum_success_quiescent:
  assumes "reachable N seed s" and "qs_master s = MReturned QSuccess" and "\<not> m_closed (qs_queue s)"
  shows "(\<forall>i<N. parked (qs_workers s i)) \<and> m_underlying_queue (qs_queue s) = []"
  using reachable_inv [OF assms(1)] assms(2,3) by (simp add: qsys_quiescent_def)

theorem quorum_success_quiescent_witness:
  "\<exists>s. reachable 1 ([] :: nat list) s \<and> qs_master s = MReturned QSuccess \<and> \<not> m_closed (qs_queue s) \<and>
     (\<forall>i<1. parked (qs_workers s i)) \<and> m_underlying_queue (qs_queue s) = []"
proof -
  define s0 :: "nat qsys" where "s0 = qsys_init []"
  define s1 :: "nat qsys" where "s1 = \<lparr>qs_queue = \<lparr>m_underlying_queue = [], m_closed = False,
      m_num_waiting_threads = 1, m_num_waiting_threads_notification_level = 500\<rparr>,
    qs_workers = (\<lambda>_. WRun [])(0 := WParked), qs_master = MStart, qs_pushed = [], qs_pulled = []\<rparr>"
  define s2 :: "nat qsys" where "s2 = s1\<lparr>qs_queue := (qs_queue s1)\<lparr>m_num_waiting_threads_notification_level := 1\<rparr>,
    qs_master := MReturned QSuccess\<rparr>"
  have "qstep 1 s0 s1"
    by (rule qstep_to [OF qstep.pull_park [where i = 0 and s = s0, OF _ _ refl]])
       (simp_all add: s0_def s1_def qsys_init_def sync_queue_new_def sq_defs)
  then have r1: "reachable 1 [] s1" unfolding s0_def by (rule reachable.step [OF reachable.init])
  have "qstep 1 s1 s2"
    by (rule qstep_to [OF qstep.master_call [where s = s1, OF _ refl]])
       (simp_all add: s1_def s2_def sq_defs)
  with r1 have r2: "reachable 1 [] s2" by (rule reachable.step)
  have "qs_master s2 = MReturned QSuccess" "\<not> m_closed (qs_queue s2)"
    by (simp_all add: s2_def s1_def)
  with r2 quorum_success_quiescent [OF r2] show ?thesis by blast
qed

text \<open>
  C8. \<open>close()\<close> notifies only \<open>m_cv\<close>, never \<open>m_cv_complete\<close>: once the
  master is parked in \<open>wait_for_worker_completion\<close> and every worker has left
  \<open>wait_pull\<close> with \<open>closed\<close>, no step of any thread, closing the queue
  again included, returns the master. The witness reaches such a state by closing
  the queue while one worker is parked and another is busy.
\<close>

theorem close_leaves_master_blocked:
  assumes "qs_master s = MBlocked" and "\<forall>i<N. qs_workers s i = WExited" and "(qstep N)\<^sup>*\<^sup>* s t"
  shows "qs_master t = MBlocked"
proof -
  from assms(3) have "qs_master t = MBlocked \<and> (\<forall>i<N. qs_workers t i = WExited)"
  proof (induction rule: rtranclp_induct)
    case base
    with assms(1,2) show ?case by blast
  next
    case (step u t)
    then show ?case by (blast dest: exited_master_stays_blocked)
  qed
  then show ?thesis ..
qed

theorem close_leaves_master_blocked_witness:
  "\<exists>s. reachable 2 [0 :: nat] s \<and> m_closed (qs_queue s) \<and> qs_master s = MBlocked \<and>
     (\<forall>i<2. qs_workers s i = WExited) \<and> (\<forall>t. (qstep 2)\<^sup>*\<^sup>* s t \<longrightarrow> qs_master t = MBlocked)"
proof -
  define q :: "nat list \<Rightarrow> bool \<Rightarrow> nat \<Rightarrow> nat \<Rightarrow> nat sync_queue" where
    "q = (\<lambda>xs c n l. \<lparr>m_underlying_queue = xs, m_closed = c, m_num_waiting_threads = n,
                      m_num_waiting_threads_notification_level = l\<rparr>)"
  define sys :: "nat sync_queue \<Rightarrow> (nat \<Rightarrow> nat worker) \<Rightarrow> master \<Rightarrow> nat qsys" where
    "sys = (\<lambda>qu w m. \<lparr>qs_queue = qu, qs_workers = w, qs_master = m, qs_pushed = [0], qs_pulled = [0]\<rparr>)"
  define s1 where "s1 = sys (q [] False 0 500) (\<lambda>_. WRun []) MStart"
  define s2 where "s2 = sys (q [] False 0 2) (\<lambda>_. WRun []) MBlocked"
  define s3 where "s3 = sys (q [] False 1 2) ((\<lambda>_. WRun [])(1 := WParked)) MBlocked"
  define s4 where "s4 = sys (q [] True 1 2) ((\<lambda>_. WRun [])(1 := WWoken)) MBlocked"
  define s5 where "s5 = sys (q [] True 0 2) ((\<lambda>_. WRun [])(1 := WExited)) MBlocked"
  define s6 where "s6 = sys (q [] True 0 2) ((\<lambda>_. WRun [])(1 := WExited, 0 := WExited)) MBlocked"
  note defs = q_def sys_def s1_def s2_def s3_def s4_def s5_def s6_def
  have "qstep 2 (qsys_init [0::nat]) s1"
    by (rule qstep_to [OF qstep.pull_now [where i = 0 and s = "qsys_init [0::nat]" and ys = "[]::nat list"
       and st = QSuccess and r = "Some 0" and q' = "q [] False 0 500", OF _ _ refl]])
       (simp_all add: defs qsys_init_def sync_queue_new_def sq_defs wake_master_def fun_eq_iff)
  then have r1: "reachable 2 [0] s1" by (rule reachable.step [OF reachable.init])
  have "qstep 2 s1 s2"
    by (rule qstep_to [OF qstep.master_call [where s = s1, OF _ refl]]) (simp_all add: defs sq_defs)
  with r1 have r2: "reachable 2 [0] s2" by (rule reachable.step)
  have "qstep 2 s2 s3"
    by (rule qstep_to [OF qstep.pull_park [where i = 1 and s = s2, OF _ _ refl]]) (simp_all add: defs sq_defs)
  with r2 have r3: "reachable 2 [0] s3" by (rule reachable.step)
  have "qstep 2 s3 s4"
    by (rule qstep_to [OF qstep.close [where s = s3]]) (auto simp: defs sq_defs wake_all_def)
  with r3 have r4: "reachable 2 [0] s4" by (rule reachable.step)
  have "qstep 2 s4 s5"
    by (rule qstep_to [OF qstep.resume_pull [where i = 1 and s = s4 and st = QClosed and r = None and ys = "[]::nat list" and q' = "q [] True 0 2"]])
       (simp_all add: defs sq_defs)
  with r4 have r5: "reachable 2 [0] s5" by (rule reachable.step)
  have "qstep 2 s5 s6"
    by (rule qstep_to [OF qstep.pull_now [where i = 0 and s = s5 and ys = "[]::nat list"
       and st = QClosed and r = None and q' = "q [] True 0 2", OF _ _ refl]])
       (simp_all add: defs sq_defs fun_upd_twist)
  with r5 have r6: "reachable 2 [0] s6" by (rule reachable.step)
  have props: "m_closed (qs_queue s6)" "qs_master s6 = MBlocked" "\<forall>i<2. qs_workers s6 i = WExited"
    by (auto simp: defs less_2_cases_iff)
  have "\<forall>t. (qstep 2)\<^sup>*\<^sup>* s6 t \<longrightarrow> qs_master t = MBlocked"
    using close_leaves_master_blocked [OF props(2,3)] by blast
  with r6 props show ?thesis by blast
qed

text \<open>
  C10. \<open>m_num_waiting_threads\<close> counts exactly the workers inside
  \<open>wait_pull\<close> (parked on \<open>m_cv\<close>, or woken and not yet returned) in every
  reachable state, whatever the interleaving.
\<close>

theorem reachable_waiting_count:
  "reachable N seed s \<Longrightarrow> m_num_waiting_threads (qs_queue s) = card {i. i < N \<and> parked (qs_workers s i)}"
  using reachable_inv [of N seed s] by (simp add: qsys_counted_def parked_count_def)


theorem reachable_waiting_count_witness:
  "\<exists>s. reachable 2 ([] :: nat list) s \<and> m_num_waiting_threads (qs_queue s) = 1 \<and>
     m_num_waiting_threads (qs_queue s) = card {i. i < 2 \<and> parked (qs_workers s i)}"
proof -
  define s1 :: "nat qsys" where "s1 = \<lparr>qs_queue = \<lparr>m_underlying_queue = [], m_closed = False,
      m_num_waiting_threads = 1, m_num_waiting_threads_notification_level = 500\<rparr>,
    qs_workers = (\<lambda>_. WRun [])(0 := WParked), qs_master = MStart, qs_pushed = [], qs_pulled = []\<rparr>"
  have "qstep 2 (qsys_init []) s1"
    by (rule qstep_to [OF qstep.pull_park [where i = 0 and s = "qsys_init []", OF _ _ refl]])
       (simp_all add: s1_def qsys_init_def sync_queue_new_def sq_defs)
  then have r: "reachable 2 [] s1" by (rule reachable.step [OF reachable.init])
  have "m_num_waiting_threads (qs_queue s1) = 1" by (simp add: s1_def)
  with r reachable_waiting_count [OF r] show ?thesis by blast
qed

text \<open>
  C9. On a closed queue \<open>wait_push\<close> fails and changes nothing, and
  \<open>wait_pull\<close> never blocks: it hands out the front item while there is one and
  reports \<open>closed\<close> once the queue is empty, leaving the waiting count as it was.
\<close>

theorem closed_queue_ops:
  assumes "m_closed q"
  shows "sq_wait_push x q = (QClosed, q) \<and>
    sq_wait_pull q = Some (case m_underlying_queue q of
        [] \<Rightarrow> ((QClosed, None), q)
      | y # ys \<Rightarrow> ((QSuccess, Some y), q\<lparr>m_underlying_queue := ys\<rparr>))"
  using assms by (simp add: sq_wait_pull_def sq_defs Let_def split: list.split)

theorem closed_queue_ops_witness:
  "sq_wait_push (3::nat) (sync_queue_new\<lparr>m_underlying_queue := [1, 2], m_closed := True\<rparr>) =
     (QClosed, sync_queue_new\<lparr>m_underlying_queue := [1, 2], m_closed := True\<rparr>) \<and>
   sq_wait_pull (sync_queue_new\<lparr>m_underlying_queue := [1::nat, 2], m_closed := True\<rparr>) =
     Some ((QSuccess, Some 1), sync_queue_new\<lparr>m_underlying_queue := [2], m_closed := True\<rparr>)"
  using closed_queue_ops [of "sync_queue_new\<lparr>m_underlying_queue := [1::nat, 2], m_closed := True\<rparr>" 3]
  by (simp add: sync_queue_new_def)

text \<open>
  C39. No lost wake-up for the master: while \<open>wait_for_worker_completion(N)\<close>
  is blocked on an open queue, its predicate (\<open>N\<close> waiting workers and an empty
  queue) is false. The only way the predicate becomes true is a \<open>wait_pull\<close>
  that raises the count to \<open>N\<close>, and that call notifies \<open>m_cv_complete\<close>;
  closing the queue is the exception (C8).
\<close>

theorem master_no_lost_wakeup:
  assumes "reachable N seed s" and "qs_master s = MBlocked" and "\<not> m_closed (qs_queue s)"
  shows "\<not> sq_complete_ready N (qs_queue s)"
  using reachable_no_lost_wakeup [OF assms(1)] assms(2,3) by (simp add: qsys_no_lost_wakeup_def)

theorem master_no_lost_wakeup_witness:
  "\<exists>s. reachable 1 ([] :: nat list) s \<and> qs_master s = MBlocked \<and> \<not> m_closed (qs_queue s) \<and>
     \<not> sq_complete_ready 1 (qs_queue s)"
proof -
  define s1 :: "nat qsys" where
    "s1 = (qsys_init [])\<lparr>qs_queue := sq_wfwc_enter 1 (qs_queue (qsys_init [])), qs_master := MBlocked\<rparr>"
  have "qstep 1 (qsys_init []) s1"
    by (rule qstep_to [OF qstep.master_call [where s = "qsys_init []", OF _ refl]])
       (simp_all add: s1_def qsys_init_def sync_queue_new_def sq_defs)
  then have r: "reachable 1 [] s1" by (rule reachable.step [OF reachable.init])
  have "qs_master s1 = MBlocked" "\<not> m_closed (qs_queue s1)"
    by (simp_all add: s1_def qsys_init_def sync_queue_new_def sq_defs)
  with r master_no_lost_wakeup [OF r] show ?thesis by blast
qed

end
