(* ===== verification/RcFile.thy ===== *)
theory RcFile
  imports Prelude
begin

text \<open>
  The rc files of \<open>src/src/ArgParse.cpp\<close>: \<open>ConvertRCFileToArgv\<close>, which
  turns the bytes of a \<open>.ucgrc\<close> file into argument strings, and
  \<open>FindAndParseConfigFiles\<close> with \<open>GetUserHomeDir\<close>, which decide which
  files are read. The file system is an input: what opening a name gives, the
  environment variable \<open>HOME\<close>, the password database entry, and the project rc
  file name that \<open>GetProjectRCFilename\<close> found.
\<close>

section \<open>Errors of argument parsing\<close>

text \<open>
  The \<open>ArgParseException\<close>s the sources throw, the exits of
  \<open>argp_failure\<close>, \<open>argp_error\<close> and \<open>argp_usage\<close> (status 255), and
  argp's exit with status 0 after printing the text \<open>--help\<close>, \<open>--usage\<close> or
  \<open>--version\<close> asks for (\<open>ArgpExitSuccess\<close>, with the option as given).
\<close>

datatype argparse_error =
    DoubleDashInRcFile bytes bytes
  | NonOptionInRcFile bytes bytes
  | AmbiguousOption bytes "bytes list"
  | TypeManagerError bytes bytes
  | UnknownType bytes
  | JobsMustBePositive
  | UnrecognizedOption bytes
  | MissingArgument bytes
  | Usage
  | ArgpExitSuccess bytes

section \<open>\<open>ConvertRCFileToArgv\<close>\<close>

text \<open>
  Lines 829--880. \<open>pos\<close> is the rest of the file from the read position.
  Leading white space, newlines included, is eaten; a \<open>#\<close> starts a comment that
  runs to the next newline; anything else runs to the first \<open>\r\<close> or
  \<open>\n\<close> and is copied into a NUL-terminated \<open>param\<close>, which is refused when it
  is \<open>--\<close> or does not start with \<open>-\<close>. The strings are C strings, so a
  NUL byte in a line ends the parameter (\<open>c_str\<close>).
\<close>

function rc_loop :: "bytes \<Rightarrow> bytes \<Rightarrow> bytes list \<Rightarrow> argparse_error + bytes list" where
  "rc_loop fname pos retval =
     (if pos = [] then Inr retval
      else
        let pos1 = dropWhile c_isspace pos in
        if pos1 = [] then Inr retval
        else if hd pos1 = CHR ''#'' then rc_loop fname (dropWhile (\<lambda>c. c \<noteq> nl) pos1) retval
        else
          let param = c_str (takeWhile (\<lambda>c. c \<noteq> cr \<and> c \<noteq> nl) pos1) in
          if param = ''--'' then Inl (DoubleDashInRcFile param fname)
          else if (case param of [] \<Rightarrow> True | c # _ \<Rightarrow> c \<noteq> CHR ''-'')
          then Inl (NonOptionInRcFile param fname)
          else rc_loop fname (dropWhile (\<lambda>c. c \<noteq> cr \<and> c \<noteq> nl) pos1) (retval @ [param]))"
  by pat_completeness auto

termination
proof (relation "measure (\<lambda>(fname, pos, retval). length pos)")
  show "wf (measure (\<lambda>(fname, pos, retval). length pos))" by simp
next
  fix fname pos retval pos1
  assume "pos1 = dropWhile c_isspace pos" "pos1 \<noteq> []" "hd pos1 = CHR ''#''"
  then have "length (dropWhile (\<lambda>c. c \<noteq> nl) pos1) < length pos1"
    by (intro dropWhile_shorter) auto
  with \<open>pos1 = dropWhile c_isspace pos\<close> show "((fname, dropWhile (\<lambda>c. c \<noteq> nl) pos1, retval), fname, pos, retval)
      \<in> measure (\<lambda>(fname, pos, retval). length pos)"
    using length_dropWhile_le [of c_isspace pos] by simp
next
  fix fname pos retval pos1 param
  assume p1: "pos1 = dropWhile c_isspace pos" "pos1 \<noteq> []"
  then have "\<not> c_isspace (hd pos1)"
    using hd_dropWhile by blast
  then have "length (dropWhile (\<lambda>c. c \<noteq> cr \<and> c \<noteq> nl) pos1) < length pos1"
    using p1(2) by (intro dropWhile_shorter) (auto simp: c_isspace_def)
  with p1 show "((fname, dropWhile (\<lambda>c. c \<noteq> cr \<and> c \<noteq> nl) pos1, retval @ [param]), fname, pos, retval)
      \<in> measure (\<lambda>(fname, pos, retval). length pos)"
    using length_dropWhile_le [of c_isspace pos] by simp
qed

definition ConvertRCFileToArgv :: "bytes \<Rightarrow> bytes \<Rightarrow> argparse_error + bytes list" where
  "ConvertRCFileToArgv fname data = rc_loop fname data []"

declare rc_loop.simps [simp del]

text \<open>
  What an rc file may hold on a line, and so what the parser can give back: an option
  (first byte \<open>-\<close>) other than \<open>--\<close>, with no line break and no NUL.
\<close>

definition rc_arg_ok :: "bytes \<Rightarrow> bool" where
  "rc_arg_ok a \<longleftrightarrow>
     (case a of [] \<Rightarrow> False | c # _ \<Rightarrow> c = CHR ''-'') \<and> a \<noteq> ''--'' \<and>
     cr \<notin> set a \<and> nl \<notin> set a \<and> CHR 0x00 \<notin> set a"

text \<open>An argument vector written back as an rc file, one argument per line.\<close>

definition rc_serialize :: "bytes list \<Rightarrow> bytes" where
  "rc_serialize args = concat (map (\<lambda>a. a @ [nl]) args)"

section \<open>Finding the rc files\<close>

text \<open>
  \<open>GetUserHomeDir\<close> (lines 708--727): \<open>$HOME\<close> if set, else the home directory
  of the password database entry, else empty.
\<close>

definition GetUserHomeDir :: "bytes option \<Rightarrow> bytes option \<Rightarrow> bytes" where
  "GetUserHomeDir env_home pw_dir =
     (case env_home of Some h \<Rightarrow> h | None \<Rightarrow> (case pw_dir of Some d \<Rightarrow> d | None \<Rightarrow> []))"

text \<open>
  What constructing a \<open>File\<close> for a name gives: the file does not exist
  (\<open>system_error\<close> with \<open>ENOENT\<close>, silent), it cannot be read
  (\<open>FileException\<close> or another \<open>system_error\<close>, a warning), or its bytes.
\<close>

datatype file_open = FileMissing | FileOpenError | FileContents bytes

text \<open>
  One rc file as \<open>FindAndParseConfigFiles\<close> reads it: missing and unreadable
  files and zero-length files contribute nothing; an \<open>ArgParseException\<close> from
  \<open>ConvertRCFileToArgv\<close> is not caught there and propagates.
\<close>

definition read_rc_file :: "(bytes \<Rightarrow> file_open) \<Rightarrow> bytes \<Rightarrow> argparse_error + bytes list" where
  "read_rc_file fs name =
     (case fs name of
        FileContents d \<Rightarrow> if d = [] then Inr [] else ConvertRCFileToArgv name d
      | _ \<Rightarrow> Inr [])"

text \<open>
  \<open>FindAndParseConfigFiles\<close> (lines 626--706): the user's \<open>$HOME/.ucgrc\<close>
  unless \<open>--test-noenv-user\<close> was given or there is no home directory, then the
  project rc file that \<open>GetProjectRCFilename\<close> found (empty if none). The result
  is the pair (\<open>user_argv\<close>, \<open>project_argv\<close>).
\<close>

definition FindAndParseConfigFiles ::
  "bool \<Rightarrow> bytes \<Rightarrow> bytes \<Rightarrow> (bytes \<Rightarrow> file_open) \<Rightarrow> argparse_error + (bytes list \<times> bytes list)" where
  "FindAndParseConfigFiles test_noenv_user homedir proj_rc_filename fs =
     (case (if \<not> test_noenv_user \<and> homedir \<noteq> [] then read_rc_file fs (homedir @ ''/.ucgrc'') else Inr []) of
        Inl e \<Rightarrow> Inl e
      | Inr user_argv \<Rightarrow>
          (case (if proj_rc_filename \<noteq> [] then read_rc_file fs proj_rc_filename else Inr []) of
             Inl e \<Rightarrow> Inl e
           | Inr project_argv \<Rightarrow> Inr (user_argv, project_argv)))"

section \<open>Reading an rc file\<close>


lemma rc_loop_blank:
  assumes "\<forall>c\<in>set pos. c_isspace c"
  shows "rc_loop f pos acc = Inr acc"
proof -
  have "dropWhile c_isspace pos = []"
    using assms by (simp add: dropWhile_eq_Nil_conv)
  then show ?thesis
    by (subst rc_loop.simps) simp
qed

lemma rc_loop_comment:
  assumes "dropWhile c_isspace pos = p1" and "p1 \<noteq> []" and "hd p1 = CHR ''#''"
  shows "rc_loop f pos acc = rc_loop f (dropWhile (\<lambda>c. c \<noteq> nl) p1) acc"
proof -
  have "pos \<noteq> []" using assms(1,2) by auto
  then show ?thesis
    using assms by (subst rc_loop.simps) simp
qed

lemma rc_loop_param:
  assumes "dropWhile c_isspace pos = p1" and "p1 \<noteq> []" and "hd p1 \<noteq> CHR ''#''"
    and "c_str (takeWhile (\<lambda>c. c \<noteq> cr \<and> c \<noteq> nl) p1) = param"
  shows "rc_loop f pos acc =
    (if param = ''--'' then Inl (DoubleDashInRcFile param f)
     else if (case param of [] \<Rightarrow> True | c # _ \<Rightarrow> c \<noteq> CHR ''-'') then Inl (NonOptionInRcFile param f)
     else rc_loop f (dropWhile (\<lambda>c. c \<noteq> cr \<and> c \<noteq> nl) p1) (acc @ [param]))"
proof -
  have "pos \<noteq> []" using assms(1,2) by auto
  then show ?thesis
    using assms by (subst rc_loop.simps) (simp add: Let_def)
qed

lemma rc_param_ok:
  assumes "c_str (takeWhile (\<lambda>c. c \<noteq> cr \<and> c \<noteq> nl) p1) = param"
    and "param \<noteq> ''--''" and "\<not> (case param of [] \<Rightarrow> True | c # _ \<Rightarrow> c \<noteq> CHR ''-'')"
  shows "rc_arg_ok param"
proof -
  have "cr \<notin> set param \<and> nl \<notin> set param \<and> CHR 0x00 \<notin> set param"
    using assms(1) unfolding c_str_def by (auto dest: set_takeWhileD)
  then show ?thesis
    using assms(2,3) by (auto simp: rc_arg_ok_def split: list.splits)
qed

lemma rc_loop_line:
  assumes "\<forall>c\<in>set ws. c_isspace c" and "rc_arg_ok a"
  shows "rc_loop f (ws @ a @ nl # rest) acc = rc_loop f (nl # rest) (acc @ [a])"
proof -
  have a: "a \<noteq> []" "hd a = CHR ''-''"
    using assms(2) by (auto simp: rc_arg_ok_def split: list.splits)
  then have ds: "dropWhile c_isspace (ws @ a @ nl # rest) = a @ nl # rest"
    using assms(1) by (cases a) (simp_all add: dropWhile_append_all c_lib_simps)
  have nocrnl: "\<forall>c\<in>set a. c \<noteq> cr \<and> c \<noteq> nl"
    using assms(2) by (auto simp: rc_arg_ok_def)
  have tw: "c_str (takeWhile (\<lambda>c. c \<noteq> cr \<and> c \<noteq> nl) (a @ nl # rest)) = a"
    using nocrnl assms(2) by (simp add: takeWhile_append2 rc_arg_ok_def)
  have dw: "dropWhile (\<lambda>c. c \<noteq> cr \<and> c \<noteq> nl) (a @ nl # rest) = nl # rest"
    using nocrnl by (simp add: dropWhile_append2)
  have "rc_loop f (ws @ a @ nl # rest) acc = rc_loop f (dropWhile (\<lambda>c. c \<noteq> cr \<and> c \<noteq> nl) (a @ nl # rest)) (acc @ [a])"
    using rc_loop_param [OF ds _ _ tw] a assms(2) by (simp add: rc_arg_ok_def split: list.splits)
  then show ?thesis
    by (simp add: dw)
qed

lemma rc_loop_serialize_prefix:
  assumes "\<forall>c\<in>set ws. c_isspace c" and "\<forall>a\<in>set args. rc_arg_ok a"
  shows "rc_loop f (ws @ rc_serialize args @ rest) acc =
    rc_loop f ((if args = [] then ws else [nl]) @ rest) (acc @ args)"
  using assms
proof (induction args arbitrary: ws acc)
  case Nil
  then show ?case by (simp add: rc_serialize_def)
next
  case (Cons a args)
  have "rc_loop f (ws @ rc_serialize (a # args) @ rest) acc =
      rc_loop f (ws @ a @ nl # (rc_serialize args @ rest)) acc"
    by (simp add: rc_serialize_def)
  also have "\<dots> = rc_loop f ([nl] @ rc_serialize args @ rest) (acc @ [a])"
    using Cons.prems by (simp add: rc_loop_line)
  also have "\<dots> = rc_loop f ([nl] @ rest) (acc @ [a] @ args)"
    using Cons.prems Cons.IH [of "[nl]" "acc @ [a]"] by (simp add: c_lib_simps)
  finally show ?case by simp
qed

lemma rc_loop_args_ok:
  "rc_loop f pos acc = Inr r \<Longrightarrow> \<forall>a\<in>set acc. rc_arg_ok a \<Longrightarrow> \<forall>a\<in>set r. rc_arg_ok a"
proof (induction f pos acc rule: rc_loop.induct)
  case (1 fname pos retval)
  define pos1 where "pos1 = dropWhile c_isspace pos"
  define param where "param = c_str (takeWhile (\<lambda>c. c \<noteq> cr \<and> c \<noteq> nl) pos1)"
  show ?case
  proof (cases "pos1 = []")
    case True
    then have "rc_loop fname pos retval = Inr retval"
      by (intro rc_loop_blank) (simp add: pos1_def dropWhile_eq_Nil_conv)
    then show ?thesis using "1.prems" by simp
  next
    case ne: False
    then have pne: "pos \<noteq> []" by (auto simp: pos1_def)
    show ?thesis
    proof (cases "hd pos1 = CHR ''#''")
      case True
      then show ?thesis
        using "1.prems" "1.IH"(1) [OF pne pos1_def ne True] rc_loop_comment [OF pos1_def [symmetric] ne True]
        by simp
    next
      case hash: False
      note eq = rc_loop_param [OF pos1_def [symmetric] ne hash param_def [symmetric], of fname retval]
      show ?thesis
      proof (cases "param = ''--'' \<or> (case param of [] \<Rightarrow> True | c # _ \<Rightarrow> c \<noteq> CHR ''-'')")
        case True
        then show ?thesis using "1.prems"(1) eq by (auto split: if_splits)
      next
        case ok: False
        then have "rc_arg_ok param"
          using rc_param_ok [OF param_def [symmetric]] by simp
        then show ?thesis
          using "1.IH"(2) [OF pne pos1_def ne hash param_def] "1.prems" ok eq by auto
      qed
    qed
  qed
qed

text \<open>
  Trailing white space is kept: only a line's leading white space is skipped, so a
  line \<open>-i \<close> with a trailing blank gives the argument \<open>-i \<close>, which argp then
  rejects as an unknown short option.
\<close>

lemma ConvertRCFileToArgv_keeps_trailing_blank:
  "ConvertRCFileToArgv ''.ucgrc'' ''-i \<newline>'' = Inr [''-i '']"
  by (simp add: ConvertRCFileToArgv_def rc_loop.simps c_isspace_def c_str_def)

lemma read_rc_file_ok:
  "read_rc_file fs name = Inr args \<Longrightarrow> \<forall>a\<in>set args. rc_arg_ok a"
  using rc_loop_args_ok [of name _ "[]" args]
  by (auto simp: read_rc_file_def ConvertRCFileToArgv_def split: file_open.splits if_splits)

lemma FindAndParseConfigFiles_ok:
  assumes "FindAndParseConfigFiles t homedir proj fs = Inr (user_argv, project_argv)"
  shows "\<forall>a\<in>set (user_argv @ project_argv). rc_arg_ok a"
  using assms read_rc_file_ok [of fs]
  by (auto simp: FindAndParseConfigFiles_def split: sum.splits if_splits)

lemma rc_loop_bad_line:
  assumes "\<forall>c\<in>set ws. c_isspace c" and "l \<noteq> []" and "\<not> c_isspace (hd l)" and "hd l \<noteq> CHR ''#''"
    and "cr \<notin> set l" and "nl \<notin> set l" and "CHR 0x00 \<notin> set l" and "\<not> rc_arg_ok l"
  shows "rc_loop f (ws @ l @ nl # rest) acc =
    Inl (if l = ''--'' then DoubleDashInRcFile l f else NonOptionInRcFile l f)"
proof -
  have ds: "dropWhile c_isspace (ws @ l @ nl # rest) = l @ nl # rest"
    using assms(1-3) by (cases l) (simp_all add: dropWhile_append_all)
  have "\<forall>c\<in>set l. c \<noteq> cr \<and> c \<noteq> nl"
    using assms(5,6) by auto
  then have tw: "c_str (takeWhile (\<lambda>c. c \<noteq> cr \<and> c \<noteq> nl) (l @ nl # rest)) = l"
    using assms(7) by (simp add: takeWhile_append2)
  have bad: "l = ''--'' \<or> (case l of [] \<Rightarrow> True | c # _ \<Rightarrow> c \<noteq> CHR ''-'')"
    using assms(5-8) by (auto simp: rc_arg_ok_def split: list.splits)
  show ?thesis
    using rc_loop_param [OF ds _ _ tw, of f acc] assms(2,4) bad by (cases l) auto
qed

text \<open>
  C11. Writing an argument vector of options back as an rc file, one argument per
  line, and reading it with \<open>ConvertRCFileToArgv\<close> gives the vector back.
\<close>

theorem ConvertRCFileToArgv_roundtrip:
  assumes "\<forall>a\<in>set args. rc_arg_ok a"
  shows "ConvertRCFileToArgv fname (rc_serialize args) = Inr args"
  using rc_loop_serialize_prefix [of "[]" args fname "[]" "[]"] assms
  by (simp add: ConvertRCFileToArgv_def rc_loop_blank c_lib_simps)

theorem ConvertRCFileToArgv_roundtrip_witness:
  "rc_arg_ok ''-i'' \<and> rc_arg_ok ''--type=cpp'' \<and>
   ConvertRCFileToArgv ''.ucgrc'' (rc_serialize [''-i'', ''--type=cpp'']) = Inr [''-i'', ''--type=cpp'']"
proof -
  have ok: "\<forall>a\<in>set [''-i'', ''--type=cpp'']. rc_arg_ok a"
    by (simp add: rc_arg_ok_def)
  show ?thesis
    using ok ConvertRCFileToArgv_roundtrip [OF ok, of "''.ucgrc''"] by simp
qed

text \<open>
  C12. Every argument read from an rc file is an option (starts with \<open>-\<close>, is not
  \<open>--\<close>) on one line; so reading a file, writing the result back one argument per
  line and reading that again gives the same vector (comments and blank lines drop
  out on the first read).
\<close>

theorem ConvertRCFileToArgv_reparse:
  assumes "ConvertRCFileToArgv fname data = Inr args"
  shows "(\<forall>a\<in>set args. rc_arg_ok a) \<and> ConvertRCFileToArgv fname' (rc_serialize args) = Inr args"
proof -
  have ok: "\<forall>a\<in>set args. rc_arg_ok a"
    using rc_loop_args_ok [of fname data "[]" args] assms by (simp add: ConvertRCFileToArgv_def)
  moreover have "rc_loop fname' (rc_serialize args) [] = Inr args"
    using rc_loop_serialize_prefix [of "[]" args fname' "[]" "[]"] ok by (simp add: rc_loop_blank c_lib_simps)
  ultimately show ?thesis
    by (simp add: ConvertRCFileToArgv_def)
qed

theorem ConvertRCFileToArgv_reparse_witness:
  "ConvertRCFileToArgv ''.ucgrc'' ''# comment\<newline>  -i\<newline>\<newline>--type=cpp\<newline>'' = Inr [''-i'', ''--type=cpp''] \<and>
   ConvertRCFileToArgv ''copy'' (rc_serialize [''-i'', ''--type=cpp'']) = Inr [''-i'', ''--type=cpp'']"
proof -
  have p: "ConvertRCFileToArgv ''.ucgrc'' ''# comment\<newline>  -i\<newline>\<newline>--type=cpp\<newline>'' = Inr [''-i'', ''--type=cpp'']"
    by (simp add: ConvertRCFileToArgv_def rc_loop.simps c_isspace_def c_str_def)
  show ?thesis
    using p ConvertRCFileToArgv_reparse [OF p, of "''copy''"] by simp
qed

text \<open>
  C13. The first line that is not an option, or is \<open>--\<close>, ends the parse with the
  matching \<open>ArgParseException\<close>, whatever comes after it.
\<close>

theorem ConvertRCFileToArgv_bad_line:
  assumes "\<forall>a\<in>set args. rc_arg_ok a" and "l \<noteq> []" and "\<not> c_isspace (hd l)" and "hd l \<noteq> CHR ''#''"
    and "cr \<notin> set l" and "nl \<notin> set l" and "CHR 0x00 \<notin> set l" and "\<not> rc_arg_ok l"
  shows "ConvertRCFileToArgv fname (rc_serialize args @ l @ nl # rest) =
    Inl (if l = ''--'' then DoubleDashInRcFile l fname else NonOptionInRcFile l fname)"
proof -
  let ?ws = "if args = [] then [] else [nl]"
  have "rc_loop fname (rc_serialize args @ l @ nl # rest) [] = rc_loop fname (?ws @ l @ nl # rest) args"
    using rc_loop_serialize_prefix [of "[]" args fname "l @ nl # rest" "[]"] assms(1) by simp
  also have "\<dots> = Inl (if l = ''--'' then DoubleDashInRcFile l fname else NonOptionInRcFile l fname)"
    using assms(2-8) by (intro rc_loop_bad_line) (auto simp: c_lib_simps)
  finally show ?thesis
    by (simp add: ConvertRCFileToArgv_def)
qed

theorem ConvertRCFileToArgv_bad_line_witness:
  "ConvertRCFileToArgv ''.ucgrc'' (rc_serialize [''-i''] @ ''--'' @ nl # ''-w\<newline>'') =
     Inl (DoubleDashInRcFile ''--'' ''.ucgrc'') \<and>
   ConvertRCFileToArgv ''.ucgrc'' (rc_serialize [''-i''] @ ''foo'' @ nl # []) =
     Inl (NonOptionInRcFile ''foo'' ''.ucgrc'')"
proof -
  have ok: "\<forall>a\<in>set [''-i'']. rc_arg_ok a"
    by (simp add: rc_arg_ok_def)
  show ?thesis
    using ConvertRCFileToArgv_bad_line [OF ok, of "''--''" fname "''-w\<newline>''" for fname]
      ConvertRCFileToArgv_bad_line [OF ok, of "''foo''" fname "[]" for fname]
    by (simp_all add: rc_arg_ok_def c_isspace_def)
qed

end
