(* ===== verification/TypeManager.thy ===== *)
theory TypeManager
  imports Prelude
begin

text \<open>
  The file-type registry \<open>TypeManager\<close>, which \<open>ArgParse.cpp\<close> calls while it
  parses the command line. Its sources are not part of \<open>src/\<close>; it is modelled
  from the specification (sections 4.B and 6): types are named lists of filter
  rules, the command line enables and disables them, \<open>--ignore-file\<close>,
  \<open>--exclude\<close> and \<open>--include\<close> add anonymous rules, and \<open>classify\<close>
  decides whether a file is searched. The record \<open>type_manager_ops\<close> is the
  interface \<open>ArgParse\<close> programs against; \<open>tm_ops\<close> implements it.
\<close>

section \<open>The interface used by \<open>ArgParse\<close>\<close>

text \<open>
  The member functions \<open>ArgParse.cpp\<close> calls, over an abstract state \<open>'tm\<close>.
  A \<open>TypeManagerException\<close> is the \<open>Inl\<close> message.
\<close>

record 'tm type_manager_ops =
  tm_type :: "bytes \<Rightarrow> 'tm \<Rightarrow> bool \<times> 'tm"
  tm_notype :: "bytes \<Rightarrow> 'tm \<Rightarrow> bool \<times> 'tm"
  tm_matching :: "bytes \<Rightarrow> 'tm \<Rightarrow> bytes list"
  tm_type_add :: "bool \<Rightarrow> bytes \<Rightarrow> 'tm \<Rightarrow> bytes + 'tm"
  tm_type_del :: "bytes \<Rightarrow> 'tm \<Rightarrow> 'tm"
  tm_add_ignore_file :: "bytes \<Rightarrow> 'tm \<Rightarrow> bytes + 'tm"
  tm_add_include_glob :: "bytes \<Rightarrow> 'tm \<Rightarrow> bytes + 'tm"

section \<open>Filter specs\<close>

datatype filter_rule =
    FExt "bytes list"
  | FIs "bytes list"
  | FGlob bytes
  | FGlobx bytes
  | FFirstLineMatch bytes

text \<open>Split a string at every occurrence of a separator (\<open>''a,,b''\<close> gives three fields).\<close>

definition split_all :: "char \<Rightarrow> bytes \<Rightarrow> bytes list" where
  "split_all c s = foldr (\<lambda>x acc. if x = c then [] # acc else (x # hd acc) # tl acc) s [[]]"

text \<open>Split at the first occurrence of a separator, if there is one.\<close>

definition split_first :: "char \<Rightarrow> bytes \<Rightarrow> (bytes \<times> bytes) option" where
  "split_first c s = (if c \<in> set s then Some (takeWhile (\<lambda>x. x \<noteq> c) s, tl (dropWhile (\<lambda>x. x \<noteq> c) s)) else None)"

text \<open>A filter spec \<open>KIND:ARGS\<close> (section 6); a malformed one is refused.\<close>

definition parse_filter_spec :: "bytes \<Rightarrow> bytes + filter_rule" where
  "parse_filter_spec spec =
     (case split_first CHR '':'' spec of
        None \<Rightarrow> Inl (''Malformed filter spec: '' @ spec)
      | Some (kind, args) \<Rightarrow>
          if kind = ''ext'' then Inr (FExt (split_all CHR '','' args))
          else if kind = ''is'' then Inr (FIs (split_all CHR '','' args))
          else if kind = ''glob'' then Inr (FGlob args)
          else if kind = ''globx'' then Inr (FGlobx args)
          else if kind = ''firstlinematch'' then Inr (FFirstLineMatch args)
          else Inl (''Unknown filter type: '' @ kind))"

section \<open>Glob matching\<close>

text \<open>
  \<open>fnmatch\<close>-style matching with \<open>*\<close> and \<open>?\<close>. With \<open>slash = False\<close>
  (for \<open>globx\<close>, over a relative path) \<open>*\<close> and \<open>?\<close> do not match \<open>/\<close>
  and \<open>**\<close> matches across directories.
\<close>

fun glob_match :: "bool \<Rightarrow> bytes \<Rightarrow> bytes \<Rightarrow> bool" where
  "glob_match slash [] s = (s = [])"
| "glob_match slash (c # p) s =
     (if c = CHR ''*'' then
        (if p \<noteq> [] \<and> hd p = CHR ''*'' then
           list_ex (\<lambda>k. glob_match slash (tl p) (drop k s)) [0..<Suc (length s)]
         else
           list_ex (\<lambda>k. glob_match slash p (drop k s))
             [0..<Suc (length (if slash then s else takeWhile (\<lambda>c. c \<noteq> CHR ''/'') s))])
      else if c = CHR ''?'' then
        (case s of [] \<Rightarrow> False | d # s' \<Rightarrow> (slash \<or> d \<noteq> CHR ''/'') \<and> glob_match slash p s')
      else
        (case s of [] \<Rightarrow> False | d # s' \<Rightarrow> c = d \<and> glob_match slash p s'))"

section \<open>The registry\<close>

text \<open>
  \<open>tm_types\<close>: the named types in definition order; \<open>tm_enabled\<close>: the
  explicit include set, \<open>None\<close> while no type has been enabled (then every known
  type counts); \<open>tm_disabled\<close>: types turned off; \<open>tm_ignore\<close> and
  \<open>tm_include\<close>: the anonymous ignore-file and include types.
\<close>

record type_manager =
  tm_types :: "(bytes \<times> filter_rule list) list"
  tm_enabled :: "bytes list option"
  tm_disabled :: "bytes list"
  tm_ignore :: "filter_rule list"
  tm_include :: "filter_rule list"

definition tm_names :: "type_manager \<Rightarrow> bytes list" where
  "tm_names tm = map fst (tm_types tm)"

definition tm_rules_of :: "type_manager \<Rightarrow> bytes \<Rightarrow> filter_rule list" where
  "tm_rules_of tm name = concat (map snd (filter (\<lambda>t. fst t = name) (tm_types tm)))"

text \<open>A few of the built-in types, enough for the scenarios of the specification.\<close>

definition builtin_types :: "(bytes \<times> filter_rule list) list" where
  "builtin_types =
     [(''cc'', [FExt [''c'', ''h'', ''xs'']]),
      (''cpp'', [FExt [''cpp'', ''cc'', ''cxx'', ''m'', ''hpp'', ''hh'', ''h'', ''hxx'']]),
      (''make'', [FExt [''mk'', ''mak''], FIs [''makefile'', ''Makefile'', ''GNUmakefile'']]),
      (''python'', [FExt [''py''], FFirstLineMatch ''/^#!.*python/'']),
      (''text'', [FExt [''txt'']])]"

definition TypeManager_ctor :: type_manager where
  "TypeManager_ctor =
     \<lparr>tm_types = builtin_types, tm_enabled = None, tm_disabled = [], tm_ignore = [], tm_include = []\<rparr>"

text \<open>\<open>type(name)\<close> and \<open>notype(name)\<close>: false for an unknown type.\<close>

definition tm_enable :: "bytes \<Rightarrow> type_manager \<Rightarrow> bool \<times> type_manager" where
  "tm_enable name tm =
     (if name \<notin> set (tm_names tm) then (False, tm)
      else (True, tm\<lparr>tm_enabled := Some (name # (case tm_enabled tm of None \<Rightarrow> [] | Some l \<Rightarrow> removeAll name l)),
                     tm_disabled := removeAll name (tm_disabled tm)\<rparr>))"

definition tm_disable :: "bytes \<Rightarrow> type_manager \<Rightarrow> bool \<times> type_manager" where
  "tm_disable name tm =
     (if name \<notin> set (tm_names tm) then (False, tm)
      else (True, tm\<lparr>tm_enabled := map_option (removeAll name) (tm_enabled tm),
                     tm_disabled := name # removeAll name (tm_disabled tm)\<rparr>))"

text \<open>\<open>GetMatchingTypenameList\<close>: the exact name if it is one, else every name it prefixes.\<close>

definition tm_resolve_prefix :: "bytes \<Rightarrow> type_manager \<Rightarrow> bytes list" where
  "tm_resolve_prefix partial tm =
     (if partial \<in> set (tm_names tm) then [partial]
      else filter (\<lambda>n. take (length partial) n = partial) (remdups (tm_names tm)))"

text \<open>\<open>delete_type(name)\<close>: idempotent.\<close>

definition tm_delete_type :: "bytes \<Rightarrow> type_manager \<Rightarrow> type_manager" where
  "tm_delete_type name tm = tm\<lparr>tm_types := filter (\<lambda>t. fst t \<noteq> name) (tm_types tm)\<rparr>"

text \<open>
  \<open>TypeAddFromFilterSpecString(delete_old, "NAME:KIND:ARGS")\<close>: a rule appended to
  type \<open>NAME\<close>, which \<open>type-set\<close> (\<open>delete_old\<close>) first deletes.
\<close>

definition tm_add_rule :: "bool \<Rightarrow> bytes \<Rightarrow> type_manager \<Rightarrow> bytes + type_manager" where
  "tm_add_rule delete_old spec tm =
     (case split_first CHR '':'' spec of
        None \<Rightarrow> Inl (''Malformed type spec: '' @ spec)
      | Some (name, fspec) \<Rightarrow>
          if name = [] then Inl (''Malformed type spec: '' @ spec)
          else (case parse_filter_spec fspec of
                  Inl e \<Rightarrow> Inl e
                | Inr r \<Rightarrow>
                    let tm' = (if delete_old then tm_delete_type name tm else tm) in
                    Inr (tm'\<lparr>tm_types := tm_types tm' @ [(name, [r])]\<rparr>)))"

definition tm_add_ignore_rule :: "bytes \<Rightarrow> type_manager \<Rightarrow> bytes + type_manager" where
  "tm_add_ignore_rule spec tm =
     (case parse_filter_spec spec of Inl e \<Rightarrow> Inl e | Inr r \<Rightarrow> Inr (tm\<lparr>tm_ignore := tm_ignore tm @ [r]\<rparr>))"

definition tm_add_include_rule :: "bytes \<Rightarrow> type_manager \<Rightarrow> bytes + type_manager" where
  "tm_add_include_rule spec tm =
     (case parse_filter_spec spec of Inl e \<Rightarrow> Inl e | Inr r \<Rightarrow> Inr (tm\<lparr>tm_include := tm_include tm @ [r]\<rparr>))"

definition tm_ops :: "type_manager type_manager_ops" where
  "tm_ops =
     \<lparr>tm_type = tm_enable, tm_notype = tm_disable, tm_matching = tm_resolve_prefix,
      tm_type_add = tm_add_rule, tm_type_del = tm_delete_type,
      tm_add_ignore_file = tm_add_ignore_rule, tm_add_include_glob = tm_add_include_rule\<rparr>"

section \<open>Classification\<close>

text \<open>The extension of a basename: the bytes after its last \<open>.\<close>, if it has one.\<close>

definition extension :: "bytes \<Rightarrow> bytes option" where
  "extension basename =
     (if CHR ''.'' \<in> set basename then Some (rev (takeWhile (\<lambda>c. c \<noteq> CHR ''.'') (rev basename))) else None)"

text \<open>
  Whether a rule matches a file, given its basename, its path relative to the scan root
  and the regular-expression test the first-line rule applies to the file's first line.
\<close>

definition rule_matches ::
  "(bytes \<Rightarrow> bool) \<Rightarrow> bytes \<Rightarrow> bytes \<Rightarrow> filter_rule \<Rightarrow> bool" where
  "rule_matches first_line_test basename path r =
     (case r of
        FExt l \<Rightarrow> (case extension basename of Some e \<Rightarrow> e \<in> set l | None \<Rightarrow> False)
      | FIs l \<Rightarrow> basename \<in> set l
      | FGlob p \<Rightarrow> glob_match True p basename
      | FGlobx p \<Rightarrow> glob_match False p path
      | FFirstLineMatch re \<Rightarrow> first_line_test re)"

definition tm_active :: "type_manager \<Rightarrow> bytes \<Rightarrow> bool" where
  "tm_active tm name \<longleftrightarrow>
     name \<in> set (tm_names tm) \<and> name \<notin> set (tm_disabled tm) \<and>
     (case tm_enabled tm of None \<Rightarrow> True | Some l \<Rightarrow> name \<in> set l)"

text \<open>\<open>classify\<close> (section 4.B): ignore rules first, then the include type, then the enabled types.\<close>

definition tm_classify :: "type_manager \<Rightarrow> (bytes \<Rightarrow> bool) \<Rightarrow> bytes \<Rightarrow> bytes \<Rightarrow> bool" where
  "tm_classify tm first_line_test basename path \<longleftrightarrow>
     \<not> list_ex (rule_matches first_line_test basename path) (tm_ignore tm) \<and>
     (tm_include tm = [] \<or> list_ex (rule_matches first_line_test basename path) (tm_include tm)) \<and>
     list_ex (\<lambda>(n, rs). tm_active tm n \<and> list_ex (rule_matches first_line_test basename path) rs) (tm_types tm)"

end
