(* ===== verification/ArgParse.thy ===== *)
theory ArgParse
  imports RcFile TypeManager
begin

text \<open>
  The command-line side of \<open>src/src/ArgParse.cpp\<close>: the pre-parser
  \<open>HandleTYPELogic\<close>, which rewrites \<open>--TYPE\<close> and \<open>--noTYPE\<close> and feeds the
  type-definition options to the \<open>TypeManager\<close> before argp runs; the callback
  \<open>parse_opt\<close> with the \<open>ArgParse\<close> fields it sets; and \<open>Parse\<close>, which
  assembles the argument vector from the command line and the rc files, runs both
  and fills in the defaults. The \<open>TypeManager\<close> is the interface
  \<open>type_manager_ops\<close>. GNU argp, which the code only calls, is modelled as the
  contract it keeps with \<open>parse_opt\<close>: \<open>argp_getopt\<close> splits the vector
  into options and arguments, \<open>run_opts\<close> and \<open>run_args\<close> call the
  callback, \<open>argp_parse\<close> puts them in argp's order, and
  \<open>argp_exit_status\<close> gives the status of the exits.
\<close>

section \<open>\<open>HandleTYPELogic\<close>\<close>

text \<open>
  One iteration of the loop of \<open>HandleTYPELogic\<close> (lines 882--1006) on argument
  \<open>arg\<close>: \<open>Inr (Some (arg', tm'))\<close> continues with the argument replaced by
  \<open>arg'\<close>, \<open>Inr None\<close> is the \<open>break\<close> on \<open>--\<close>, \<open>Inl\<close> the
  \<open>ArgParseException\<close>s (an ambiguous \<open>--TYPE\<close>, or a
  \<open>TypeManagerException\<close> caught and rethrown with the option text).
\<close>

definition handle_type_arg ::
  "'tm type_manager_ops \<Rightarrow> bytes \<Rightarrow> 'tm \<Rightarrow> argparse_error + (bytes \<times> 'tm) option" where
  "handle_type_arg ops arg tm =
     (if length arg < 3 \<or> take 2 arg \<noteq> ''--'' then Inr (Some (arg, tm))
      else if arg = ''--'' then Inr None
      else
        let argtxt = drop 2 arg;
            type_name_list = tm_matching ops argtxt tm
        in if length type_name_list = 1 then Inr (Some (''--type='' @ hd type_name_list, tm))
        else if length type_name_list > 1
        then Inl (AmbiguousOption argtxt (map (\<lambda>n. ''--'' @ n) type_name_list))
        else if take 2 argtxt = ''no'' then
          (let no_list = tm_matching ops (drop 2 argtxt) tm in
           if length no_list = 1 then Inr (Some (''--type=no'' @ hd no_list, tm))
           else if length no_list > 1
           then Inl (AmbiguousOption argtxt (map (\<lambda>n. ''--no'' @ n) no_list))
           else Inr (Some (arg, tm)))
        else
          (case split_all CHR ''='' argtxt of
             [cmd, param] \<Rightarrow>
               (case (if cmd = ''type-add'' then tm_type_add ops False param tm
                      else if cmd = ''type-set'' then tm_type_add ops True param tm
                      else if cmd = ''type-del'' then Inr (tm_type_del ops param tm)
                      else if cmd = ''ignore-file'' then tm_add_ignore_file ops param tm
                      else if cmd = ''exclude'' \<or> cmd = ''ignore''
                      then tm_add_ignore_file ops (''globx:'' @ param) tm
                      else if cmd = ''include'' then tm_add_include_glob ops (''glob:'' @ param) tm
                      else Inr tm) of
                  Inl msg \<Rightarrow> Inl (TypeManagerError msg arg)
                | Inr tm' \<Rightarrow> Inr (Some (arg, tm')))
           | _ \<Rightarrow> Inr (Some (arg, tm))))"

text \<open>The loop over the combined vector, rewriting it in place.\<close>

fun HandleTYPELogic ::
  "'tm type_manager_ops \<Rightarrow> bytes list \<Rightarrow> 'tm \<Rightarrow> argparse_error + (bytes list \<times> 'tm)" where
  "HandleTYPELogic ops [] tm = Inr ([], tm)"
| "HandleTYPELogic ops (arg # v) tm =
     (case handle_type_arg ops arg tm of
        Inl e \<Rightarrow> Inl e
      | Inr None \<Rightarrow> Inr (arg # v, tm)
      | Inr (Some (arg', tm')) \<Rightarrow>
          (case HandleTYPELogic ops v tm' of
             Inl e \<Rightarrow> Inl e
           | Inr (v', tm'') \<Rightarrow> Inr (arg' # v', tm'')))"

section \<open>\<open>parse_opt\<close>\<close>

text \<open>
  The keys of the options: the short options, \<open>enum OPT\<close> (lines 113--138), argp's
  special keys, and the keys of argp's own options (\<open>--help\<close>, \<open>--usage\<close>,
  \<open>--version\<close>, and the hidden \<open>--program-name\<close> and \<open>--HANG\<close>), which
  argp's default parsers handle and \<open>parse_opt\<close> never sees.
\<close>

datatype opt_key =
    Key_i | Key_w | Key_Q | Key_r | Key_R | Key_n | Key_k | Key_j
  | OPT_SMART_CASE | OPT_NO_SMART_CASE | OPT_COLOR | OPT_NOCOLOR
  | OPT_IGNORE_DIR | OPT_NOIGNORE_DIR | OPT_IGNORE_FILE | OPT_INCLUDE | OPT_EXCLUDE
  | OPT_TYPE | OPT_NOENV | OPT_TYPE_SET | OPT_TYPE_ADD | OPT_TYPE_DEL
  | OPT_PERF_DIRJOBS | OPT_HELP_TYPES | OPT_COLUMN | OPT_NOCOLUMN
  | OPT_TEST_LOG_ALL | OPT_TEST_NOENV_USER | OPT_TEST_USE_MMAP | OPT_BRACKET_NO_STANDIN
  | ARGP_KEY_ARG | ARGP_KEY_END | ARGP_KEY_OTHER nat
  | ARGP_HELP | ARGP_USAGE | ARGP_VERSION | ARGP_PROGRAM_NAME | ARGP_HANG

text \<open>The fields of \<open>class ArgParse\<close> that \<open>parse_opt\<close> and \<open>Parse\<close> write.\<close>

record 'tm arg_parse =
  m_type_manager :: 'tm
  m_ignore_case :: bool
  m_smart_case :: bool
  m_word_regexp :: bool
  m_pattern_is_literal :: bool
  m_column :: bool
  m_excludes :: "bytes set"
  m_recurse :: bool
  m_jobs :: nat
  m_dirjobs :: nat
  m_color :: bool
  m_nocolor :: bool
  m_use_mmap :: bool
  m_pattern :: bytes
  m_paths :: "bytes list"
  m_test_noenv_user :: bool

text \<open>
  The initial values of the fields (declared in \<open>ArgParse.h\<close>, outside
  \<open>src/\<close>): smart case and recursion on, everything else off or empty, and the
  directory names excluded by default.
\<close>

definition ArgParse_ctor :: "'tm \<Rightarrow> bytes set \<Rightarrow> 'tm arg_parse" where
  "ArgParse_ctor tm default_excludes =
     \<lparr>m_type_manager = tm, m_ignore_case = False, m_smart_case = True, m_word_regexp = False,
      m_pattern_is_literal = False, m_column = False, m_excludes = default_excludes,
      m_recurse = True, m_jobs = 0, m_dirjobs = 0, m_color = False, m_nocolor = False,
      m_use_mmap = False, m_pattern = [], m_paths = [], m_test_noenv_user = False\<rparr>"

text \<open>What \<open>parse_opt\<close> reads of \<open>struct argp_state\<close>.\<close>

record argp_state =
  arg_num :: nat
  current_arg :: bytes

text \<open>
  The outcome of one call: return 0, return 0 after \<open>state->next = state->argc\<close>
  (\<open>--help-types\<close> consumes the rest), \<open>ARGP_ERR_UNKNOWN\<close>, or an exit
  through \<open>argp_failure\<close>, \<open>argp_error\<close> or \<open>argp_usage\<close>.
\<close>

datatype 'tm opt_result =
    OptOk "'tm arg_parse"
  | OptConsumeRest "'tm arg_parse"
  | OptErrUnknown
  | OptExit argparse_error

text \<open>
  \<open>parse_opt\<close> (lines 215--374), one branch per \<open>case\<close> of its \<open>switch\<close>.
  \<open>INFO::Enable\<close> (logging) and \<open>PrintHelpTypes\<close> (output) change no field.
\<close>

definition parse_opt ::
  "'tm type_manager_ops \<Rightarrow> opt_key \<Rightarrow> bytes \<Rightarrow> argp_state \<Rightarrow> 'tm arg_parse \<Rightarrow> 'tm opt_result" where
  "parse_opt ops key arg state a =
     (case key of
        Key_i \<Rightarrow> OptOk (a\<lparr>m_ignore_case := True, m_smart_case := False\<rparr>)
      | OPT_SMART_CASE \<Rightarrow> OptOk (a\<lparr>m_smart_case := True, m_ignore_case := False\<rparr>)
      | OPT_NO_SMART_CASE \<Rightarrow> OptOk (a\<lparr>m_smart_case := False\<rparr>)
      | Key_w \<Rightarrow> OptOk (a\<lparr>m_word_regexp := True\<rparr>)
      | Key_Q \<Rightarrow> OptOk (a\<lparr>m_pattern_is_literal := True\<rparr>)
      | OPT_COLUMN \<Rightarrow> OptOk (a\<lparr>m_column := True\<rparr>)
      | OPT_NOCOLUMN \<Rightarrow> OptOk (a\<lparr>m_column := False\<rparr>)
      | OPT_IGNORE_DIR \<Rightarrow> OptOk (a\<lparr>m_excludes := insert arg (m_excludes a)\<rparr>)
      | OPT_NOIGNORE_DIR \<Rightarrow> OptOk (a\<lparr>m_excludes := m_excludes a - {arg}\<rparr>)
      | OPT_IGNORE_FILE \<Rightarrow> OptOk a
      | OPT_INCLUDE \<Rightarrow> OptOk a
      | OPT_EXCLUDE \<Rightarrow> OptOk a
      | Key_r \<Rightarrow> OptOk (a\<lparr>m_recurse := True\<rparr>)
      | Key_R \<Rightarrow> OptOk (a\<lparr>m_recurse := True\<rparr>)
      | Key_n \<Rightarrow> OptOk (a\<lparr>m_recurse := False\<rparr>)
      | Key_k \<Rightarrow> OptOk a
      | OPT_TYPE \<Rightarrow>
          (if take 2 arg = ''no'' then
             (case tm_notype ops (drop 2 arg) (m_type_manager a) of
                (False, _) \<Rightarrow> OptExit (UnknownType (drop 2 arg))
              | (True, tm') \<Rightarrow> OptOk (a\<lparr>m_type_manager := tm'\<rparr>))
           else
             (case tm_type ops arg (m_type_manager a) of
                (False, _) \<Rightarrow> OptExit (UnknownType arg)
              | (True, tm') \<Rightarrow> OptOk (a\<lparr>m_type_manager := tm'\<rparr>)))
      | OPT_TYPE_SET \<Rightarrow> OptOk a
      | OPT_TYPE_ADD \<Rightarrow> OptOk a
      | OPT_TYPE_DEL \<Rightarrow> OptOk a
      | OPT_NOENV \<Rightarrow> OptOk a
      | OPT_HELP_TYPES \<Rightarrow> OptConsumeRest a
      | Key_j \<Rightarrow>
          (if c_atoi arg < 1 then OptExit JobsMustBePositive else OptOk (a\<lparr>m_jobs := nat (c_atoi arg)\<rparr>))
      | OPT_PERF_DIRJOBS \<Rightarrow>
          (if c_atoi arg < 1 then OptExit JobsMustBePositive else OptOk (a\<lparr>m_dirjobs := nat (c_atoi arg)\<rparr>))
      | OPT_COLOR \<Rightarrow> OptOk (a\<lparr>m_color := True, m_nocolor := False\<rparr>)
      | OPT_NOCOLOR \<Rightarrow> OptOk (a\<lparr>m_color := False, m_nocolor := True\<rparr>)
      | OPT_TEST_LOG_ALL \<Rightarrow> OptOk a
      | OPT_TEST_NOENV_USER \<Rightarrow> OptOk a
      | OPT_TEST_USE_MMAP \<Rightarrow> OptOk (a\<lparr>m_use_mmap := True\<rparr>)
      | ARGP_KEY_ARG \<Rightarrow>
          (if arg_num state = 0 then OptOk (a\<lparr>m_pattern := arg\<rparr>)
           else OptOk (a\<lparr>m_paths := m_paths a @ [arg]\<rparr>))
      | ARGP_KEY_END \<Rightarrow> (if arg_num state < 1 then OptExit Usage else OptOk a)
      | OPT_BRACKET_NO_STANDIN \<Rightarrow> OptExit (UnrecognizedOption (current_arg state))
      | _ \<Rightarrow> OptErrUnknown)"

section \<open>The option table and argp\<close>

text \<open>Whether an option takes an argument (\<open>has_arg\<close> of \<open>struct option\<close> in \<open>getopt.h\<close>).\<close>

datatype has_arg = no_argument | required_argument | optional_argument

text \<open>
  \<open>options[]\<close> (lines 152--207): the long options with their key and whether they
  take an argument; aliases (\<open>OPTION_ALIAS\<close>) carry the key of the option they
  alias. The short options are the entries whose key is a printable character.
\<close>

definition argp_long_options :: "(bytes \<times> opt_key \<times> has_arg) list" where
  "argp_long_options =
     [(''ignore-case'', Key_i, no_argument), (''[no]smart-case'', OPT_BRACKET_NO_STANDIN, no_argument),
      (''smart-case'', OPT_SMART_CASE, no_argument), (''nosmart-case'', OPT_NO_SMART_CASE, no_argument),
      (''no-smart-case'', OPT_NO_SMART_CASE, no_argument), (''word-regexp'', Key_w, no_argument),
      (''literal'', Key_Q, no_argument), (''column'', OPT_COLUMN, no_argument), (''nocolumn'', OPT_NOCOLUMN, no_argument),
      (''color'', OPT_COLOR, no_argument), (''colour'', OPT_COLOR, no_argument),
      (''nocolor'', OPT_NOCOLOR, no_argument), (''nocolour'', OPT_NOCOLOR, no_argument),
      (''[no]ignore-dir'', OPT_BRACKET_NO_STANDIN, required_argument), (''[no]ignore-directory'', OPT_BRACKET_NO_STANDIN, required_argument),
      (''ignore-dir'', OPT_IGNORE_DIR, required_argument), (''ignore-directory'', OPT_IGNORE_DIR, required_argument),
      (''noignore-dir'', OPT_NOIGNORE_DIR, required_argument), (''noignore-directory'', OPT_NOIGNORE_DIR, required_argument),
      (''ignore-file'', OPT_IGNORE_FILE, required_argument), (''include'', OPT_INCLUDE, required_argument),
      (''exclude'', OPT_EXCLUDE, required_argument), (''ignore'', OPT_EXCLUDE, required_argument),
      (''recurse'', Key_r, no_argument), (''no-recurse'', Key_n, no_argument), (''known-types'', Key_k, no_argument),
      (''type'', OPT_TYPE, required_argument), (''type-set'', OPT_TYPE_SET, required_argument), (''type-add'', OPT_TYPE_ADD, required_argument),
      (''type-del'', OPT_TYPE_DEL, required_argument), (''jobs'', Key_j, required_argument), (''dirjobs'', OPT_PERF_DIRJOBS, required_argument),
      (''noenv'', OPT_NOENV, no_argument), (''help-types'', OPT_HELP_TYPES, no_argument),
      (''list-file-types'', OPT_HELP_TYPES, no_argument), (''test-log-all'', OPT_TEST_LOG_ALL, no_argument),
      (''test-noenv-user'', OPT_TEST_NOENV_USER, no_argument), (''test-use-mmap'', OPT_TEST_USE_MMAP, no_argument)]"

definition argp_short_options :: "(char \<times> opt_key \<times> has_arg) list" where
  "argp_short_options =
     [(CHR ''i'', Key_i, no_argument), (CHR ''w'', Key_w, no_argument), (CHR ''Q'', Key_Q, no_argument),
      (CHR ''r'', Key_r, no_argument), (CHR ''R'', Key_R, no_argument), (CHR ''n'', Key_n, no_argument),
      (CHR ''k'', Key_k, no_argument), (CHR ''j'', Key_j, required_argument)]"

text \<open>
  argp's own options, which it adds after the program's: \<open>--help\<close>/\<open>-?\<close>,
  \<open>--usage\<close>, the hidden \<open>--program-name NAME\<close> and \<open>--HANG[=SECS]\<close>, and,
  because \<open>argp_program_version_hook\<close> is set (line 78), \<open>--version\<close>/\<open>-V\<close>.
  They take part in the abbreviation of long options.
\<close>

definition argp_default_long_options :: "(bytes \<times> opt_key \<times> has_arg) list" where
  "argp_default_long_options =
     [(''help'', ARGP_HELP, no_argument), (''usage'', ARGP_USAGE, no_argument),
      (''program-name'', ARGP_PROGRAM_NAME, required_argument), (''HANG'', ARGP_HANG, optional_argument),
      (''version'', ARGP_VERSION, no_argument)]"

definition argp_default_short_options :: "(char \<times> opt_key \<times> has_arg) list" where
  "argp_default_short_options = [(CHR ''?'', ARGP_HELP, no_argument), (CHR ''V'', ARGP_VERSION, no_argument)]"

text \<open>
  How argp (through \<open>getopt_long\<close>, in its default permuting mode) reads the vector
  it is given: options in order, each as its key, argument and text; the arguments
  that are not options (all of them after \<open>--\<close>) collected in order, to be passed
  afterwards as \<open>ARGP_KEY_ARG\<close>. A long option may be abbreviated to a prefix that
  selects one key. \<open>getopt_long\<close> reads one option at a time and argp hands each to
  its parser at once, so an error of \<open>getopt_long\<close> (an unknown or ambiguous option,
  a missing or unexpected argument) ends the reading where it occurs: the result is
  the options before it, the arguments, and the error. Each option carries the
  number of arguments read before it (the first argument of \<open>argp_getopt\<close>).
\<close>

definition long_lookup :: "bytes \<Rightarrow> argparse_error + (opt_key \<times> has_arg)" where
  "long_lookup name =
     (let opts = argp_long_options @ argp_default_long_options in
      case filter (\<lambda>(n, _). n = name) opts of
        (_, kh) # _ \<Rightarrow> Inr kh
      | [] \<Rightarrow>
          (case remdups (map snd (filter (\<lambda>(n, _). take (length name) n = name) opts)) of
             [kh] \<Rightarrow> Inr kh
           | [] \<Rightarrow> Inl (UnrecognizedOption (''--'' @ name))
           | _ \<Rightarrow> Inl (AmbiguousOption name
                   (map (\<lambda>(n, _). ''--'' @ n) (filter (\<lambda>(n, _). take (length name) n = name) opts)))))"

datatype argp_event = ArgpOpt (ev_key: opt_key) (ev_arg: bytes) (ev_text: bytes) (ev_nonopts: nat)

type_synonym getopt_result = "argp_event list \<times> bytes list \<times> argparse_error option"

definition getopt_cons :: "opt_key \<Rightarrow> bytes \<Rightarrow> bytes \<Rightarrow> nat \<Rightarrow> getopt_result \<Rightarrow> getopt_result" where
  "getopt_cons key v tok n r = (case r of (evs, pos, err) \<Rightarrow> (ArgpOpt key v tok n # evs, pos, err))"

definition getopt_fail :: "argparse_error \<Rightarrow> getopt_result" where
  "getopt_fail e = ([], [], Some e)"

function argp_getopt :: "nat \<Rightarrow> bytes list \<Rightarrow> getopt_result" where
  "argp_getopt n [] = ([], [], None)"
| "argp_getopt n (a # rest) =
     (if a = ''--'' then ([], rest, None)
      else if take 2 a = ''--'' then
        (let body = drop 2 a; name = takeWhile (\<lambda>c. c \<noteq> CHR ''='') body;
             inline = (if CHR ''='' \<in> set body then Some (tl (dropWhile (\<lambda>c. c \<noteq> CHR ''='') body)) else None)
         in case long_lookup name of
              Inl e \<Rightarrow> getopt_fail e
            | Inr (key, required_argument) \<Rightarrow>
                (case inline of
                   Some v \<Rightarrow> getopt_cons key v a n (argp_getopt n rest)
                 | None \<Rightarrow> (case rest of
                              [] \<Rightarrow> getopt_fail (MissingArgument a)
                            | v # rest' \<Rightarrow> getopt_cons key v a n (argp_getopt n rest')))
            | Inr (key, optional_argument) \<Rightarrow>
                getopt_cons key (case inline of Some v \<Rightarrow> v | None \<Rightarrow> []) a n (argp_getopt n rest)
            | Inr (key, no_argument) \<Rightarrow>
                if inline \<noteq> None then getopt_fail (UnrecognizedOption a)
                else getopt_cons key [] a n (argp_getopt n rest))
      else if length a \<ge> 2 \<and> hd a = CHR ''-'' then
        (case filter (\<lambda>(c, _). c = a ! 1) (argp_short_options @ argp_default_short_options) of
           [] \<Rightarrow> getopt_fail (UnrecognizedOption a)
         | (_, key, has) # _ \<Rightarrow>
             if has = required_argument then
               (if length a > 2 then getopt_cons key (drop 2 a) a n (argp_getopt n rest)
                else (case rest of
                        [] \<Rightarrow> getopt_fail (MissingArgument a)
                      | v # rest' \<Rightarrow> getopt_cons key v a n (argp_getopt n rest')))
             else if length a > 2 then getopt_cons key [] a n (argp_getopt n ((CHR ''-'' # drop 2 a) # rest))
             else getopt_cons key [] a n (argp_getopt n rest))
      else (case argp_getopt (Suc n) rest of (evs, pos, err) \<Rightarrow> (evs, a # pos, err)))"
  by pat_completeness auto

termination
  by (relation "measure (\<lambda>(n, v). length v + sum_list (map length v))") auto

text \<open>
  \<open>argp_parse\<close> (called at line 444): each option in order (\<open>arg_num\<close> is still
  0, since the arguments come last). argp's own options end the program with status 0
  after printing (\<open>--version\<close> through \<open>argp_program_version_hook\<close>, lines
  74--78, which prints \<open>PrintVersionText\<close>); \<open>--program-name\<close> and
  \<open>--HANG\<close> change nothing the model observes; every other option goes to
  \<open>parse_opt\<close>. \<open>--help-types\<close> sets \<open>state->next = state->argc\<close>
  (line 304), which ends the reading of options; the result then records how many
  arguments preceded it. An \<open>ARGP_ERR_UNKNOWN\<close> for an option is argp's
  "unrecognized option" exit.
\<close>

fun run_opts ::
  "'tm type_manager_ops \<Rightarrow> argp_event list \<Rightarrow> 'tm arg_parse \<Rightarrow> argparse_error + ('tm arg_parse \<times> nat option)" where
  "run_opts ops [] a = Inr (a, None)"
| "run_opts ops (ArgpOpt key v tok k # evs) a =
     (if key = ARGP_HELP \<or> key = ARGP_USAGE \<or> key = ARGP_VERSION then Inl (ArgpExitSuccess tok)
      else if key = ARGP_PROGRAM_NAME \<or> key = ARGP_HANG then run_opts ops evs a
      else
        (case parse_opt ops key v \<lparr>arg_num = 0, current_arg = tok\<rparr> a of
           OptOk a' \<Rightarrow> run_opts ops evs a'
         | OptConsumeRest a' \<Rightarrow> Inr (a', Some k)
         | OptErrUnknown \<Rightarrow> Inl (UnrecognizedOption tok)
         | OptExit e \<Rightarrow> Inl e))"

fun run_args ::
  "'tm type_manager_ops \<Rightarrow> bytes list \<Rightarrow> nat \<Rightarrow> 'tm arg_parse \<Rightarrow> argparse_error + ('tm arg_parse \<times> nat)" where
  "run_args ops [] n a = Inr (a, n)"
| "run_args ops (p # pos) n a =
     (case parse_opt ops ARGP_KEY_ARG p \<lparr>arg_num = n, current_arg = p\<rparr> a of
        OptOk a' \<Rightarrow> run_args ops pos (Suc n) a'
      | OptConsumeRest a' \<Rightarrow> Inr (a', Suc n)
      | OptErrUnknown \<Rightarrow> Inl (UnrecognizedOption p)
      | OptExit e \<Rightarrow> Inl e)"

text \<open>
  The whole parse: the options; then, unless \<open>--help-types\<close> ended the reading,
  the error \<open>getopt_long\<close> stopped at, or else the arguments; then
  \<open>ARGP_KEY_END\<close> with the number of arguments read. When
  \<open>--help-types\<close> ended the reading after \<open>k\<close> arguments, the next call
  of \<open>getopt_long\<close> starts at \<open>argc\<close>, moves the \<open>k\<close> arguments it
  skipped behind the options and returns -1 with \<open>optind\<close> at the first of them
  (glibc \<open>_getopt_internal_r\<close> in permuting mode), so argp still passes those
  \<open>k\<close> arguments, and only those, as \<open>ARGP_KEY_ARG\<close>.
\<close>

definition argp_parse ::
  "'tm type_manager_ops \<Rightarrow> bytes list \<Rightarrow> 'tm arg_parse \<Rightarrow> argparse_error + 'tm arg_parse" where
  "argp_parse ops argv a =
     (case argp_getopt 0 (tl argv) of
        (evs, pos, err) \<Rightarrow>
          (case run_opts ops evs a of
             Inl e \<Rightarrow> Inl e
           | Inr (a1, stop) \<Rightarrow>
               (case (case stop of
                        Some k \<Rightarrow> run_args ops (take k pos) 0 a1
                      | None \<Rightarrow> (case err of Some e \<Rightarrow> Inl e | None \<Rightarrow> run_args ops pos 0 a1)) of
                  Inl e \<Rightarrow> Inl e
                | Inr (a2, n) \<Rightarrow>
                    (case parse_opt ops ARGP_KEY_END [] \<lparr>arg_num = n, current_arg = []\<rparr> a2 of
                       OptExit e \<Rightarrow> Inl e
                     | OptOk a3 \<Rightarrow> Inr a3
                     | _ \<Rightarrow> Inr a2))))"

text \<open>
  The exit status of a parse that ends the program: 0 after \<open>--help\<close>,
  \<open>--usage\<close> or \<open>--version\<close>; \<open>STATUS_EX_USAGE\<close> = 255 for
  \<open>argp_failure\<close> (lines 282--322) and \<open>argp_err_exit_status\<close> = 255 for
  \<open>argp_error\<close>, \<open>argp_usage\<close> and the errors of \<open>getopt_long\<close> (lines 140--145).
\<close>

definition argp_err_exit_status :: int where
  "argp_err_exit_status = 255"

definition argp_exit_status :: "argparse_error \<Rightarrow> int" where
  "argp_exit_status e = (case e of ArgpExitSuccess _ \<Rightarrow> 0 | _ \<Rightarrow> argp_err_exit_status)"

text \<open>
  What the case options do to the pair (\<open>m_ignore_case\<close>, \<open>m_smart_case\<close>):
  \<open>-i\<close> sets ignore-case and clears smart-case, \<open>--smart-case\<close> the reverse,
  \<open>--no-smart-case\<close> clears smart-case only.
\<close>

definition case_step :: "opt_key \<Rightarrow> bool \<times> bool \<Rightarrow> bool \<times> bool" where
  "case_step k f =
     (case k of Key_i \<Rightarrow> (True, False) | OPT_SMART_CASE \<Rightarrow> (False, True)
      | OPT_NO_SMART_CASE \<Rightarrow> (fst f, False) | _ \<Rightarrow> f)"

definition case_flags :: "argp_event list \<Rightarrow> bool \<times> bool \<Rightarrow> bool \<times> bool" where
  "case_flags evs f = foldl (\<lambda>f ev. case_step (ev_key ev) f) f evs"

section \<open>\<open>Parse\<close>\<close>

text \<open>
  The environment \<open>Parse\<close> reads: \<open>$HOME\<close>, the password database's home
  directory, the project rc file name \<open>GetProjectRCFilename\<close> returns (empty if
  none), what opening each file name gives, and
  \<open>std::thread::hardware_concurrency()\<close>.
\<close>

record parse_env =
  env_home :: "bytes option"
  env_pw_dir :: "bytes option"
  env_project_rc :: bytes
  env_files :: "bytes \<Rightarrow> file_open"
  env_hardware_concurrency :: nat

text \<open>
  Lines 404--436: \<open>--noenv\<close> and \<open>--test-noenv-user\<close> are looked for on the
  command line before the first \<open>--\<close>; unless \<open>--noenv\<close> was found the rc files
  are read, and the combined vector is \<open>argv[0]\<close>, the user rc arguments, the
  project rc arguments, then \<open>argv[1..]\<close>. \<open>argc \<ge> 1\<close>.
\<close>

definition Parse_combine ::
  "parse_env \<Rightarrow> bytes list \<Rightarrow> 'tm arg_parse \<Rightarrow> argparse_error + (bytes list \<times> 'tm arg_parse)" where
  "Parse_combine env argv a =
     (let one_past_end_or_double_dash = takeWhile (\<lambda>s. s \<noteq> ''--'') argv;
          noenv = count_list one_past_end_or_double_dash ''--noenv'';
          noenv_user = count_list one_past_end_or_double_dash ''--test-noenv-user'';
          a1 = (if noenv_user \<noteq> 0 then a\<lparr>m_test_noenv_user := True\<rparr> else a)
      in case (if noenv = 0
               then FindAndParseConfigFiles (m_test_noenv_user a1)
                      (GetUserHomeDir (env_home env) (env_pw_dir env)) (env_project_rc env) (env_files env)
               else Inr ([], [])) of
           Inl e \<Rightarrow> Inl e
         | Inr (user_argv, project_argv) \<Rightarrow>
             Inr (hd argv # (if noenv = 0 then user_argv @ project_argv else []) @ tl argv, a1))"

text \<open>
  Lines 446--491: the defaults set after argp has run. Jobs default to the hardware
  concurrency, or 1 when that is reported as 0; directory jobs to
  \<open>f_default_dirjobs = 2\<close>; paths to \<open>.\<close>; and with smart case on and
  \<open>-i\<close> off, case is ignored when the pattern has no upper-case letter.
\<close>

definition Parse_defaults :: "nat \<Rightarrow> 'tm arg_parse \<Rightarrow> 'tm arg_parse" where
  "Parse_defaults hw a =
     (let a1 = (if m_jobs a = 0 then a\<lparr>m_jobs := (if hw = 0 then 1 else hw)\<rparr> else a);
          a2 = (if m_dirjobs a1 = 0 then a1\<lparr>m_dirjobs := 2\<rparr> else a1);
          a3 = (if m_paths a2 = [] then a2\<lparr>m_paths := [''.'']\<rparr> else a2)
      in if m_smart_case a3 \<and> \<not> m_ignore_case a3 \<and> \<not> list_ex c_isupper (m_pattern a3)
         then a3\<lparr>m_ignore_case := True\<rparr> else a3)"

definition Parse ::
  "'tm type_manager_ops \<Rightarrow> parse_env \<Rightarrow> bytes list \<Rightarrow> 'tm arg_parse \<Rightarrow> argparse_error + 'tm arg_parse" where
  "Parse ops env argv a =
     (case Parse_combine env argv a of
        Inl e \<Rightarrow> Inl e
      | Inr (combined_argv, a1) \<Rightarrow>
          (case HandleTYPELogic ops combined_argv (m_type_manager a1) of
             Inl e \<Rightarrow> Inl e
           | Inr (combined_argv', tm) \<Rightarrow>
               (case argp_parse ops combined_argv' (a1\<lparr>m_type_manager := tm\<rparr>) of
                  Inl e \<Rightarrow> Inl e
                | Inr a2 \<Rightarrow> Inr (Parse_defaults (env_hardware_concurrency env) a2))))"

section \<open>Example environments\<close>

text \<open>An environment with no rc files, and one with a user and a project rc file.\<close>

definition env_no_rc :: parse_env where
  "env_no_rc = \<lparr>env_home = None, env_pw_dir = None, env_project_rc = [], env_files = (\<lambda>_. FileMissing),
     env_hardware_concurrency = 4\<rparr>"

definition env_rc :: parse_env where
  "env_rc = \<lparr>env_home = Some ''/h'', env_pw_dir = None, env_project_rc = ''/p/.ucgrc'',
     env_files = (\<lambda>f. if f = ''/h/.ucgrc'' then FileContents ''-i\<newline>''
                      else if f = ''/p/.ucgrc'' then FileContents ''# c\<newline>--type=cpp\<newline>'' else FileMissing),
     env_hardware_concurrency = 0\<rparr>"

text \<open>A type manager in which the user has defined a type \<open>noodle\<close>.\<close>

definition tm_noodle :: type_manager where
  "tm_noodle = TypeManager_ctor\<lparr>tm_types := builtin_types @ [(''noodle'', [FExt [''nd'']])]\<rparr>"

section \<open>Properties\<close>

lemma handle_type_arg_no_break: "handle_type_arg ops arg tm \<noteq> Inr None"
  by (auto simp: handle_type_arg_def Let_def split: list.splits sum.splits)

lemma handle_type_arg_double_dash: "handle_type_arg ops ''--'' tm = Inr (Some (''--'', tm))"
  by (simp add: handle_type_arg_def)

lemma HandleTYPELogic_append:
  "HandleTYPELogic ops (v1 @ v2) tm =
     (case HandleTYPELogic ops v1 tm of
        Inl e \<Rightarrow> Inl e
      | Inr (v1', tm1) \<Rightarrow>
          (case HandleTYPELogic ops v2 tm1 of Inl e \<Rightarrow> Inl e | Inr (v2', tm2) \<Rightarrow> Inr (v1' @ v2', tm2)))"
proof (induction v1 arbitrary: tm)
  case Nil
  then show ?case by (simp split: sum.splits)
next
  case (Cons arg v1)
  show ?case
  proof (cases "handle_type_arg ops arg tm")
    case (Inl e)
    then show ?thesis by simp
  next
    case (Inr r)
    then obtain arg' tm' where r: "r = Some (arg', tm')"
      using handle_type_arg_no_break [of ops arg tm] by (cases r) auto
    show ?thesis
      using Inr r Cons.IH [of tm'] by (simp split: sum.splits prod.splits)
  qed
qed

lemma parse_opt_case_fields:
  "parse_opt ops k v st a = OptOk a' \<Longrightarrow>
     (m_ignore_case a', m_smart_case a') = case_step k (m_ignore_case a, m_smart_case a)"
  by (cases k) (auto simp: parse_opt_def case_step_def split: if_splits prod.splits bool.splits)

lemma run_opts_case_flags:
  "run_opts ops evs a = Inr (a', None) \<Longrightarrow>
     (m_ignore_case a', m_smart_case a') = case_flags evs (m_ignore_case a, m_smart_case a)"
proof (induction ops evs a rule: run_opts.induct)
  case (1 ops a)
  then show ?case by (simp add: case_flags_def)
next
  case (2 ops key v tok k evs a)
  show ?case
  proof (cases "key = ARGP_PROGRAM_NAME \<or> key = ARGP_HANG")
    case True
    then show ?thesis
      using 2 by (auto simp: case_flags_def case_step_def)
  next
    case False
    then show ?thesis
      using 2 parse_opt_case_fields [of ops key v _ a]
      by (auto simp: case_flags_def split: opt_result.splits if_splits)
  qed
qed

lemma run_args_fields:
  "run_args ops pos n a = Inr (a', n') \<Longrightarrow>
     m_ignore_case a' = m_ignore_case a \<and> m_smart_case a' = m_smart_case a \<and>
     m_pattern a' = (if n = 0 \<and> pos \<noteq> [] then hd pos else m_pattern a) \<and> n' = n + length pos"
proof (induction ops pos n a rule: run_args.induct)
  case (1 ops n a)
  then show ?case by simp
next
  case (2 ops p pos n a)
  then show ?case
    by (auto simp: parse_opt_def split: if_splits)
qed

lemma argp_parse_fields:
  assumes "argp_parse ops argv a = Inr a'" and "argp_getopt 0 (tl argv) = (evs, pos, err)"
    and "list_all (\<lambda>ev. ev_key ev \<noteq> OPT_HELP_TYPES) evs"
  shows "(m_ignore_case a', m_smart_case a') = case_flags evs (m_ignore_case a, m_smart_case a) \<and>
    pos \<noteq> [] \<and> m_pattern a' = hd pos"
proof -
  obtain a1 c where ro: "run_opts ops evs a = Inr (a1, c)"
    using assms(1,2) by (auto simp: argp_parse_def split: sum.splits)
  have "c = None"
    using ro assms(3)
    by (induction ops evs a arbitrary: a1 rule: run_opts.induct)
       (auto simp: parse_opt_def split: opt_result.splits opt_key.splits if_splits prod.splits bool.splits)
  then obtain a2 n where ra: "run_args ops pos 0 a1 = Inr (a2, n)"
    and fin: "parse_opt ops ARGP_KEY_END [] \<lparr>arg_num = n, current_arg = []\<rparr> a2 = OptOk a'"
    using assms(1,2) ro by (auto simp: argp_parse_def parse_opt_def split: sum.splits if_splits option.splits)
  have "1 \<le> n" and "a' = a2"
    using fin by (auto simp: parse_opt_def split: if_splits)
  then show ?thesis
    using run_opts_case_flags [of ops evs a a1] ro \<open>c = None\<close> run_args_fields [OF ra] by auto
qed

lemma Parse_combine_fields:
  "Parse_combine env argv a = Inr (comb, a1) \<Longrightarrow>
     m_ignore_case a1 = m_ignore_case a \<and> m_smart_case a1 = m_smart_case a"
  by (auto simp: Parse_combine_def Let_def split: if_splits sum.splits prod.splits)

lemma Parse_defaults_ignore_case:
  "m_ignore_case (Parse_defaults hw a) =
     (m_ignore_case a \<or> (m_smart_case a \<and> \<not> list_ex c_isupper (m_pattern a)))"
  by (auto simp: Parse_defaults_def Let_def)

lemmas getopt_eval = long_lookup_def argp_long_options_def argp_short_options_def
  argp_default_long_options_def argp_default_short_options_def getopt_cons_def getopt_fail_def

lemmas parse_eval = Parse_def Parse_combine_def FindAndParseConfigFiles_def GetUserHomeDir_def
  handle_type_arg_def tm_ops_def tm_resolve_prefix_def tm_names_def TypeManager_ctor_def builtin_types_def
  argp_parse_def getopt_eval parse_opt_def
  tm_enable_def tm_disable_def Parse_defaults_def ArgParse_ctor_def c_isupper_def split_all_def

lemma distinct_set_singleton:
  "distinct ys \<Longrightarrow> set ys = {x} \<Longrightarrow> ys = [x]"
proof -
  assume d: "distinct ys" and s: "set ys = {x}"
  then have "length ys = 1"
    using distinct_card [of ys] by simp
  then obtain y where "ys = [y]"
    by (auto simp: length_Suc_conv)
  then show "ys = [x]"
    using s by simp
qed

lemma tm_resolve_prefix_unique:
  assumes "n \<in> set (tm_names tm)" and "take (length t) n = t"
    and uniq: "\<And>m. m \<in> set (tm_names tm) \<Longrightarrow> take (length t) m = t \<Longrightarrow> m = n"
  shows "tm_resolve_prefix t tm = [n]"
proof (cases "t \<in> set (tm_names tm)")
  case True
  then have "t = n"
    using uniq [of t] by simp
  then show ?thesis using True by (simp add: tm_resolve_prefix_def)
next
  case False
  have "set (filter (\<lambda>m. take (length t) m = t) (remdups (tm_names tm))) = {n}"
  proof
    show "set (filter (\<lambda>m. take (length t) m = t) (remdups (tm_names tm))) \<subseteq> {n}"
    proof
      fix m
      assume "m \<in> set (filter (\<lambda>m. take (length t) m = t) (remdups (tm_names tm)))"
      then have "m \<in> set (tm_names tm)" and "take (length t) m = t"
        by simp_all
      then show "m \<in> {n}"
        using uniq by blast
    qed
    show "{n} \<subseteq> set (filter (\<lambda>m. take (length t) m = t) (remdups (tm_names tm)))"
      using assms(1,2) by simp
  qed
  then show ?thesis
    using False distinct_set_singleton [of "filter (\<lambda>m. take (length t) m = t) (remdups (tm_names tm))" n]
    by (simp add: tm_resolve_prefix_def)
qed

lemma Parse_defaults_bounds_aux:
  "1 \<le> m_jobs (Parse_defaults hw a) \<and> 1 \<le> m_dirjobs (Parse_defaults hw a) \<and> m_paths (Parse_defaults hw a) \<noteq> []"
  by (simp add: Parse_defaults_def Let_def)

lemma Parse_double_dash_pattern_rewritten:
  "\<exists>a. Parse tm_ops env_no_rc [''ucg'', ''--'', ''--cp''] (ArgParse_ctor TypeManager_ctor {}) = Inr a \<and>
     m_pattern a = ''--type=cpp''"
  by (simp add: parse_eval env_no_rc_def)

text \<open>
  C14. Smart case, as \<open>Parse\<close> leaves it: the pattern is the first argument
  that is not an option, and case is ignored exactly when the last of \<open>-i\<close> and
  \<open>--smart-case\<close> was \<open>-i\<close>, or smart case is still on (not cleared by
  \<open>-i\<close> or \<open>--no-smart-case\<close>) and the pattern has no upper-case letter;
  \<open>--no-smart-case\<close> leaves an earlier \<open>-i\<close> in force.
\<close>

theorem Parse_smart_case:
  assumes "Parse ops env argv a0 = Inr a"
    and "Parse_combine env argv a0 = Inr (comb, a1)"
    and "HandleTYPELogic ops comb (m_type_manager a1) = Inr (comb', tm)"
    and "argp_getopt 0 (tl comb') = (evs, pos, err)"
    and "list_all (\<lambda>ev. ev_key ev \<noteq> OPT_HELP_TYPES) evs"
  shows "m_pattern a = hd pos \<and>
    m_ignore_case a = (let (ic, sc) = case_flags evs (m_ignore_case a0, m_smart_case a0)
                       in ic \<or> (sc \<and> \<not> list_ex c_isupper (hd pos)))"
proof -
  obtain a2 where ap: "argp_parse ops comb' (a1\<lparr>m_type_manager := tm\<rparr>) = Inr a2"
    and a: "a = Parse_defaults (env_hardware_concurrency env) a2"
    using assms(1-3) by (auto simp: Parse_def split: sum.splits)
  have f: "(m_ignore_case a2, m_smart_case a2) = case_flags evs (m_ignore_case a0, m_smart_case a0)"
    and p: "m_pattern a2 = hd pos"
    using argp_parse_fields [OF ap assms(4,5)] Parse_combine_fields [OF assms(2)] by auto
  have "m_pattern a = m_pattern a2"
    unfolding a by (simp add: Parse_defaults_def Let_def)
  then show ?thesis
    using p unfolding a Parse_defaults_ignore_case f [symmetric] by simp
qed

theorem Parse_smart_case_witness:
  "(\<exists>a. Parse tm_ops env_no_rc [''ucg'', ''Foo''] (ArgParse_ctor TypeManager_ctor {}) = Inr a \<and>
        \<not> m_ignore_case a) \<and>
   (\<exists>a. Parse tm_ops env_no_rc [''ucg'', ''foo''] (ArgParse_ctor TypeManager_ctor {}) = Inr a \<and>
        m_ignore_case a) \<and>
   (\<exists>a. Parse tm_ops env_no_rc [''ucg'', ''-i'', ''--no-smart-case'', ''Foo''] (ArgParse_ctor TypeManager_ctor {}) = Inr a \<and>
        m_ignore_case a)"
proof (intro conjI)
  show "\<exists>a. Parse tm_ops env_no_rc [''ucg'', ''Foo''] (ArgParse_ctor TypeManager_ctor {}) = Inr a \<and> \<not> m_ignore_case a"
  proof -
    obtain a where pa: "Parse tm_ops env_no_rc [''ucg'', ''Foo''] (ArgParse_ctor TypeManager_ctor {}) = Inr a"
      by (simp add: parse_eval env_no_rc_def)
    have c: "Parse_combine env_no_rc [''ucg'', ''Foo''] (ArgParse_ctor TypeManager_ctor {}) =
        Inr ([''ucg'', ''Foo''], ArgParse_ctor TypeManager_ctor {})"
      by (simp add: Parse_combine_def env_no_rc_def FindAndParseConfigFiles_def GetUserHomeDir_def)
    have h: "HandleTYPELogic tm_ops [''ucg'', ''Foo''] (m_type_manager (ArgParse_ctor TypeManager_ctor {})) =
        Inr ([''ucg'', ''Foo''], TypeManager_ctor)"
      by (simp add: parse_eval)
    have g: "argp_getopt 0 (tl [''ucg'', ''Foo'']) = ([], [''Foo''], None)"
      by (simp add: getopt_eval)
    show ?thesis
      using pa Parse_smart_case [OF pa c h g]
      by (simp add: ArgParse_ctor_def case_flags_def case_step_def c_isupper_def)
  qed
next
  show "\<exists>a. Parse tm_ops env_no_rc [''ucg'', ''foo''] (ArgParse_ctor TypeManager_ctor {}) = Inr a \<and> m_ignore_case a"
  proof -
    obtain a where pa: "Parse tm_ops env_no_rc [''ucg'', ''foo''] (ArgParse_ctor TypeManager_ctor {}) = Inr a"
      by (simp add: parse_eval env_no_rc_def)
    have c: "Parse_combine env_no_rc [''ucg'', ''foo''] (ArgParse_ctor TypeManager_ctor {}) =
        Inr ([''ucg'', ''foo''], ArgParse_ctor TypeManager_ctor {})"
      by (simp add: Parse_combine_def env_no_rc_def FindAndParseConfigFiles_def GetUserHomeDir_def)
    have h: "HandleTYPELogic tm_ops [''ucg'', ''foo''] (m_type_manager (ArgParse_ctor TypeManager_ctor {})) =
        Inr ([''ucg'', ''foo''], TypeManager_ctor)"
      by (simp add: parse_eval)
    have g: "argp_getopt 0 (tl [''ucg'', ''foo'']) = ([], [''foo''], None)"
      by (simp add: getopt_eval)
    show ?thesis
      using pa Parse_smart_case [OF pa c h g]
      by (simp add: ArgParse_ctor_def case_flags_def case_step_def c_isupper_def)
  qed
next
  show "\<exists>a. Parse tm_ops env_no_rc [''ucg'', ''-i'', ''--no-smart-case'', ''Foo''] (ArgParse_ctor TypeManager_ctor {}) = Inr a \<and> m_ignore_case a"
  proof -
    obtain a where pa: "Parse tm_ops env_no_rc [''ucg'', ''-i'', ''--no-smart-case'', ''Foo''] (ArgParse_ctor TypeManager_ctor {}) = Inr a"
      by (simp add: parse_eval env_no_rc_def)
    have c: "Parse_combine env_no_rc [''ucg'', ''-i'', ''--no-smart-case'', ''Foo''] (ArgParse_ctor TypeManager_ctor {}) =
        Inr ([''ucg'', ''-i'', ''--no-smart-case'', ''Foo''], ArgParse_ctor TypeManager_ctor {})"
      by (simp add: Parse_combine_def env_no_rc_def FindAndParseConfigFiles_def GetUserHomeDir_def)
    have h: "HandleTYPELogic tm_ops [''ucg'', ''-i'', ''--no-smart-case'', ''Foo''] (m_type_manager (ArgParse_ctor TypeManager_ctor {})) =
        Inr ([''ucg'', ''-i'', ''--no-smart-case'', ''Foo''], TypeManager_ctor)"
      by (simp add: parse_eval)
    have g: "argp_getopt 0 (tl [''ucg'', ''-i'', ''--no-smart-case'', ''Foo'']) = ([ArgpOpt Key_i [] ''-i'' 0, ArgpOpt OPT_NO_SMART_CASE [] ''--no-smart-case'' 0], [''Foo''], None)"
      by (simp add: getopt_eval)
    show ?thesis
      using pa Parse_smart_case [OF pa c h g]
      by (simp add: ArgParse_ctor_def case_flags_def case_step_def c_isupper_def)
  qed
qed

text \<open>
  C15. The vector \<open>Parse\<close> hands to \<open>HandleTYPELogic\<close> and argp is
  \<open>argv[0]\<close>, the user rc arguments, the project rc arguments, then the command line;
  every rc argument is an option; a \<open>--noenv\<close> before the first \<open>--\<close> leaves
  the command line alone.
\<close>

theorem Parse_combine_rc_args:
  assumes "Parse_combine env argv a = Inr (comb, a1)" and "argv \<noteq> []"
  shows "if ''--noenv'' \<in> set (takeWhile (\<lambda>s. s \<noteq> ''--'') argv) then comb = argv
    else (\<exists>user_argv project_argv.
            FindAndParseConfigFiles (m_test_noenv_user a1) (GetUserHomeDir (env_home env) (env_pw_dir env))
              (env_project_rc env) (env_files env) = Inr (user_argv, project_argv) \<and>
            comb = hd argv # user_argv @ project_argv @ tl argv \<and>
            (\<forall>x\<in>set (user_argv @ project_argv). rc_arg_ok x))"
proof (cases "''--noenv'' \<in> set (takeWhile (\<lambda>s. s \<noteq> ''--'') argv)")
  case True
  then show ?thesis
    using assms by (auto simp: Parse_combine_def Let_def count_list_0_iff split: if_splits)
next
  case False
  then obtain u p where f: "FindAndParseConfigFiles (m_test_noenv_user a1) (GetUserHomeDir (env_home env) (env_pw_dir env))
      (env_project_rc env) (env_files env) = Inr (u, p)" and c: "comb = hd argv # u @ p @ tl argv"
    using assms(1) by (auto simp: Parse_combine_def Let_def count_list_0_iff split: if_splits sum.splits)
  then show ?thesis
    using False FindAndParseConfigFiles_ok [OF f] by auto
qed

theorem Parse_combine_rc_args_witness:
  "Parse_combine env_rc [''ucg'', ''foo''] (ArgParse_ctor TypeManager_ctor {}) =
     Inr ([''ucg'', ''-i'', ''--type=cpp'', ''foo''], ArgParse_ctor TypeManager_ctor {}) \<and>
   (\<exists>u p. FindAndParseConfigFiles False ''/h'' ''/p/.ucgrc'' (env_files env_rc) = Inr (u, p) \<and>
      [''ucg'', ''-i'', ''--type=cpp'', ''foo''] = ''ucg'' # u @ p @ [''foo''])"
proof -
  have pc: "Parse_combine env_rc [''ucg'', ''foo''] (ArgParse_ctor TypeManager_ctor {}) =
     Inr ([''ucg'', ''-i'', ''--type=cpp'', ''foo''], ArgParse_ctor TypeManager_ctor {})"
    by (simp add: Parse_combine_def env_rc_def FindAndParseConfigFiles_def GetUserHomeDir_def Let_def
        ArgParse_ctor_def read_rc_file_def ConvertRCFileToArgv_def rc_loop.simps c_isspace_def c_str_def)
  show ?thesis
    using pc Parse_combine_rc_args [OF pc]
    by (simp add: env_rc_def GetUserHomeDir_def ArgParse_ctor_def, blast)
qed

text \<open>
  C16. \<open>--TYPE\<close> for a prefix of exactly one type name (or the name itself) is
  rewritten to \<open>--type=NAME\<close>, argp reads that as the \<open>--type\<close> option with
  argument \<open>NAME\<close>, and \<open>parse_opt\<close> then enables the type.
\<close>

theorem handle_type_arg_unique_prefix:
  assumes "n \<in> set (tm_names tm)" and "t \<noteq> []" and "take (length t) n = t"
    and "\<forall>m\<in>set (tm_names tm). take (length t) m = t \<longrightarrow> m = n" and "take 2 n \<noteq> ''no''"
  shows "handle_type_arg tm_ops (''--'' @ t) tm = Inr (Some (''--type='' @ n, tm)) \<and>
    argp_getopt 0 [''--type='' @ n] = ([ArgpOpt OPT_TYPE n (''--type='' @ n) 0], [], None) \<and>
    parse_opt tm_ops OPT_TYPE n st (a\<lparr>m_type_manager := tm\<rparr>) =
      OptOk (a\<lparr>m_type_manager := snd (tm_enable n tm)\<rparr>) \<and>
    tm_active (snd (tm_enable n tm)) n"
proof (intro conjI)
  have r: "tm_resolve_prefix t tm = [n]"
    using tm_resolve_prefix_unique [of n tm t] assms(1,3,4) by blast
  have "3 \<le> length (''--'' @ t)"
    using assms(2) by (cases t) auto
  then show "handle_type_arg tm_ops (''--'' @ t) tm = Inr (Some (''--type='' @ n, tm))"
    using r assms(2) by (simp add: handle_type_arg_def tm_ops_def)
  show "argp_getopt 0 [''--type='' @ n] = ([ArgpOpt OPT_TYPE n (''--type='' @ n) 0], [], None)"
    by (simp add: getopt_eval)
  show "parse_opt tm_ops OPT_TYPE n st (a\<lparr>m_type_manager := tm\<rparr>) =
      OptOk (a\<lparr>m_type_manager := snd (tm_enable n tm)\<rparr>)"
    using assms(1,5) by (simp add: parse_opt_def tm_ops_def tm_enable_def)
  show "tm_active (snd (tm_enable n tm)) n"
    using assms(1) by (simp add: tm_active_def tm_enable_def tm_names_def)
qed

theorem handle_type_arg_unique_prefix_witness:
  "handle_type_arg tm_ops ''--cp'' TypeManager_ctor = Inr (Some (''--type=cpp'', TypeManager_ctor)) \<and>
   tm_active (snd (tm_enable ''cpp'' TypeManager_ctor)) ''cpp''"
proof -
  have n: "''cpp'' \<in> set (tm_names TypeManager_ctor)"
    and u: "\<forall>m\<in>set (tm_names TypeManager_ctor). take (length ''cp'') m = ''cp'' \<longrightarrow> m = ''cpp''"
    by (simp_all add: tm_names_def TypeManager_ctor_def builtin_types_def)
  have "handle_type_arg tm_ops (''--'' @ ''cp'') TypeManager_ctor = Inr (Some (''--type='' @ ''cpp'', TypeManager_ctor)) \<and>
      tm_active (snd (tm_enable ''cpp'' TypeManager_ctor)) ''cpp''"
    using handle_type_arg_unique_prefix [OF n _ _ u, of st a] by simp
  then show ?thesis by simp
qed

text \<open>
  C17. \<open>--TYPE\<close> for a prefix of two or more type names that is not itself a
  type name makes \<open>HandleTYPELogic\<close> throw the ambiguity error listing the candidates.
\<close>

theorem handle_type_arg_ambiguous:
  assumes "t \<notin> set (tm_names tm)" and "m1 \<in> set (tm_names tm)" and "m2 \<in> set (tm_names tm)"
    and "m1 \<noteq> m2" and "take (length t) m1 = t" and "take (length t) m2 = t" and "t \<noteq> []"
  shows "HandleTYPELogic tm_ops ((''--'' @ t) # v) tm =
    Inl (AmbiguousOption t (map (\<lambda>n. ''--'' @ n) (tm_resolve_prefix t tm)))"
proof -
  have "{m1, m2} \<subseteq> set (tm_resolve_prefix t tm)"
    using assms by (auto simp: tm_resolve_prefix_def)
  then have "card {m1, m2} \<le> length (tm_resolve_prefix t tm)"
    by (metis card_length card_mono List.finite_set order_trans)
  then have "1 < length (tm_resolve_prefix t tm)"
    using assms(4) by simp
  moreover have "3 \<le> length (''--'' @ t)"
    using assms(7) by (cases t) auto
  ultimately show ?thesis
    using assms(7) by (simp add: handle_type_arg_def tm_ops_def)
qed

theorem handle_type_arg_ambiguous_witness:
  "HandleTYPELogic tm_ops [''--c'', ''foo''] TypeManager_ctor = Inl (AmbiguousOption ''c'' [''--cc'', ''--cpp''])"
proof -
  have h: "''c'' \<notin> set (tm_names TypeManager_ctor)" "''cc'' \<in> set (tm_names TypeManager_ctor)"
    "''cpp'' \<in> set (tm_names TypeManager_ctor)"
    by (simp_all add: tm_names_def TypeManager_ctor_def builtin_types_def)
  have r: "tm_resolve_prefix ''c'' TypeManager_ctor = [''cc'', ''cpp'']"
    by (simp add: tm_names_def TypeManager_ctor_def builtin_types_def tm_resolve_prefix_def)
  show ?thesis
    using handle_type_arg_ambiguous [OF h, of "[''foo'']"] r by simp
qed

text \<open>
  C18. \<open>HandleTYPELogic\<close> does not stop at \<open>--\<close>: the test for
  \<open>--\<close> comes after the test for arguments shorter than three bytes, so the
  \<open>break\<close> is unreachable and the arguments after \<open>--\<close> are rewritten and
  fed to the type manager like any other.
\<close>

theorem HandleTYPELogic_past_double_dash:
  "HandleTYPELogic ops (v1 @ ''--'' # v2) tm =
     (case HandleTYPELogic ops v1 tm of
        Inl e \<Rightarrow> Inl e
      | Inr (v1', tm1) \<Rightarrow>
          (case HandleTYPELogic ops v2 tm1 of Inl e \<Rightarrow> Inl e | Inr (v2', tm2) \<Rightarrow> Inr (v1' @ ''--'' # v2', tm2)))"
  by (simp add: HandleTYPELogic_append handle_type_arg_double_dash split: sum.splits prod.splits)

text \<open>
  C19. A type whose name starts with \<open>no\<close> cannot be selected: \<open>--NAME\<close> is
  rewritten to \<open>--type=NAME\<close>, and \<open>parse_opt\<close> reads the \<open>no\<close> as a
  negation and fails on the rest of the name.
\<close>

theorem type_named_no_unselectable:
  assumes "n \<in> set (tm_names tm)" and "take 2 n = ''no''" and "drop 2 n \<notin> set (tm_names tm)"
  shows "handle_type_arg tm_ops (''--'' @ n) tm = Inr (Some (''--type='' @ n, tm)) \<and>
    parse_opt tm_ops OPT_TYPE n st (a\<lparr>m_type_manager := tm\<rparr>) = OptExit (UnknownType (drop 2 n))"
proof
  have "3 \<le> length (''--'' @ n)"
    using assms(2) by (cases n) auto
  then show "handle_type_arg tm_ops (''--'' @ n) tm = Inr (Some (''--type='' @ n, tm))"
    using assms(1,2) by (cases n) (simp_all add: handle_type_arg_def tm_ops_def tm_resolve_prefix_def)
  show "parse_opt tm_ops OPT_TYPE n st (a\<lparr>m_type_manager := tm\<rparr>) = OptExit (UnknownType (drop 2 n))"
    using assms(2,3) by (simp add: parse_opt_def tm_ops_def tm_disable_def)
qed

theorem type_named_no_unselectable_witness:
  "handle_type_arg tm_ops ''--noodle'' tm_noodle = Inr (Some (''--type=noodle'', tm_noodle)) \<and>
   parse_opt tm_ops OPT_TYPE ''noodle'' \<lparr>arg_num = 0, current_arg = ''--type=noodle''\<rparr>
     ((ArgParse_ctor TypeManager_ctor {})\<lparr>m_type_manager := tm_noodle\<rparr>) = OptExit (UnknownType ''odle'')"
proof -
  have h: "''noodle'' \<in> set (tm_names tm_noodle)" "take 2 ''noodle'' = ''no''"
    "drop 2 ''noodle'' \<notin> set (tm_names tm_noodle)"
    by (simp_all add: tm_names_def tm_noodle_def TypeManager_ctor_def builtin_types_def)
  have "handle_type_arg tm_ops (''--'' @ ''noodle'') tm_noodle = Inr (Some (''--type='' @ ''noodle'', tm_noodle)) \<and>
    parse_opt tm_ops OPT_TYPE ''noodle'' \<lparr>arg_num = 0, current_arg = ''--type=noodle''\<rparr>
     ((ArgParse_ctor TypeManager_ctor {})\<lparr>m_type_manager := tm_noodle\<rparr>) = OptExit (UnknownType (drop 2 ''noodle''))"
    using type_named_no_unselectable [OF h] by simp
  then show ?thesis by simp
qed

text \<open>
  C20. After \<open>Parse\<close> there is at least one scanner job and one directory job,
  and at least one path to search.
\<close>

theorem Parse_bounds:
  assumes "Parse ops env argv a0 = Inr a"
  shows "1 \<le> m_jobs a \<and> 1 \<le> m_dirjobs a \<and> m_paths a \<noteq> []"
  using assms Parse_defaults_bounds_aux
  by (auto simp: Parse_def split: sum.splits prod.splits)

theorem Parse_bounds_witness:
  "\<exists>a. Parse tm_ops env_no_rc [''ucg'', ''foo''] (ArgParse_ctor TypeManager_ctor {}) = Inr a \<and>
     1 \<le> m_jobs a \<and> 1 \<le> m_dirjobs a \<and> m_paths a \<noteq> []"
proof -
  obtain a where pa: "Parse tm_ops env_no_rc [''ucg'', ''foo''] (ArgParse_ctor TypeManager_ctor {}) = Inr a"
    by (simp add: parse_eval env_no_rc_def)
  then show ?thesis
    using Parse_bounds [OF pa] by blast
qed

text \<open>
  C38. argp runs the options in the order \<open>getopt_long\<close> returns them, so an
  option that ends the program comes before anything later on the command line,
  errors included: \<open>--help\<close> exits with status 0 and \<open>-j0\<close> with status 255
  whatever follows. \<open>--help-types\<close> ends the reading: given first it leaves no
  argument, so \<open>ARGP_KEY_END\<close> calls \<open>argp_usage\<close> (status 255) after the types
  are printed; given after a pattern it ends nothing, and the parse succeeds with
  that pattern.
\<close>

theorem argp_parse_exit_order:
  "argp_parse ops (p # ''--help'' # rest) a = Inl (ArgpExitSuccess ''--help'') \<and>
   argp_parse ops (p # ''-j0'' # rest) a = Inl JobsMustBePositive \<and>
   argp_parse ops (p # ''--help-types'' # rest) a = Inl Usage \<and>
   argp_parse ops (p # ''foo'' # ''--help-types'' # rest) a = Inr (a\<lparr>m_pattern := ''foo''\<rparr>) \<and>
   argp_exit_status (ArgpExitSuccess ''--help'') = 0 \<and> argp_exit_status JobsMustBePositive = 255 \<and>
   argp_exit_status Usage = 255"
  by (simp add: argp_parse_def getopt_eval parse_opt_def argp_exit_status_def argp_err_exit_status_def
      c_atoi_def c_isdigit_def c_isspace_def digits_value_def split: prod.split)

end
