(* ===== verification/FileSystem.thy ===== *)
theory FileSystem
  imports Prelude
begin

text \<open>
  The helpers of \<open>src/src/libext/filesystem.hpp\<close>: the packed device/inode key
  \<open>dev_ino_pair\<close> (a 128-bit word, the device in the high 64 bits), the
  \<open>fstat\<close>-based test \<open>is_same_file\<close>, \<open>portable::dirname\<close> over glibc's
  \<open>dirname\<close>, \<open>is_pathname_absolute\<close>, \<open>dirent_get_name\<close> and
  \<open>opendirat\<close>. The operating system is an input: the \<open>stat\<close> results of
  paths and descriptors, and the outcome of \<open>openat\<close> and \<open>fdopendir\<close>.
\<close>

unbundle bit_operations_syntax

section \<open>Device and inode numbers\<close>

text \<open>
  \<open>dev_t\<close> and \<open>ino_t\<close> are 64-bit unsigned on the platforms the build
  targets, so \<open>dev_ino_pair_type\<close> is \<open>uint_t<128>::fast\<close>, an unsigned
  128-bit integer (lines 73--77).
\<close>

type_synonym dev_t = "64 word"
type_synonym ino_t = "64 word"
type_synonym dev_ino_pair_type = "128 word"

text \<open>
  The constructor (line 82): \<open>m_val = d, m_val <<= sizeof(ino_t)*8, m_val |= i\<close>.
\<close>

definition dev_ino_pair :: "dev_t \<Rightarrow> ino_t \<Rightarrow> dev_ino_pair_type" where
  "dev_ino_pair d i = push_bit 64 (ucast d) OR ucast i"

text \<open>\<open>operator<\<close> (line 84) compares the packed values.\<close>

definition dev_ino_pair_less :: "dev_ino_pair_type \<Rightarrow> dev_ino_pair_type \<Rightarrow> bool" where
  "dev_ino_pair_less a b \<longleftrightarrow> a < b"

text \<open>The reverse of the packing, used to state what the key keeps.\<close>

definition dev_of_pair :: "dev_ino_pair_type \<Rightarrow> dev_t" where
  "dev_of_pair v = ucast (drop_bit 64 v)"

definition ino_of_pair :: "dev_ino_pair_type \<Rightarrow> ino_t" where
  "ino_of_pair v = ucast v"

section \<open>\<open>stat\<close> results\<close>

text \<open>The fields of \<open>struct stat\<close> the sources read.\<close>

record stat_buf =
  st_dev :: dev_t
  st_ino :: ino_t
  st_mode :: "32 word"
  st_size :: int
  st_blksize :: int
  st_blocks :: int

text \<open>
  \<open>is_same_file(fd1, fd2)\<close> (lines 129--153): both descriptors can be
  \<open>fstat\<close>ed and have the same device and inode. \<open>fstat\<close> gives \<open>None\<close> on
  failure.
\<close>

definition is_same_file :: "(int \<Rightarrow> stat_buf option) \<Rightarrow> int \<Rightarrow> int \<Rightarrow> bool" where
  "is_same_file fstat fd1 fd2 =
     (case fstat fd1 of
        None \<Rightarrow> False
      | Some s1 \<Rightarrow>
          (case fstat fd2 of
             None \<Rightarrow> False
           | Some s2 \<Rightarrow> st_dev s1 = st_dev s2 \<and> st_ino s1 = st_ino s2))"

section \<open>Paths\<close>

text \<open>
  glibc's \<open>dirname\<close>, which \<open>portable::dirname\<close> calls on a copy of its
  argument: trailing slashes are ignored, the last component and the slashes before it
  are removed; no slash gives \<open>.\<close>; a path of slashes only gives \<open>/\<close>, except
  that exactly two leading slashes are kept (\<open>//\<close> and \<open>//x\<close> give \<open>//\<close>, as
  POSIX allows for the implementation-defined root \<open>//\<close>).
\<close>

definition strip_trailing_slashes :: "bytes \<Rightarrow> bytes" where
  "strip_trailing_slashes s = rev (dropWhile (\<lambda>c. c = CHR ''/'') (rev s))"

definition glibc_dirname :: "bytes \<Rightarrow> bytes" where
  "glibc_dirname p =
     (if CHR ''/'' \<notin> set p then ''.''
      else
        let q = strip_trailing_slashes p in
        if q = [] then (if p = ''//'' then ''//'' else ''/'')
        else if CHR ''/'' \<notin> set q then ''.''
        else
          let d = rev (tl (dropWhile (\<lambda>c. c \<noteq> CHR ''/'') (rev q)));
              d' = strip_trailing_slashes d
          in if d' = [] then (if length d = 1 then ''//'' else ''/'') else d')"

text \<open>\<open>portable::dirname\<close> (lines 165--177): \<open>strdup\<close>, \<open>::dirname\<close>, copy, \<open>free\<close>.\<close>

definition portable_dirname :: "bytes \<Rightarrow> bytes" where
  "portable_dirname path = glibc_dirname (c_str path)"

text \<open>
  \<open>is_pathname_absolute\<close> (lines 189--204): \<open>path[0] == '/'\<close>; on an empty
  \<open>std::string\<close>, \<open>path[0]\<close> is the terminating NUL.
\<close>

definition is_pathname_absolute :: "bytes \<Rightarrow> bool" where
  "is_pathname_absolute path = (case path of [] \<Rightarrow> False | c # _ \<Rightarrow> c = CHR ''/'')"

text \<open>
  \<open>dirent_get_name\<close> (lines 98--119): the name of a directory entry, the bytes of
  \<open>d_name\<close> up to its NUL (the length-based variants copy the same bytes).
\<close>

definition dirent_get_name :: "bytes \<Rightarrow> bytes" where
  "dirent_get_name d_name = c_str d_name"

text \<open>
  \<open>opendirat(at_dir, name)\<close> (lines 207--220): \<open>openat\<close> with directory-search
  flags, then \<open>fdopendir\<close> on the result, also when \<open>openat\<close> failed (a
  negative descriptor, for which \<open>fdopendir\<close> fails too). \<open>LOG\<close> and
  \<open>perror\<close> only print.
\<close>

definition opendirat ::
  "(int \<Rightarrow> bytes \<Rightarrow> int) \<Rightarrow> (int \<Rightarrow> 'dir option) \<Rightarrow> int \<Rightarrow> bytes \<Rightarrow> 'dir option" where
  "opendirat openat fdopendir at_dir name = fdopendir (openat at_dir (c_str name))"

text \<open>
  The paths on which \<open>glibc_dirname\<close> stops shortening: exactly two leading
  slashes, then the end or a byte other than a slash (\<open>//\<close>, \<open>//usr\<close>).
\<close>

definition two_slash_root :: "bytes \<Rightarrow> bool" where
  "two_slash_root p \<longleftrightarrow> take 2 p = ''//'' \<and> (length p = 2 \<or> p ! 2 \<noteq> CHR ''/'')"

text \<open>
  What the sources see of the file system through \<open>open(path, O_RDONLY)\<close> (a
  descriptor, or -1) and \<open>fstat\<close>.
\<close>

record posix_fs =
  fs_open :: "bytes \<Rightarrow> int"
  fs_fstat :: "int \<Rightarrow> stat_buf option"

section \<open>Properties\<close>

lemma bit_dev_ino_pair:
  "bit (dev_ino_pair d i) n \<longleftrightarrow> (if n < 64 then bit i n else n < 128 \<and> bit d (n - 64))"
  by (auto simp add: dev_ino_pair_def bit_simps dest: bit_imp_le_length)

lemma dev_ino_pair_word_cat: "dev_ino_pair d i = word_cat d i"
  by (simp add: dev_ino_pair_def word_cat_eq_push_bit_or)

lemma dev_ino_pair_add: "dev_ino_pair d i = push_bit 64 (ucast d) + ucast i"
proof -
  have "push_bit 64 (ucast d) AND (ucast i :: 128 word) = 0"
    by (rule bit_word_eqI) (auto simp: bit_simps dest: bit_imp_le_length)
  then show ?thesis
    by (simp add: dev_ino_pair_def disjunctive_add_eq_or)
qed

lemma unat_dev_ino_pair: "unat (dev_ino_pair d i) = unat d * 2 ^ 64 + unat i"
proof -
  have d: "unat d < 2 ^ 64" and i: "unat i < 2 ^ 64"
    using unsigned_less [of d] unsigned_less [of i] by simp_all
  have pd: "unat (push_bit 64 (ucast d) :: 128 word) = unat d * 2 ^ 64"
  proof -
    have "unat d * 2 ^ 64 < (2::nat) ^ 128"
      using d by (simp add: power_add [symmetric, of "2::nat" 64 64, simplified])
    moreover have "unat (ucast d :: 128 word) = unat d"
      using d by (simp add: unsigned_ucast_eq take_bit_nat_eq_self)
    moreover have "unat (push_bit 64 (ucast d) :: 128 word) = take_bit 128 (push_bit 64 (unat (ucast d :: 128 word)))"
      using unsigned_push_bit_eq [of 64 "ucast d :: 128 word"] by simp
    ultimately show ?thesis
      by (simp only: push_bit_eq_mult take_bit_nat_eq_self)
  qed
  have ui: "unat (ucast i :: 128 word) = unat i"
    using i by (simp add: unsigned_ucast_eq take_bit_nat_eq_self)
  have "unat d * 2 ^ 64 + unat i < (2::nat) ^ 128"
  proof -
    have "unat d * 2 ^ 64 + unat i < unat d * 2 ^ 64 + 2 ^ 64" using i by simp
    also have "\<dots> = (unat d + 1) * 2 ^ 64" by simp
    also have "\<dots> \<le> 2 ^ 64 * 2 ^ 64" using d by (intro mult_right_mono) simp_all
    finally show ?thesis by simp
  qed
  then show ?thesis
    by (simp add: dev_ino_pair_add unat_word_ariths pd ui)
qed

lemma dev_ino_pair_inj:
  "dev_ino_pair d1 i1 = dev_ino_pair d2 i2 \<longleftrightarrow> d1 = d2 \<and> i1 = i2"
proof
  assume e: "dev_ino_pair d1 i1 = dev_ino_pair d2 i2"
  have "dev_of_pair (dev_ino_pair d1 i1) = d1" "ino_of_pair (dev_ino_pair d1 i1) = i1"
    "dev_of_pair (dev_ino_pair d2 i2) = d2" "ino_of_pair (dev_ino_pair d2 i2) = i2"
    by (auto intro!: bit_word_eqI simp: dev_of_pair_def ino_of_pair_def bit_simps bit_dev_ino_pair)
  then show "d1 = d2 \<and> i1 = i2" using e by metis
qed simp

lemma strip_trailing_slashes_split:
  "\<exists>n. s = strip_trailing_slashes s @ replicate n CHR ''/''"
proof -
  let ?P = "\<lambda>c. c = CHR ''/''"
  have s: "s = rev (dropWhile ?P (rev s)) @ rev (takeWhile ?P (rev s))"
    by (simp only: rev_append [symmetric] takeWhile_dropWhile_id rev_rev_ident)
  have "\<forall>y\<in>set (rev (takeWhile ?P (rev s))). y = CHR ''/''"
    by (auto dest: set_takeWhileD)
  then have r: "rev (takeWhile ?P (rev s)) = replicate (length (rev (takeWhile ?P (rev s)))) CHR ''/''"
    by (rule replicate_length_same [symmetric])
  have "s = rev (dropWhile ?P (rev s)) @ replicate (length (rev (takeWhile ?P (rev s)))) CHR ''/''"
    by (subst (1) s, subst r, rule refl)
  then show ?thesis
    unfolding strip_trailing_slashes_def by (rule exI)
qed

lemma strip_trailing_slashes_last:
  "strip_trailing_slashes s \<noteq> [] \<Longrightarrow> last (strip_trailing_slashes s) \<noteq> CHR ''/''"
  unfolding strip_trailing_slashes_def
  using hd_dropWhile [of "\<lambda>c. c = CHR ''/''" "rev s"] by (simp add: last_rev)

lemma strip_trailing_slashes_Nil:
  "strip_trailing_slashes s = [] \<longleftrightarrow> (\<forall>c\<in>set s. c = CHR ''/'')"
  by (simp add: strip_trailing_slashes_def dropWhile_eq_Nil_conv)

lemma before_last_slash:
  assumes "CHR ''/'' \<in> set q"
  shows "\<exists>c. q = rev (tl (dropWhile (\<lambda>c. c \<noteq> CHR ''/'') (rev q))) @ CHR ''/'' # c \<and> CHR ''/'' \<notin> set c"
proof -
  let ?t = "takeWhile (\<lambda>c. c \<noteq> CHR ''/'') (rev q)" and ?d = "dropWhile (\<lambda>c. c \<noteq> CHR ''/'') (rev q)"
  have ne: "?d \<noteq> []"
    using assms by (simp add: dropWhile_eq_Nil_conv)
  then have hd: "hd ?d = CHR ''/''"
    using hd_dropWhile [of "\<lambda>c. c \<noteq> CHR ''/''" "rev q"] by simp
  have "rev q = ?t @ hd ?d # tl ?d"
    using ne by simp
  then have "rev (rev q) = rev (?t @ hd ?d # tl ?d)"
    by simp
  then have "q = rev (tl ?d) @ CHR ''/'' # rev ?t"
    using hd by simp
  moreover have "CHR ''/'' \<notin> set (rev ?t)"
    by (auto dest: set_takeWhileD)
  ultimately show ?thesis by blast
qed

lemma glibc_dirname_cases:
  assumes "2 \<le> length p"
  shows "glibc_dirname p = ''.'' \<or> glibc_dirname p = ''/'' \<or> (glibc_dirname p = ''//'' \<and> two_slash_root p) \<or>
    (\<exists>rest. p = glibc_dirname p @ rest \<and> rest \<noteq> [] \<and> glibc_dirname p \<noteq> [] \<and> last (glibc_dirname p) \<noteq> CHR ''/'')"
proof (cases "CHR ''/'' \<in> set p")
  case False
  then show ?thesis by (simp add: glibc_dirname_def)
next
  case slash: True
  define q where "q = strip_trailing_slashes p"
  obtain n where pq: "p = q @ replicate n CHR ''/''"
    using strip_trailing_slashes_split [of p] unfolding q_def by blast
  show ?thesis
  proof (cases "q = []")
    case True
    then have "glibc_dirname p = (if p = ''//'' then ''//'' else ''/'')"
      using slash by (simp add: glibc_dirname_def q_def [symmetric])
    then show ?thesis
      by (simp add: two_slash_root_def)
  next
    case qne: False
    have lq: "last q \<noteq> CHR ''/''"
      using qne strip_trailing_slashes_last unfolding q_def by blast
    show ?thesis
    proof (cases "CHR ''/'' \<in> set q")
      case False
      then show ?thesis
        using slash qne by (simp add: glibc_dirname_def q_def [symmetric])
    next
      case True
      define d where "d = rev (tl (dropWhile (\<lambda>c. c \<noteq> CHR ''/'') (rev q)))"
      obtain c where qd: "q = d @ CHR ''/'' # c" and c: "CHR ''/'' \<notin> set c"
        using before_last_slash [OF True] unfolding d_def by blast
      have cne: "c \<noteq> []"
        using lq qd by auto
      define d' where "d' = strip_trailing_slashes d"
      obtain m where dd: "d = d' @ replicate m CHR ''/''"
        using strip_trailing_slashes_split [of d] unfolding d'_def by blast
      have res: "glibc_dirname p = (if d' = [] then (if length d = 1 then ''//'' else ''/'') else d')"
        using slash qne True by (simp add: glibc_dirname_def q_def [symmetric] d_def [symmetric] d'_def [symmetric] Let_def)
      show ?thesis
      proof (cases "d' = []")
        case True
        then have dsl: "d = replicate m CHR ''/''" using dd by simp
        show ?thesis
        proof (cases "length d = 1")
          case True
          then have "d = ''/''" using dsl by (cases m) auto
          then have "take 2 p = ''//''" and "p ! 2 = hd c"
            using pq qd cne by (cases c; simp)+
          moreover have "hd c \<noteq> CHR ''/''"
            using c cne by (cases c) auto
          ultimately show ?thesis
            using res \<open>d' = []\<close> True by (simp add: two_slash_root_def)
        next
          case False
          then show ?thesis using res \<open>d' = []\<close> by simp
        qed
      next
        case False
        have "p = d' @ (replicate m CHR ''/'' @ CHR ''/'' # c @ replicate n CHR ''/'')"
          using pq qd dd by simp
        moreover have "last d' \<noteq> CHR ''/''"
          using False strip_trailing_slashes_last unfolding d'_def by blast
        ultimately show ?thesis
          using res False by auto
      qed
    qed
  qed
qed

lemma glibc_dirname_shorter:
  assumes "2 \<le> length p" and "\<not> two_slash_root p"
  shows "length (glibc_dirname p) < length p"
proof -
  consider "glibc_dirname p = ''.'' \<or> glibc_dirname p = ''/''"
    | rest where "p = glibc_dirname p @ rest" "rest \<noteq> []"
    using glibc_dirname_cases [OF assms(1)] assms(2) by blast
  then show ?thesis
  proof cases
    case 1
    then show ?thesis using assms(1) by auto
  next
    case 2
    then have "length p = length (glibc_dirname p) + length rest"
      by (metis length_append)
    then show ?thesis using 2(2) by simp
  qed
qed

lemma two_slash_root_prefix:
  assumes "two_slash_root r" and "r \<noteq> []" and "last r \<noteq> CHR ''/''"
  shows "two_slash_root (r @ rest)"
proof -
  have "r \<noteq> ''//''" using assms(3) by auto
  then have "length r \<noteq> 2" using assms(1) unfolding two_slash_root_def
    by (metis append_take_drop_id length_0_conv length_drop self_append_conv diff_self_eq_0)
  then have "2 < length r" using assms(1) unfolding two_slash_root_def
    by (metis le_neq_implies_less length_take min.absorb_iff2 min_def nat_le_linear numeral_2_eq_2 length_Cons list.size(3) One_nat_def)
  then show ?thesis using assms(1) by (simp add: two_slash_root_def nth_append)
qed

lemma glibc_dirname_no_two_slash_root:
  assumes "2 \<le> length p" and "\<not> two_slash_root p"
  shows "\<not> two_slash_root (glibc_dirname p)"
proof -
  have "\<not> two_slash_root ''.''" "\<not> two_slash_root ''/''"
    by (simp_all add: two_slash_root_def)
  then have n: "\<not> two_slash_root ''.''" "\<not> two_slash_root ''/''" by simp_all
  consider "glibc_dirname p = ''.'' \<or> glibc_dirname p = ''/''"
    | rest where "p = glibc_dirname p @ rest" "glibc_dirname p \<noteq> []" "last (glibc_dirname p) \<noteq> CHR ''/''"
    using glibc_dirname_cases [OF assms(1)] assms(2) by blast
  then show ?thesis
  proof cases
    case 1
    then show ?thesis using n by auto
  next
    case 2
    show ?thesis
    proof
      assume "two_slash_root (glibc_dirname p)"
      then have "two_slash_root (glibc_dirname p @ rest)"
        using two_slash_root_prefix 2(2,3) by blast
      then show False using assms(2) 2(1) by simp
    qed
  qed
qed

lemma glibc_dirname_short:
  assumes "length p < 2"
  shows "glibc_dirname p = ''.'' \<or> glibc_dirname p = ''/''"
proof (cases p)
  case Nil
  then show ?thesis by (simp add: glibc_dirname_def)
next
  case (Cons c r)
  then have "r = []" using assms by simp
  then show ?thesis
    using Cons by (simp add: glibc_dirname_def strip_trailing_slashes_def)
qed

lemma c_str_glibc_dirname: "CHR 0x00 \<notin> set p \<Longrightarrow> CHR 0x00 \<notin> set (glibc_dirname p)"
proof (cases "2 \<le> length p")
  case True
  assume n: "CHR 0x00 \<notin> set p"
  consider "glibc_dirname p = ''.'' \<or> glibc_dirname p = ''/'' \<or> glibc_dirname p = ''//''"
    | rest where "p = glibc_dirname p @ rest"
    using glibc_dirname_cases [OF True] by blast
  then show ?thesis
  proof cases
    case 1
    then show ?thesis by (elim disjE) simp_all
  next
    case 2
    then have "set p = set (glibc_dirname p @ rest)"
      by (rule arg_cong)
    then have "set (glibc_dirname p) \<subseteq> set p"
      by (simp only: set_append Un_upper1)
    then show ?thesis using n by blast
  qed
next
  case False
  then have "glibc_dirname p = ''.'' \<or> glibc_dirname p = ''/''"
    by (intro glibc_dirname_short) simp
  then show ?thesis
    by (elim disjE) simp_all
qed

text \<open>
  C21. \<open>dev_ino_pair\<close> loses nothing: the device and the inode number are read back
  from the high and the low 64 bits of the 128-bit key.
\<close>

theorem dev_ino_pair_roundtrip:
  "dev_of_pair (dev_ino_pair d i) = d \<and> ino_of_pair (dev_ino_pair d i) = i"
  by (auto intro!: bit_word_eqI simp: dev_of_pair_def ino_of_pair_def bit_simps bit_dev_ino_pair)

text \<open>
  C22. \<open>operator<\<close> on the packed key is the lexicographic order on
  (device, inode), so a \<open>std::set<dev_ino_pair>\<close> orders files by device first.
\<close>

theorem dev_ino_pair_less_lex:
  "dev_ino_pair_less (dev_ino_pair d1 i1) (dev_ino_pair d2 i2) \<longleftrightarrow> d1 < d2 \<or> (d1 = d2 \<and> i1 < i2)"
proof -
  have b: "unat i1 < 2 ^ 64" "unat i2 < 2 ^ 64"
    using unsigned_less [of i1] unsigned_less [of i2] by simp_all
  have "dev_ino_pair_less (dev_ino_pair d1 i1) (dev_ino_pair d2 i2) \<longleftrightarrow>
      unat d1 * 2 ^ 64 + unat i1 < unat d2 * 2 ^ 64 + unat i2"
    by (simp add: dev_ino_pair_less_def word_less_nat_alt unat_dev_ino_pair)
  also have "\<dots> \<longleftrightarrow> unat d1 < unat d2 \<or> (unat d1 = unat d2 \<and> unat i1 < unat i2)"
  proof
    assume l: "unat d1 * 2 ^ 64 + unat i1 < unat d2 * 2 ^ 64 + unat i2"
    show "unat d1 < unat d2 \<or> (unat d1 = unat d2 \<and> unat i1 < unat i2)"
    proof (rule ccontr)
      assume "\<not> ?thesis"
      then have "unat d2 < unat d1 \<or> (unat d1 = unat d2 \<and> unat i2 \<le> unat i1)"
        by auto
      then show False
      proof
        assume "unat d2 < unat d1"
        then have "unat d2 * 2 ^ 64 + 2 ^ 64 \<le> unat d1 * 2 ^ 64"
          by (metis Suc_leI add.commute mult_Suc mult_le_mono1)
        then show False using l b by linarith
      qed (use l in simp)
    qed
  next
    assume "unat d1 < unat d2 \<or> (unat d1 = unat d2 \<and> unat i1 < unat i2)"
    then show "unat d1 * 2 ^ 64 + unat i1 < unat d2 * 2 ^ 64 + unat i2"
    proof
      assume "unat d1 < unat d2"
      then have "unat d1 * 2 ^ 64 + 2 ^ 64 \<le> unat d2 * 2 ^ 64"
        by (metis Suc_leI add.commute mult_Suc mult_le_mono1)
      then show ?thesis using b by linarith
    qed simp
  qed
  also have "\<dots> \<longleftrightarrow> d1 < d2 \<or> (d1 = d2 \<and> i1 < i2)"
    by (simp add: word_less_nat_alt word_unat_eq_iff)
  finally show ?thesis .
qed

text \<open>
  C23. \<open>is_same_file\<close> holds exactly when both descriptors can be \<open>fstat\<close>ed and
  their \<open>dev_ino_pair\<close> keys are equal: it is the identity the traversal uses.
\<close>

theorem is_same_file_dev_ino_pair:
  "is_same_file fstat fd1 fd2 \<longleftrightarrow>
     (\<exists>s1 s2. fstat fd1 = Some s1 \<and> fstat fd2 = Some s2 \<and>
        dev_ino_pair (st_dev s1) (st_ino s1) = dev_ino_pair (st_dev s2) (st_ino s2))"
  by (auto simp: is_same_file_def dev_ino_pair_inj split: option.splits)

end
