(* ===== verification/ProjectRc.thy ===== *)
theory ProjectRc
  imports FileSystem RcFile
begin

text \<open>
  \<open>ArgParse::GetProjectRCFilename\<close> (\<open>src/src/ArgParse.cpp\<close>, lines 730--827):
  the search for a project \<open>.ucgrc\<close> from the current directory up towards the
  root, stopping at the user's home directory. The loop is a
  \<open>partial_function (option)\<close>, so that a walk which never ends is the value
  \<open>None\<close>; the file system is the \<open>posix_fs\<close> of \<open>FileSystem\<close>. The theory
  proves when the walk ends, what a found file is, and that the walk from \<open>//\<close>
  does not end.
\<close>

section \<open>The walk\<close>

text \<open>
  The candidate file of a directory (lines 787--792): a slash is appended unless the
  name ends in one, then \<open>.ucgrc\<close>.
\<close>

definition rc_candidate :: "bytes \<Rightarrow> bytes" where
  "rc_candidate current_cwd = (if last current_cwd \<noteq> CHR ''/'' then current_cwd @ ''/'' else current_cwd) @ ''.ucgrc''"

text \<open>
  The home-directory test (lines 768--783): only when \<open>home_fd\<close> is open, the
  directory is opened, and \<open>is_same_file\<close> compares the two descriptors.
\<close>

definition is_home :: "posix_fs \<Rightarrow> int \<Rightarrow> bytes \<Rightarrow> bool" where
  "is_home fs home_fd current_cwd \<longleftrightarrow>
     home_fd \<noteq> -1 \<and> fs_open fs current_cwd \<noteq> -1 \<and> is_same_file (fs_fstat fs) (fs_open fs current_cwd) home_fd"

text \<open>
  The loop (lines 765--816): it ends on an empty or relative name, at home, at the
  first directory that has an rc file (returned), and at a one-byte name or a DOS drive
  (\<open>length <= 4\<close> and \<open>':'\<close> second); otherwise it goes on with
  \<open>portable::dirname\<close>. \<open>Some []\<close> is the empty \<open>retval\<close>.
\<close>

partial_function (option) project_rc_walk :: "posix_fs \<Rightarrow> int \<Rightarrow> bytes \<Rightarrow> bytes option" where
  "project_rc_walk fs home_fd current_cwd =
     (if current_cwd = [] \<or> hd current_cwd = CHR ''.'' then Some []
      else if is_home fs home_fd current_cwd then Some []
      else if fs_open fs (rc_candidate current_cwd) \<noteq> -1 then Some (rc_candidate current_cwd)
      else if length current_cwd = 1 \<or> (length current_cwd \<le> 4 \<and> current_cwd ! 1 = CHR '':'') then Some []
      else project_rc_walk fs home_fd (portable_dirname current_cwd))"

text \<open>
  The whole function: \<open>home_fd\<close> is opened from \<open>GetUserHomeDir\<close> when that
  is not empty (lines 742--749), the walk starts at the current directory or at the
  empty name when \<open>get_current_dir_name\<close> fails (lines 757--765). Closing the
  descriptors has no effect the model observes.
\<close>

definition project_home_fd :: "posix_fs \<Rightarrow> bytes \<Rightarrow> int" where
  "project_home_fd fs homedirname = (if homedirname \<noteq> [] then fs_open fs homedirname else -1)"

definition GetProjectRCFilename ::
  "posix_fs \<Rightarrow> bytes option \<Rightarrow> bytes option \<Rightarrow> bytes option \<Rightarrow> bytes option" where
  "GetProjectRCFilename fs env_home pw_dir original_cwd =
     project_rc_walk fs (project_home_fd fs (GetUserHomeDir env_home pw_dir))
       (case original_cwd of None \<Rightarrow> [] | Some c \<Rightarrow> c)"

text \<open>
  \<open>FindAndParseConfigFiles\<close> (lines 626--706) with the calls it makes: the
  user's rc file is read first (lines 632--669), so an exception there ends the
  function before the walk starts; then \<open>GetProjectRCFilename\<close> (line 672) and
  the project rc file. \<open>None\<close> is a walk that never ends.
\<close>

definition FindAndParseConfigFiles_sys ::
  "bool \<Rightarrow> posix_fs \<Rightarrow> (bytes \<Rightarrow> file_open) \<Rightarrow> bytes option \<Rightarrow> bytes option \<Rightarrow> bytes option \<Rightarrow>
     (argparse_error + (bytes list \<times> bytes list)) option" where
  "FindAndParseConfigFiles_sys test_noenv_user fs files env_home pw_dir original_cwd =
     (let homedir = GetUserHomeDir env_home pw_dir in
      case FindAndParseConfigFiles test_noenv_user homedir [] files of
        Inl e \<Rightarrow> Some (Inl e)
      | Inr _ \<Rightarrow> map_option (\<lambda>proj. FindAndParseConfigFiles test_noenv_user homedir proj files)
                  (GetProjectRCFilename fs env_home pw_dir original_cwd))"

text \<open>
  The directories the walk visits: the \<open>k\<close>-th is \<open>portable::dirname\<close> applied
  \<open>k\<close> times. \<open>rc_walk_ok\<close> is what a non-empty result promises: it is the
  rc file of one of them, and no earlier one is home or has an rc file.
\<close>

definition dir_iter :: "nat \<Rightarrow> bytes \<Rightarrow> bytes" where
  "dir_iter k p = (portable_dirname ^^ k) p"

definition rc_walk_ok :: "posix_fs \<Rightarrow> int \<Rightarrow> bytes \<Rightarrow> bytes \<Rightarrow> bool" where
  "rc_walk_ok fs home_fd p r \<longleftrightarrow>
     r \<noteq> [] \<longrightarrow> (\<exists>k. r = rc_candidate (dir_iter k p) \<and> fs_open fs r \<noteq> -1 \<and>
       (\<forall>j<k. \<not> is_home fs home_fd (dir_iter j p) \<and> fs_open fs (rc_candidate (dir_iter j p)) = -1))"

text \<open>
  A directory the loop passes on from (lines 763--809): the name is absolute, it is
  not home, it has no rc file, and it is neither a one-byte root nor a DOS drive.
\<close>

definition walk_continues :: "posix_fs \<Rightarrow> int \<Rightarrow> bytes \<Rightarrow> bool" where
  "walk_continues fs home_fd p \<longleftrightarrow>
     \<not> (p = [] \<or> hd p = CHR ''.'') \<and> \<not> is_home fs home_fd p \<and> fs_open fs (rc_candidate p) = -1 \<and>
     \<not> (length p = 1 \<or> (length p \<le> 4 \<and> p ! 1 = CHR '':''))"

section \<open>Properties\<close>

lemma project_rc_walk_step:
  assumes "\<not> (p = [] \<or> hd p = CHR ''.'')" and "\<not> is_home fs home_fd p"
    and "fs_open fs (rc_candidate p) = -1" and "\<not> (length p = 1 \<or> (length p \<le> 4 \<and> p ! 1 = CHR '':''))"
  shows "project_rc_walk fs home_fd p = project_rc_walk fs home_fd (portable_dirname p)"
  using assms by (subst project_rc_walk.simps) auto

lemma project_rc_walk_stop:
  assumes "p = [] \<or> hd p = CHR ''.'' \<or> is_home fs home_fd p \<or> fs_open fs (rc_candidate p) \<noteq> -1 \<or>
           length p = 1 \<or> (length p \<le> 4 \<and> p ! 1 = CHR '':'')"
  shows "\<exists>r. project_rc_walk fs home_fd p = Some r"
  using assms by (subst project_rc_walk.simps) (auto split: if_splits)

lemma project_rc_walk_terminates:
  assumes "\<not> two_slash_root p" and "CHR 0x00 \<notin> set p"
  shows "\<exists>r. project_rc_walk fs home_fd p = Some r"
  using assms
proof (induction "length p" arbitrary: p rule: less_induct)
  case less
  show ?case
  proof (cases "p = [] \<or> hd p = CHR ''.'' \<or> is_home fs home_fd p \<or> fs_open fs (rc_candidate p) \<noteq> -1 \<or>
                length p = 1 \<or> (length p \<le> 4 \<and> p ! 1 = CHR '':'')")
    case True
    then show ?thesis by (rule project_rc_walk_stop)
  next
    case False
    then have "p \<noteq> []" and "length p \<noteq> 1"
      by auto
    then have l: "2 \<le> length p"
      by (cases p) (auto simp: Suc_le_eq)
    have d: "portable_dirname p = glibc_dirname p"
      using less.prems(2) by (simp add: portable_dirname_def)
    have "\<exists>r. project_rc_walk fs home_fd (glibc_dirname p) = Some r"
      using less.hyps [OF glibc_dirname_shorter [OF l less.prems(1)]]
        glibc_dirname_no_two_slash_root [OF l less.prems(1)] c_str_glibc_dirname [OF less.prems(2)]
      by blast
    moreover have "project_rc_walk fs home_fd p = project_rc_walk fs home_fd (glibc_dirname p)"
      using False d by (subst project_rc_walk_step) auto
    ultimately show ?thesis
      by simp
  qed
qed

lemma project_rc_walk_sound:
  assumes "project_rc_walk fs home_fd p = Some r"
  shows "rc_walk_ok fs home_fd p r"
  apply (rule project_rc_walk.raw_induct [where P = rc_walk_ok, OF _ assms])
  subgoal premises prems for f fs home_fd p r
  proof (cases "p = [] \<or> hd p = CHR ''.'' \<or> is_home fs home_fd p \<or> fs_open fs (rc_candidate p) \<noteq> -1 \<or>
                length p = 1 \<or> (length p \<le> 4 \<and> p ! 1 = CHR '':'')")
    case True
    then show ?thesis
      using prems(2) by (auto simp: rc_walk_ok_def dir_iter_def split: if_splits intro!: exI [of _ 0])
  next
    case False
    then have r: "f fs home_fd (portable_dirname p) = Some r"
      using prems(2) by (simp split: if_splits)
    have it: "dir_iter (Suc j) p = dir_iter j (portable_dirname p)" for j
      by (simp only: dir_iter_def funpow_Suc_right o_apply)
    show ?thesis
      unfolding rc_walk_ok_def
    proof
      assume "r \<noteq> []"
      then obtain k where k: "r = rc_candidate (dir_iter k (portable_dirname p))" "fs_open fs r \<noteq> -1"
        "\<forall>j<k. \<not> is_home fs home_fd (dir_iter j (portable_dirname p)) \<and>
               fs_open fs (rc_candidate (dir_iter j (portable_dirname p))) = -1"
        using prems(1) [OF r] by (auto simp: rc_walk_ok_def)
      have "\<forall>j<Suc k. \<not> is_home fs home_fd (dir_iter j p) \<and> fs_open fs (rc_candidate (dir_iter j p)) = -1"
      proof (intro allI impI)
        fix j
        assume "j < Suc k"
        then show "\<not> is_home fs home_fd (dir_iter j p) \<and> fs_open fs (rc_candidate (dir_iter j p)) = -1"
          using False k(3) it by (cases j) (auto simp: dir_iter_def)
      qed
      moreover have "r = rc_candidate (dir_iter (Suc k) p)"
        using k(1) it [of k] by simp
      ultimately show "\<exists>k. r = rc_candidate (dir_iter k p) \<and> fs_open fs r \<noteq> -1 \<and>
          (\<forall>j<k. \<not> is_home fs home_fd (dir_iter j p) \<and> fs_open fs (rc_candidate (dir_iter j p)) = -1)"
        using k(2) by blast
    qed
  qed
  done

lemma project_rc_walk_double_slash:
  assumes "fs_open fs ''//.ucgrc'' = -1" and "\<not> is_home fs home_fd ''//''"
  shows "project_rc_walk fs home_fd ''//'' = None"
proof -
  have "\<forall>y. project_rc_walk fs home_fd ''//'' \<noteq> Some y"
  proof (induction rule: project_rc_walk.fixp_induct [where P = "\<lambda>f. \<forall>y. f fs home_fd ''//'' \<noteq> Some y"])
    case 1
    have eq: "(\<lambda>g. \<forall>x y. g x = Some y \<longrightarrow> x \<noteq> ((fs, home_fd), ''//'')) =
        (\<lambda>g. \<forall>y. curry (curry g) fs home_fd ''//'' \<noteq> Some y)"
      by (auto simp: fun_eq_iff)
    show ?case
      by (subst eq [symmetric]) (rule option_admissible)
  next
    case 2
    then show ?case by simp
  next
    case (3 f)
    have "portable_dirname ''//'' = ''//''"
      by (simp add: portable_dirname_def glibc_dirname_def strip_trailing_slashes_def)
    moreover have "rc_candidate ''//'' = ''//.ucgrc''"
      by (simp add: rc_candidate_def)
    ultimately show ?case
      using 3 assms by simp
  qed
  then show ?thesis by (cases "project_rc_walk fs home_fd ''//''") auto
qed

lemma project_rc_walk_found:
  assumes "\<not> (p = [] \<or> hd p = CHR ''.'')" and "\<not> is_home fs home_fd p"
    and "fs_open fs (rc_candidate p) \<noteq> -1"
  shows "project_rc_walk fs home_fd p = Some (rc_candidate p)"
  using assms by (subst project_rc_walk.simps) simp

lemma GetProjectRCFilename_walk:
  "GetProjectRCFilename fs env_home pw_dir (Some cwd) =
     project_rc_walk fs (project_home_fd fs (GetUserHomeDir env_home pw_dir)) cwd"
  by (simp add: GetProjectRCFilename_def)

lemma project_home_fd_none: "project_home_fd fs [] = -1"
  by (simp add: project_home_fd_def)

lemma is_home_closed: "\<not> is_home fs (-1) p"
  by (simp add: is_home_def)

lemma project_rc_walk_home:
  assumes "is_home fs home_fd (dir_iter k p)" and "\<forall>j<k. walk_continues fs home_fd (dir_iter j p)"
  shows "project_rc_walk fs home_fd p = Some []"
  using assms
proof (induction k arbitrary: p)
  case 0
  then show ?case by (subst project_rc_walk.simps) (simp add: dir_iter_def)
next
  case (Suc k)
  have it: "dir_iter (Suc j) p = dir_iter j (portable_dirname p)" for j
    by (simp only: dir_iter_def funpow_Suc_right o_apply)
  have "walk_continues fs home_fd p"
    using Suc.prems(2) by (auto simp: dir_iter_def)
  then have "project_rc_walk fs home_fd p = project_rc_walk fs home_fd (portable_dirname p)"
    unfolding walk_continues_def by (intro project_rc_walk_step) auto
  also have "\<dots> = Some []"
    using Suc.prems it by (intro Suc.IH) auto
  finally show ?case .
qed

text \<open>
  C24. The search for a project rc file ends whenever the current directory is a
  C string that does not start with exactly two slashes: every step shortens the name,
  and the loop stops at a single byte.
\<close>

theorem GetProjectRCFilename_terminates:
  assumes "\<not> two_slash_root cwd" and "CHR 0x00 \<notin> set cwd"
  shows "\<exists>r. GetProjectRCFilename fs env_home pw_dir (Some cwd) = Some r"
  unfolding GetProjectRCFilename_walk using assms by (rule project_rc_walk_terminates)

theorem GetProjectRCFilename_terminates_witness:
  "\<exists>r. GetProjectRCFilename \<lparr>fs_open = \<lambda>_. -1, fs_fstat = \<lambda>_. None\<rparr> None None (Some ''/a/b'') = Some r"
  by (rule GetProjectRCFilename_terminates) (simp_all add: two_slash_root_def)

text \<open>
  C25. A project rc file that is found is the \<open>.ucgrc\<close> of the nearest ancestor
  of the current directory that has one, and no directory visited before it is the
  home directory: the walk implements the search the comment at lines 732--735
  describes.
\<close>

theorem GetProjectRCFilename_nearest:
  assumes "GetProjectRCFilename fs env_home pw_dir (Some cwd) = Some r" and "r \<noteq> []"
  shows "\<exists>k. r = rc_candidate (dir_iter k cwd) \<and> fs_open fs r \<noteq> -1 \<and>
           (\<forall>j<k. \<not> is_home fs (project_home_fd fs (GetUserHomeDir env_home pw_dir)) (dir_iter j cwd) \<and>
                  fs_open fs (rc_candidate (dir_iter j cwd)) = -1)"
  using project_rc_walk_sound [OF assms(1) [unfolded GetProjectRCFilename_walk]] assms(2)
  by (simp add: rc_walk_ok_def)

theorem GetProjectRCFilename_nearest_witness:
  "\<exists>k. ''/a/.ucgrc'' = rc_candidate (dir_iter k ''/a/b'') \<and>
     fs_open \<lparr>fs_open = \<lambda>p. if p = ''/a/.ucgrc'' then 3 else -1, fs_fstat = \<lambda>_. None\<rparr> ''/a/.ucgrc'' \<noteq> -1 \<and>
     (\<forall>j<k. \<not> is_home \<lparr>fs_open = \<lambda>p. if p = ''/a/.ucgrc'' then 3 else -1, fs_fstat = \<lambda>_. None\<rparr>
               (project_home_fd \<lparr>fs_open = \<lambda>p. if p = ''/a/.ucgrc'' then 3 else -1, fs_fstat = \<lambda>_. None\<rparr>
                  (GetUserHomeDir None None)) (dir_iter j ''/a/b'') \<and>
            fs_open \<lparr>fs_open = \<lambda>p. if p = ''/a/.ucgrc'' then 3 else -1, fs_fstat = \<lambda>_. None\<rparr>
              (rc_candidate (dir_iter j ''/a/b'')) = -1)"
proof (rule GetProjectRCFilename_nearest)
  let ?fs = "\<lparr>fs_open = \<lambda>p. if p = ''/a/.ucgrc'' then 3 else -1, fs_fstat = \<lambda>_. None\<rparr>"
  have d: "portable_dirname ''/a/b'' = ''/a''"
    by (simp add: portable_dirname_def glibc_dirname_def strip_trailing_slashes_def)
  have "project_rc_walk ?fs (-1) ''/a/b'' = project_rc_walk ?fs (-1) ''/a''"
    using project_rc_walk_step [of "''/a/b''" ?fs "-1"] d
    by (simp add: is_home_closed rc_candidate_def)
  also have "\<dots> = Some ''/a/.ucgrc''"
    using project_rc_walk_found [of "''/a''" ?fs "-1"] by (simp add: is_home_closed rc_candidate_def)
  finally show "GetProjectRCFilename ?fs None None (Some ''/a/b'') = Some ''/a/.ucgrc''"
    by (simp add: GetProjectRCFilename_walk GetUserHomeDir_def project_home_fd_none)
qed simp

text \<open>
  C26. The home directory ends the search before its own rc file is looked at
  (case 1 of the comment at line 733): when the walk climbs into \<open>$HOME\<close>
  (the \<open>k\<close>-th \<open>dirname\<close> of the current directory is home, and the loop
  passed on from every directory before it) it returns no project rc file, even
  when \<open>$HOME/.ucgrc\<close> exists.
\<close>

theorem GetProjectRCFilename_home_stops:
  assumes "is_home fs (project_home_fd fs (GetUserHomeDir env_home pw_dir)) (dir_iter k cwd)"
    and "\<forall>j<k. walk_continues fs (project_home_fd fs (GetUserHomeDir env_home pw_dir)) (dir_iter j cwd)"
  shows "GetProjectRCFilename fs env_home pw_dir (Some cwd) = Some []"
  unfolding GetProjectRCFilename_walk using assms by (rule project_rc_walk_home)

theorem GetProjectRCFilename_home_stops_witness:
  "GetProjectRCFilename
     \<lparr>fs_open = \<lambda>p. if p = ''/h'' then 5 else if p = ''/h/p'' then 7 else if p = ''/h/.ucgrc'' then 6 else -1,
      fs_fstat = \<lambda>fd. Some \<lparr>st_dev = 1, st_ino = if fd = 5 then 2 else 3, st_mode = 0, st_size = 0,
        st_blksize = 0, st_blocks = 0\<rparr>\<rparr>
     (Some ''/h'') None (Some ''/h/p'') = Some []"
proof (rule GetProjectRCFilename_home_stops [where k = 1])
  have d: "dir_iter 1 ''/h/p'' = ''/h''"
    by (simp add: dir_iter_def portable_dirname_def glibc_dirname_def strip_trailing_slashes_def)
  then show "is_home
     \<lparr>fs_open = \<lambda>p. if p = ''/h'' then 5 else if p = ''/h/p'' then 7 else if p = ''/h/.ucgrc'' then 6 else -1,
      fs_fstat = \<lambda>fd. Some \<lparr>st_dev = 1, st_ino = if fd = 5 then 2 else 3, st_mode = 0, st_size = 0,
        st_blksize = 0, st_blocks = 0\<rparr>\<rparr>
     (project_home_fd
       \<lparr>fs_open = \<lambda>p. if p = ''/h'' then 5 else if p = ''/h/p'' then 7 else if p = ''/h/.ucgrc'' then 6 else -1,
        fs_fstat = \<lambda>fd. Some \<lparr>st_dev = 1, st_ino = if fd = 5 then 2 else 3, st_mode = 0, st_size = 0,
          st_blksize = 0, st_blocks = 0\<rparr>\<rparr>
       (GetUserHomeDir (Some ''/h'') None)) (dir_iter 1 ''/h/p'')"
    by (simp add: is_home_def is_same_file_def project_home_fd_def GetUserHomeDir_def)
qed (simp add: walk_continues_def is_home_def is_same_file_def project_home_fd_def GetUserHomeDir_def
       rc_candidate_def dir_iter_def)

text \<open>
  C27. When the current directory is \<open>//\<close> (a \<open>$PWD\<close> of \<open>//\<close> is kept by
  \<open>get_current_dir_name\<close>) and neither \<open>//.ucgrc\<close> exists nor \<open>//\<close> is home,
  the loop never ends: \<open>dirname("//")\<close> is \<open>//\<close> again and the root test only
  accepts a one-byte name.
\<close>

theorem GetProjectRCFilename_double_slash:
  assumes "fs_open fs ''//.ucgrc'' = -1"
    and "\<not> is_home fs (project_home_fd fs (GetUserHomeDir env_home pw_dir)) ''//''"
  shows "GetProjectRCFilename fs env_home pw_dir (Some ''//'') = None"
  unfolding GetProjectRCFilename_walk using assms by (rule project_rc_walk_double_slash)

theorem GetProjectRCFilename_double_slash_witness:
  "GetProjectRCFilename \<lparr>fs_open = \<lambda>_. -1, fs_fstat = \<lambda>_. None\<rparr> None None (Some ''//'') = None"
  by (rule GetProjectRCFilename_double_slash) (simp_all add: GetUserHomeDir_def project_home_fd_none is_home_closed)

end
