(* ===== verification/FileID.thy ===== *)
theory FileID
  imports FileSystem
begin

text \<open>
  \<open>FileID\<close> (\<open>src/src/libext/FileID.cpp\<close>): an entry of the directory tree,
  known by a basename relative to a parent \<open>FileID\<close> or by a full path, whose
  path, \<open>stat\<close> information and descriptor are computed on first use and cached
  in the object. Parents are shared (\<open>std::shared_ptr\<close>) and a child's
  \<open>UnsyncedGetPath\<close> caches into its parent as well, so the objects live in an
  explicit store from references to \<open>file_id\<close> records, and every operation
  takes the store and returns it updated. A dangling parent reference (a null
  \<open>m_at_dir\<close> dereference) and a parent chain that never ends are both the
  value \<open>None\<close> of the \<open>partial_function (option)\<close> definitions. The mutex
  of \<open>GetPath\<close> only serialises the calls and is not modelled.
\<close>

unbundle bit_operations_syntax

section \<open>State\<close>

text \<open>
  \<open>FileID::FileType\<close> (declared in \<open>FileID.h\<close>, outside \<open>src/\<close>): the
  kinds of the specification, with \<open>FT_UNINITIALIZED\<close> before \<open>stat\<close>.
\<close>

datatype file_type = FT_UNINITIALIZED | FT_UNKNOWN | FT_REG | FT_DIR | FT_SYMLINK | FT_STAT_FAILED

text \<open>
  The members of \<open>FileID\<close> with their default initialisers of \<open>FileID.h\<close>.
  \<open>m_at_dir\<close> is a reference into the store, \<open>None\<close> for a null
  \<open>shared_ptr\<close>; \<open>m_file_descriptor\<close> is \<open>None\<close> while it holds
  \<open>cm_invalid_file_descriptor\<close> and \<open>Some fd\<close> once a descriptor was
  stored (also a negative one).
\<close>

type_synonym fid_ref = nat

record file_id =
  m_basename :: bytes
  m_at_dir :: "fid_ref option"
  m_path :: bytes
  m_file_descriptor :: "int option"
  m_file_type :: file_type
  m_stat_info_valid :: bool
  m_dev :: dev_t
  m_unique_file_identifier :: dev_ino_pair_type
  m_size :: int
  m_block_size :: int
  m_blocks :: int

type_synonym fid_store = "fid_ref \<rightharpoonup> file_id"

definition fileid_default :: file_id where
  "fileid_default =
     \<lparr>m_basename = [], m_at_dir = None, m_path = [], m_file_descriptor = None,
      m_file_type = FT_UNINITIALIZED, m_stat_info_valid = False, m_dev = 0,
      m_unique_file_identifier = 0, m_size = 0, m_block_size = 0, m_blocks = 0\<rparr>"

text \<open>\<open>AT_FDCWD\<close> of Linux \<open>fcntl.h\<close>, and \<open>IsAtFDCWD\<close> of \<open>FileID.h\<close>.\<close>

definition AT_FDCWD :: int where
  "AT_FDCWD = -100"

definition IsAtFDCWD :: "file_id \<Rightarrow> bool" where
  "IsAtFDCWD f \<longleftrightarrow> m_file_descriptor f = Some AT_FDCWD"

section \<open>Constructors\<close>

text \<open>\<open>FileID(path_known_cwd_tag)\<close> (lines 31--33).\<close>

definition FileID_cwd :: file_id where
  "FileID_cwd = fileid_default\<lparr>m_basename := ''.'', m_path := ''.'',
     m_file_descriptor := Some AT_FDCWD, m_file_type := FT_DIR\<rparr>"

text \<open>\<open>FileID(path_known_relative_tag, at_dir, basename, type)\<close> (lines 35--42).\<close>

definition FileID_relative :: "fid_ref \<Rightarrow> bytes \<Rightarrow> file_type \<Rightarrow> file_id" where
  "FileID_relative at_dir basename type =
     fileid_default\<lparr>m_basename := basename, m_at_dir := Some at_dir, m_file_type := type\<rparr>"

text \<open>\<open>FileID(path_known_absolute_tag, at_dir, pathname, type)\<close> (lines 44--51).\<close>

definition FileID_absolute :: "fid_ref \<Rightarrow> bytes \<Rightarrow> file_type \<Rightarrow> file_id" where
  "FileID_absolute at_dir pathname type =
     fileid_default\<lparr>m_basename := pathname, m_at_dir := Some at_dir, m_path := pathname,
       m_file_type := type\<rparr>"

text \<open>\<open>FileID(at_dir, pathname)\<close> (lines 53--65): the path is known when absolute.\<close>

definition FileID_at :: "fid_ref \<Rightarrow> bytes \<Rightarrow> file_id" where
  "FileID_at at_dir pathname =
     (let f = fileid_default\<lparr>m_basename := pathname, m_at_dir := Some at_dir\<rparr> in
      if is_pathname_absolute pathname then f\<lparr>m_path := pathname\<rparr> else f)"

text \<open>\<open>FileID(const dirent*)\<close> (lines 67--70) initialises nothing.\<close>

definition FileID_dirent :: file_id where
  "FileID_dirent = fileid_default"

text \<open>
  \<open>FileID(const FTSENT*)\<close> (lines 72--83): the path from \<open>fts_path\<close>, and the
  \<open>stat\<close> fields when \<open>fts_statp\<close> is not null. \<open>m_file_type\<close> and
  \<open>m_dev\<close> are not set.
\<close>

definition FileID_ftsent :: "bytes \<Rightarrow> stat_buf option \<Rightarrow> file_id" where
  "FileID_ftsent fts_path fts_statp =
     (let f = fileid_default\<lparr>m_path := fts_path\<rparr> in
      case fts_statp of
        None \<Rightarrow> f
      | Some s \<Rightarrow> f\<lparr>m_stat_info_valid := True,
                   m_unique_file_identifier := dev_ino_pair (st_dev s) (st_ino s),
                   m_size := st_size s, m_block_size := st_blksize s, m_blocks := st_blocks s\<rparr>)"

section \<open>The path\<close>

text \<open>
  \<open>UnsyncedGetPath\<close> (lines 96--114), which \<open>GetPath\<close> (lines 90--94) calls
  under the mutex: a cached path is returned; otherwise the parent's path, a slash and
  the basename, or the basename alone when the parent is the current directory; the
  result is stored in \<open>m_path\<close>. The parent's own path is cached on the way.
\<close>

partial_function (option) UnsyncedGetPath :: "fid_store \<Rightarrow> fid_ref \<Rightarrow> (bytes \<times> fid_store) option" where
  "UnsyncedGetPath st r =
     (case st r of
        None \<Rightarrow> None
      | Some f \<Rightarrow>
          if m_path f \<noteq> [] then Some (m_path f, st)
          else
            (case m_at_dir f of
               None \<Rightarrow> None
             | Some a \<Rightarrow>
                 (case st a of
                    None \<Rightarrow> None
                  | Some af \<Rightarrow>
                      if \<not> IsAtFDCWD af then
                        Option.bind (UnsyncedGetPath st a) (\<lambda>(at_path, st1).
                           let p = at_path @ ''/'' @ m_basename f in
                           Some (p, st1(r \<mapsto> f\<lparr>m_path := p\<rparr>)))
                      else Some (m_basename f, st(r \<mapsto> f\<lparr>m_path := m_basename f\<rparr>)))))"

definition GetPath :: "fid_store \<Rightarrow> fid_ref \<Rightarrow> (bytes \<times> fid_store) option" where
  "GetPath st r = UnsyncedGetPath st r"

section \<open>Accessors that throw\<close>

text \<open>
  The errors of the model: \<open>runtime_error\<close> as thrown, and
  \<open>std::terminate\<close>, which is what a \<open>throw\<close> out of a \<open>noexcept\<close> function
  becomes.
\<close>

datatype fileid_error = RuntimeError bytes | Terminate bytes

text \<open>
  \<open>GetAtDirCRef\<close> (lines 116--123) and \<open>GetAtDirRelativeBasename\<close>
  (lines 125--132) throw \<open>runtime_error\<close>, but both are declared
  \<open>noexcept\<close>, so the throw ends the program.
\<close>

definition GetAtDirCRef :: "file_id \<Rightarrow> fileid_error + fid_ref" where
  "GetAtDirCRef f = (case m_at_dir f of None \<Rightarrow> Inl (Terminate ''no atdir'') | Some a \<Rightarrow> Inr a)"

definition GetAtDirRelativeBasename :: "file_id \<Rightarrow> fileid_error + bytes" where
  "GetAtDirRelativeBasename f =
     (if m_basename f = [] then Inl (Terminate ''basename was empty'') else Inr (m_basename f))"

section \<open>\<open>stat\<close> information\<close>

text \<open>
  The file-type macros of \<open>sys/stat.h\<close> on the 32-bit \<open>st_mode\<close>:
  \<open>S_IFMT = 0170000\<close>, \<open>S_IFREG = 0100000\<close>, \<open>S_IFDIR = 0040000\<close>,
  \<open>S_IFLNK = 0120000\<close> (octal).
\<close>

definition S_ISREG :: "32 word \<Rightarrow> bool" where
  "S_ISREG m \<longleftrightarrow> m AND 61440 = 32768"

definition S_ISDIR :: "32 word \<Rightarrow> bool" where
  "S_ISDIR m \<longleftrightarrow> m AND 61440 = 16384"

definition S_ISLNK :: "32 word \<Rightarrow> bool" where
  "S_ISLNK m \<longleftrightarrow> m AND 61440 = 40960"

text \<open>The decoding of \<open>st_mode\<close> in \<open>LazyLoadStatInfo\<close> (lines 171--188).\<close>

definition mode_file_type :: "32 word \<Rightarrow> file_type" where
  "mode_file_type m =
     (if S_ISREG m then FT_REG else if S_ISDIR m then FT_DIR
      else if S_ISLNK m then FT_SYMLINK else FT_UNKNOWN)"

text \<open>
  The effect of the \<open>stat\<close> call on the object (lines 161--195): on failure only
  the type \<open>FT_STAT_FAILED\<close>, on success the valid flag, the type and the
  identity and size fields.
\<close>

definition stat_result :: "stat_buf option \<Rightarrow> file_id \<Rightarrow> file_id" where
  "stat_result sb f =
     (case sb of
        None \<Rightarrow> f\<lparr>m_file_type := FT_STAT_FAILED\<rparr>
      | Some s \<Rightarrow> f\<lparr>m_stat_info_valid := True, m_file_type := mode_file_type (st_mode s),
                   m_dev := st_dev s, m_unique_file_identifier := dev_ino_pair (st_dev s) (st_ino s),
                   m_size := st_size s, m_block_size := st_blksize s, m_blocks := st_blocks s\<rparr>)"

text \<open>
  \<open>LazyLoadStatInfo\<close> (lines 151--196): nothing when the information is valid,
  otherwise \<open>stat\<close> of \<open>GetPath()\<close>; \<open>stat\<close> is a function from paths to
  results, \<open>None\<close> for a failed call.
\<close>

definition LazyLoadStatInfo ::
  "(bytes \<Rightarrow> stat_buf option) \<Rightarrow> fid_store \<Rightarrow> fid_ref \<Rightarrow> fid_store option" where
  "LazyLoadStatInfo stat st r =
     (case st r of
        None \<Rightarrow> None
      | Some f \<Rightarrow>
          if m_stat_info_valid f then Some st
          else
            (case GetPath st r of
               None \<Rightarrow> None
             | Some (p, st1) \<Rightarrow>
                 (case st1 r of
                    None \<Rightarrow> None
                  | Some f1 \<Rightarrow> Some (st1(r \<mapsto> stat_result (stat p) f1)))))"

text \<open>\<open>GetFileType\<close> (lines 134--143): \<open>stat\<close> only while the type is unknown.\<close>

definition GetFileType ::
  "(bytes \<Rightarrow> stat_buf option) \<Rightarrow> fid_store \<Rightarrow> fid_ref \<Rightarrow> (file_type \<times> fid_store) option" where
  "GetFileType stat st r =
     (case st r of
        None \<Rightarrow> None
      | Some f \<Rightarrow>
          if m_file_type f = FT_UNINITIALIZED then
            (case LazyLoadStatInfo stat st r of
               None \<Rightarrow> None
             | Some st1 \<Rightarrow> map_option (\<lambda>f1. (m_file_type f1, st1)) (st1 r))
          else Some (m_file_type f, st))"

text \<open>\<open>SetDevIno\<close> (lines 145--149).\<close>

definition SetDevIno :: "dev_t \<Rightarrow> ino_t \<Rightarrow> file_id \<Rightarrow> file_id" where
  "SetDevIno d i f = f\<lparr>m_dev := d, m_unique_file_identifier := dev_ino_pair d i\<rparr>"

section \<open>The descriptor\<close>

text \<open>
  Storing a descriptor returned by \<open>openat\<close> (lines 209, 213 and 216--219): the
  descriptor is kept in \<open>m_file_descriptor\<close> before the test, so a failed
  \<open>openat\<close> leaves its negative result cached when \<open>Bad fd\<close> is thrown.
\<close>

definition store_fd :: "fid_store \<Rightarrow> fid_ref \<Rightarrow> file_id \<Rightarrow> int \<Rightarrow> (fileid_error + int) \<times> fid_store" where
  "store_fd st r f fd =
     (let st' = st(r \<mapsto> f\<lparr>m_file_descriptor := Some fd\<rparr>) in
      if fd < 0 then (Inl (RuntimeError ''Bad fd''), st') else (Inr fd, st'))"

text \<open>
  \<open>GetFileDescriptor\<close> (lines 198--223): a stored descriptor is returned;
  otherwise the path is opened from the current directory when the basename is empty
  and the path known, else the basename is opened at the parent's descriptor, which is
  obtained (and opened) first. \<open>openat\<close> is a function of the directory
  descriptor and the name, with the directory-search flags of the source.
\<close>

partial_function (option) GetFileDescriptor ::
  "(int \<Rightarrow> bytes \<Rightarrow> int) \<Rightarrow> fid_store \<Rightarrow> fid_ref \<Rightarrow> ((fileid_error + int) \<times> fid_store) option" where
  "GetFileDescriptor openat st r =
     (case st r of
        None \<Rightarrow> None
      | Some f \<Rightarrow>
          (case m_file_descriptor f of
             Some fd \<Rightarrow> Some (Inr fd, st)
           | None \<Rightarrow>
               if m_basename f = [] \<and> m_path f \<noteq> [] then
                 Some (store_fd st r f (openat AT_FDCWD (m_path f)))
               else
                 (case m_at_dir f of
                    None \<Rightarrow> None
                  | Some a \<Rightarrow>
                      Option.bind (GetFileDescriptor openat st a) (\<lambda>(res, st1).
                        case res of
                          Inl e \<Rightarrow> Some (Inl e, st1)
                        | Inr at_fd \<Rightarrow> Some (store_fd st1 r f (openat at_fd (m_basename f)))))))"


section \<open>Sequences of operations\<close>

text \<open>
  The operations other code calls on a \<open>FileID\<close> in the store, and their
  effect on it; a failed or thrown operation keeps the store it left (a descriptor
  cached before \<open>Bad fd\<close>). A run is a sequence of them, as the threads of the
  traversal and of the scanners issue them (each under the locks of the source).
\<close>

datatype fid_op = OpGetPath fid_ref | OpGetFileType fid_ref | OpGetFileDescriptor fid_ref
  | OpSetDevIno fid_ref dev_t ino_t

definition fid_exec ::
  "(bytes \<Rightarrow> stat_buf option) \<Rightarrow> (int \<Rightarrow> bytes \<Rightarrow> int) \<Rightarrow> fid_store \<Rightarrow> fid_op \<Rightarrow> fid_store option" where
  "fid_exec stat openat st op =
     (case op of
        OpGetPath r \<Rightarrow> map_option snd (GetPath st r)
      | OpGetFileType r \<Rightarrow> map_option snd (GetFileType stat st r)
      | OpGetFileDescriptor r \<Rightarrow> map_option snd (GetFileDescriptor openat st r)
      | OpSetDevIno r d i \<Rightarrow> map_option (\<lambda>f. st(r \<mapsto> SetDevIno d i f)) (st r))"

primrec fid_run ::
  "(bytes \<Rightarrow> stat_buf option) \<Rightarrow> (int \<Rightarrow> bytes \<Rightarrow> int) \<Rightarrow> fid_store \<Rightarrow> fid_op list \<Rightarrow> fid_store option" where
  "fid_run stat openat st [] = Some st"
| "fid_run stat openat st (op # ops) = Option.bind (fid_exec stat openat st op) (\<lambda>st'. fid_run stat openat st' ops)"

section \<open>The path the specification describes\<close>

text \<open>
  The path an entry denotes, as the specification (4.C) describes \<open>path()\<close>:
  the path given at construction, or the parent's path, a slash and the basename, or
  the basename under the current directory. It is the reference the cached
  computation is compared with.
\<close>

inductive path_rel :: "fid_store \<Rightarrow> fid_ref \<Rightarrow> bytes \<Rightarrow> bool" where
  known: "st r = Some f \<Longrightarrow> m_path f \<noteq> [] \<Longrightarrow> path_rel st r (m_path f)"
| cwd_child: "st r = Some f \<Longrightarrow> m_path f = [] \<Longrightarrow> m_at_dir f = Some a \<Longrightarrow> st a = Some af \<Longrightarrow>
    IsAtFDCWD af \<Longrightarrow> path_rel st r (m_basename f)"
| child: "st r = Some f \<Longrightarrow> m_path f = [] \<Longrightarrow> m_at_dir f = Some a \<Longrightarrow> st a = Some af \<Longrightarrow>
    \<not> IsAtFDCWD af \<Longrightarrow> path_rel st a ap \<Longrightarrow> path_rel st r (ap @ ''/'' @ m_basename f)"

code_pred path_rel .

section \<open>Relations used by the proofs\<close>

text \<open>
  How the store after some operations relates to the store before: every entry keeps
  its parent, its basename and whether it is the current directory, and keeps its path
  or has an empty path filled with the path it denotes (\<open>path_rel\<close>).
\<close>

definition cache_ok :: "fid_store \<Rightarrow> fid_store \<Rightarrow> bool" where
  "cache_ok st st' \<longleftrightarrow>
     (\<forall>x. case st x of
           None \<Rightarrow> st' x = None
         | Some f \<Rightarrow> (\<exists>f'. st' x = Some f' \<and> m_at_dir f' = m_at_dir f \<and> m_basename f' = m_basename f \<and>
              IsAtFDCWD f' = IsAtFDCWD f \<and>
              (m_path f' = m_path f \<or> (m_path f = [] \<and> path_rel st x (m_path f')))))"


text \<open>
  A well-formed store: a parent reference names an entry created earlier (a
  \<open>shared_ptr\<close> to a \<open>FileID\<close> that exists when the child is constructed),
  and an entry without a parent knows its path (\<open>FileID_cwd\<close>, or an
  absolute path).
\<close>

definition wf_store :: "fid_store \<Rightarrow> bool" where
  "wf_store st \<longleftrightarrow>
     (\<forall>r f. st r = Some f \<longrightarrow>
        (case m_at_dir f of None \<Rightarrow> m_path f \<noteq> [] | Some a \<Rightarrow> a < r \<and> a \<in> dom st))"


text \<open>
  What \<open>GetFileDescriptor\<close> changes: descriptors only, and only from
  \<open>cm_invalid_file_descriptor\<close> to a result of \<open>openat\<close>.
\<close>

definition fd_only :: "(int \<Rightarrow> bytes \<Rightarrow> int) \<Rightarrow> fid_store \<Rightarrow> fid_store \<Rightarrow> bool" where
  "fd_only openat st st' \<longleftrightarrow>
     (\<forall>x. map_option (\<lambda>f. f\<lparr>m_file_descriptor := None\<rparr>) (st' x) =
          map_option (\<lambda>f. f\<lparr>m_file_descriptor := None\<rparr>) (st x) \<and>
        (\<forall>f f'. st x = Some f \<longrightarrow> st' x = Some f' \<longrightarrow> m_file_descriptor f' = m_file_descriptor f \<or>
           (m_file_descriptor f = None \<and> (\<exists>d n. m_file_descriptor f' = Some (openat d n)))))"


text \<open>
  What \<open>GetPath\<close> changes (cached paths only), and the write-once discipline of
  the lazily filled fields: a known type, descriptor or path is kept.
\<close>

definition path_only :: "fid_store \<Rightarrow> fid_store \<Rightarrow> bool" where
  "path_only st st' \<longleftrightarrow>
     (\<forall>x. map_option (\<lambda>f. f\<lparr>m_path := []\<rparr>) (st' x) = map_option (\<lambda>f. f\<lparr>m_path := []\<rparr>) (st x))"

definition write_once :: "fid_store \<Rightarrow> fid_store \<Rightarrow> bool" where
  "write_once st st' \<longleftrightarrow>
     (\<forall>x f. st x = Some f \<longrightarrow> (\<exists>f'. st' x = Some f' \<and>
        (m_file_type f \<noteq> FT_UNINITIALIZED \<longrightarrow> m_file_type f' = m_file_type f) \<and>
        (m_file_descriptor f \<noteq> None \<longrightarrow> m_file_descriptor f' = m_file_descriptor f) \<and>
        (m_path f \<noteq> [] \<longrightarrow> m_path f' = m_path f)))"


text \<open>
  A store for the examples: the current directory (0), the directory \<open>a\<close>
  below it (1) and \<open>b\<close> in \<open>a\<close> (2); \<open>stat\<close> finds \<open>a/b\<close>, a regular
  file (mode \<open>0100644\<close>).
\<close>

definition example_store :: fid_store where
  "example_store = [0 \<mapsto> FileID_cwd, 1 \<mapsto> FileID_relative 0 ''a'' FT_DIR,
     2 \<mapsto> FileID_relative 1 ''b'' FT_UNINITIALIZED]"


definition example_stat :: "bytes \<Rightarrow> stat_buf option" where
  "example_stat p = (if p = ''a/b'' then Some \<lparr>st_dev = 1, st_ino = 2, st_mode = 33188, st_size = 10,
     st_blksize = 4096, st_blocks = 8\<rparr> else None)"


section \<open>Properties\<close>

lemma path_rel_child_Cons:
  "st r = Some f \<Longrightarrow> m_path f = [] \<Longrightarrow> m_at_dir f = Some a \<Longrightarrow> st a = Some af \<Longrightarrow>
    \<not> IsAtFDCWD af \<Longrightarrow> path_rel st a ap \<Longrightarrow> path_rel st r (ap @ CHR ''/'' # m_basename f)"
  using path_rel.child by fastforce


lemma UnsyncedGetPath_sound:
  assumes "UnsyncedGetPath st r = Some (p, st')"
  shows "path_rel st r p"
  apply (rule UnsyncedGetPath.raw_induct [where P = "\<lambda>st r res. path_rel st r (fst res)", OF _ assms, simplified])
  subgoal premises prems for g st r res
    using prems(2)
    by (auto split: option.splits if_splits prod.splits simp: Let_def bind_eq_Some_conv
        intro: path_rel.intros path_rel_child_Cons dest!: prems(1) [simplified])
  done


lemma UnsyncedGetPath_complete:
  assumes "path_rel st r p"
  shows "\<exists>st'. UnsyncedGetPath st r = Some (p, st')"
  using assms
proof induction
  case (known r f)
  then show ?case by (subst UnsyncedGetPath.simps) simp
next
  case (cwd_child r f a af)
  then show ?case by (subst UnsyncedGetPath.simps) simp
next
  case (child r f a af ap)
  then show ?case by (subst UnsyncedGetPath.simps) (auto simp: Let_def)
qed


lemma path_rel_det:
  assumes "path_rel st r p" and "path_rel st r q"
  shows "p = q"
  using assms
proof (induction arbitrary: q)
  case (known st r f)
  from known.prems show ?case
  proof (cases rule: path_rel.cases)
    case (known f')
    then show ?thesis using known.hyps by simp
  qed (use known.hyps in simp_all)
next
  case (cwd_child st r f a af)
  from cwd_child.prems show ?case
  proof (cases rule: path_rel.cases)
    case (cwd_child f' a' af')
    then show ?thesis using cwd_child.hyps by simp
  next
    case (child f' a' af' ap')
    then show ?thesis using cwd_child.hyps by simp
  qed (use cwd_child.hyps in simp_all)
next
  case (child st r f a af ap)
  from child.prems show ?case
  proof (cases rule: path_rel.cases)
    case (cwd_child f' a' af')
    then show ?thesis using child.hyps by simp
  next
    case (child f' a' af' ap')
    then have "ap = ap'" using child.hyps child.IH by simp
    then show ?thesis using child child.hyps by simp
  qed (use child.hyps in simp_all)
qed


lemma cache_ok_refl: "cache_ok st st"
  by (auto simp: cache_ok_def split: option.splits)


lemma cache_okD:
  "cache_ok st st' \<Longrightarrow> (case st x of
           None \<Rightarrow> st' x = None
         | Some f \<Rightarrow> (\<exists>f'. st' x = Some f' \<and> m_at_dir f' = m_at_dir f \<and> m_basename f' = m_basename f \<and>
              IsAtFDCWD f' = IsAtFDCWD f \<and>
              (m_path f' = m_path f \<or> (m_path f = [] \<and> path_rel st x (m_path f')))))"
  unfolding cache_ok_def by blast


lemma cache_ok_update:
  assumes "cache_ok st st1" and "st r = Some f"
    and "m_at_dir g = m_at_dir f" and "m_basename g = m_basename f" and "IsAtFDCWD g = IsAtFDCWD f"
    and "m_path g = m_path f \<or> (m_path f = [] \<and> path_rel st r (m_path g))"
  shows "cache_ok st (st1(r \<mapsto> g))"
  unfolding cache_ok_def
proof (rule allI)
  fix x
  show "case st x of
           None \<Rightarrow> (st1(r \<mapsto> g)) x = None
         | Some f \<Rightarrow> (\<exists>f'. (st1(r \<mapsto> g)) x = Some f' \<and> m_at_dir f' = m_at_dir f \<and> m_basename f' = m_basename f \<and>
              IsAtFDCWD f' = IsAtFDCWD f \<and>
              (m_path f' = m_path f \<or> (m_path f = [] \<and> path_rel st x (m_path f'))))"
    using cache_okD [OF assms(1), of x] assms(2-6) by (cases "x = r") (auto split: option.splits)
qed


lemma cache_ok_set_path:
  "cache_ok st st1 \<Longrightarrow> st r = Some f \<Longrightarrow> m_path f = [] \<Longrightarrow> path_rel st r p \<Longrightarrow>
    cache_ok st (st1(r \<mapsto> f\<lparr>m_path := p\<rparr>))"
  by (rule cache_ok_update) (simp_all add: IsAtFDCWD_def)+


lemma UnsyncedGetPath_cache:
  assumes "UnsyncedGetPath st r = Some (p, st')"
  shows "path_rel st r p \<and> cache_ok st st' \<and> (\<exists>f. st' r = Some f \<and> m_path f = p) \<and> (p = [] \<longrightarrow> st' = st)"
  apply (rule UnsyncedGetPath.raw_induct [where P = "\<lambda>st r res. path_rel st r (fst res) \<and> cache_ok st (snd res) \<and>
      (\<exists>f. snd res r = Some f \<and> m_path f = fst res) \<and> (fst res = [] \<longrightarrow> snd res = st)", OF _ assms, simplified])
  subgoal premises prems for g st r res
  proof -
    obtain f where f: "st r = Some f"
      using prems(2) by (auto split: option.splits)
    consider (known) "m_path f \<noteq> []"
      | (cwd) a af where "m_path f = []" "m_at_dir f = Some a" "st a = Some af" "IsAtFDCWD af"
      | (child) a af where "m_path f = []" "m_at_dir f = Some a" "st a = Some af" "\<not> IsAtFDCWD af"
      using prems(2) f by (auto split: option.splits if_splits)
    then show ?thesis
    proof cases
      case known
      then have "res = (m_path f, st)"
        using prems(2) f by simp
      then show ?thesis
        using known f by (simp add: cache_ok_refl path_rel.known)
    next
      case cwd
      then have res: "res = (m_basename f, st(r \<mapsto> f\<lparr>m_path := m_basename f\<rparr>))"
        using prems(2) f by simp
      have pr: "path_rel st r (m_basename f)"
        using cwd f by (blast intro: path_rel.cwd_child)
      have "f\<lparr>m_path := []\<rparr> = f"
        using cwd(1) by (cases f) simp
      then have "m_basename f = [] \<Longrightarrow> st(r \<mapsto> f\<lparr>m_path := m_basename f\<rparr>) = st"
        using f by (simp add: fun_upd_idem)
      then show ?thesis
        using res pr cache_ok_set_path [OF cache_ok_refl f cwd(1) pr] by simp
    next
      case child
      then obtain ap st1 where g: "g st a = Some (ap, st1)"
        and res: "res = (ap @ ''/'' @ m_basename f, st1(r \<mapsto> f\<lparr>m_path := ap @ ''/'' @ m_basename f\<rparr>))"
        using prems(2) f by (auto simp: bind_eq_Some_conv Let_def)
      have ih: "path_rel st a ap" "cache_ok st st1"
        using prems(1) [OF g] by auto
      have pr: "path_rel st r (ap @ ''/'' @ m_basename f)"
        using child f ih(1) by (blast intro: path_rel.child)
      show ?thesis
        using res pr cache_ok_set_path [OF ih(2) f child(1) pr] by simp
    qed
  qed
  done


lemma cache_ok_entry:
  assumes "cache_ok st st'"
  shows "(\<exists>f. st x = Some f) \<longleftrightarrow> (\<exists>f'. st' x = Some f')"
    and "st x = Some f \<Longrightarrow> st' x = Some f' \<Longrightarrow>
      m_at_dir f' = m_at_dir f \<and> m_basename f' = m_basename f \<and> IsAtFDCWD f' = IsAtFDCWD f \<and>
      (m_path f \<noteq> [] \<longrightarrow> m_path f' = m_path f) \<and> (m_path f' = [] \<longrightarrow> m_path f = []) \<and>
      (m_path f' \<noteq> [] \<longrightarrow> path_rel st x (m_path f'))"
  using cache_okD [OF assms, of x]
  by (auto split: option.splits intro: path_rel.known)


lemma cache_ok_path_rel_old:
  assumes "path_rel st x q" and "cache_ok st st'"
  shows "path_rel st' x q"
  using assms
proof induction
  case (known st r f)
  obtain f' where f': "st' r = Some f'"
    using cache_ok_entry(1) [OF known.prems, of r] known.hyps by auto
  then show ?case
    using cache_ok_entry(2) [OF known.prems known.hyps(1) f'] known.hyps path_rel.known [of st' r f', OF f'] by auto
next
  case (cwd_child st r f a af)
  obtain f' af' where f': "st' r = Some f'" and af': "st' a = Some af'"
    using cache_ok_entry(1) [OF cwd_child.prems] cwd_child.hyps by blast
  note e = cache_ok_entry(2) [OF cwd_child.prems cwd_child.hyps(1) f']
    cache_ok_entry(2) [OF cwd_child.prems cwd_child.hyps(4) af']
  show ?case
  proof (cases "m_path f' = []")
    case True
    then show ?thesis
      using e cwd_child.hyps f' af' path_rel.cwd_child [of st' r f' a af'] by auto
  next
    case False
    then have "m_path f' = m_basename f"
      using e path_rel_det path_rel.cwd_child [OF cwd_child.hyps] by blast
    then show ?thesis
      using False path_rel.known [of st' r f', OF f'] by simp
  qed
next
  case (child st r f a af ap)
  obtain f' af' where f': "st' r = Some f'" and af': "st' a = Some af'"
    using cache_ok_entry(1) [OF child.prems] child.hyps by blast
  note e = cache_ok_entry(2) [OF child.prems child.hyps(1) f']
    cache_ok_entry(2) [OF child.prems child.hyps(4) af']
  show ?case
  proof (cases "m_path f' = []")
    case True
    then show ?thesis
      using e child.hyps child.IH [OF child.prems] f' af' path_rel.child [of st' r f' a af' ap] by auto
  next
    case False
    then have "m_path f' = ap @ ''/'' @ m_basename f"
      using e path_rel_det path_rel.child [OF child.hyps(1-6)] by blast
    then show ?thesis
      using False path_rel.known [of st' r f', OF f'] by simp
  qed
qed


lemma cache_ok_path_rel_new:
  assumes "path_rel st' x q" and "cache_ok st st'"
  shows "path_rel st x q"
  using assms
proof induction
  case (known st' r f')
  obtain f where f: "st r = Some f"
    using cache_ok_entry(1) [OF known.prems, of r] known.hyps by auto
  then show ?case
    using cache_ok_entry(2) [OF known.prems f known.hyps(1)] known.hyps by auto
next
  case (cwd_child st' r f' a af')
  obtain f af where f: "st r = Some f" and af: "st a = Some af"
    using cache_ok_entry(1) [OF cwd_child.prems] cwd_child.hyps by blast
  then show ?case
    using cache_ok_entry(2) [OF cwd_child.prems f cwd_child.hyps(1)]
      cache_ok_entry(2) [OF cwd_child.prems af cwd_child.hyps(4)] cwd_child.hyps
      path_rel.cwd_child [of st r f a af] by auto
next
  case (child st' r f' a af' ap)
  obtain f af where f: "st r = Some f" and af: "st a = Some af"
    using cache_ok_entry(1) [OF child.prems] child.hyps by blast
  then show ?case
    using cache_ok_entry(2) [OF child.prems f child.hyps(1)]
      cache_ok_entry(2) [OF child.prems af child.hyps(4)] child.hyps child.IH [OF child.prems]
      path_rel.child [of st r f a af ap] by auto
qed


lemma cache_ok_path_rel: "cache_ok st st' \<Longrightarrow> path_rel st' x q \<longleftrightarrow> path_rel st x q"
  using cache_ok_path_rel_old cache_ok_path_rel_new by blast


lemma wf_store_path_rel:
  assumes "wf_store st" and "st r = Some f"
  shows "\<exists>p. path_rel st r p"
  using assms(2)
proof (induction r arbitrary: f rule: less_induct)
  case (less r)
  have w: "case m_at_dir f of None \<Rightarrow> m_path f \<noteq> [] | Some a \<Rightarrow> a < r \<and> a \<in> dom st"
    using assms(1) less.prems unfolding wf_store_def by blast
  show ?case
  proof (cases "m_path f = []")
    case False
    then show ?thesis using less.prems path_rel.known by blast
  next
    case True
    then obtain a af where a: "m_at_dir f = Some a" "a < r" "st a = Some af"
      using w by (auto split: option.splits)
    show ?thesis
    proof (cases "IsAtFDCWD af")
      case True
      then show ?thesis using less.prems \<open>m_path f = []\<close> a path_rel.cwd_child by blast
    next
      case False
      obtain ap where "path_rel st a ap"
        using less.IH [OF a(2) a(3)] by blast
      then show ?thesis using less.prems \<open>m_path f = []\<close> a False path_rel.child by blast
    qed
  qed
qed


lemma fd_only_refl: "fd_only openat st st"
  by (simp add: fd_only_def)


lemma store_fd_fd_only:
  assumes "fd_only openat st st1" and "st r = Some f" and "m_file_descriptor f = None"
  shows "fd_only openat st (snd (store_fd st1 r f (openat d n)))"
  using assms unfolding fd_only_def store_fd_def Let_def by auto


lemma GetFileDescriptor_fd_only:
  assumes "GetFileDescriptor openat st r = Some (res, st')"
  shows "fd_only openat st st'"
  apply (rule GetFileDescriptor.raw_induct [where P = "\<lambda>openat st r res. fd_only openat st (snd res)", OF _ assms, simplified])
  subgoal premises prems for g openat st r res
  proof -
    obtain f where f: "st r = Some f"
      using prems(2) by (auto split: option.splits)
    consider (cached) fd where "res = (Inr fd, st)"
      | (cwd) "m_file_descriptor f = None" "res = store_fd st r f (openat AT_FDCWD (m_path f))"
      | (parent) a res1 st1 where "m_file_descriptor f = None" "g openat st a = Some (res1, st1)"
          "(case res1 of Inl e \<Rightarrow> Some (Inl e, st1) | Inr at_fd \<Rightarrow> Some (store_fd st1 r f (openat at_fd (m_basename f)))) = Some res"
      using prems(2) f by (auto split: option.splits if_splits simp: bind_eq_Some_conv)
    then show ?thesis
    proof cases
      case cached
      then show ?thesis by (simp add: fd_only_refl)
    next
      case cwd
      then show ?thesis using store_fd_fd_only [of openat st st r f, OF fd_only_refl f] by simp
    next
      case parent
      then have "fd_only openat st st1"
        using prems(1) by fastforce
      then show ?thesis
        using parent(1,3) store_fd_fd_only [of openat st st1 r f] f by (cases res1) auto
    qed
  qed
  done


lemma fd_only_cache_ok:
  assumes "\<forall>d n. openat d n \<noteq> AT_FDCWD" and "fd_only openat st st'"
  shows "cache_ok st st'"
  unfolding cache_ok_def
proof (rule allI)
  fix x
  have e: "map_option (\<lambda>f. f\<lparr>m_file_descriptor := None\<rparr>) (st' x) =
      map_option (\<lambda>f. f\<lparr>m_file_descriptor := None\<rparr>) (st x)"
    and d: "\<And>f f'. st x = Some f \<Longrightarrow> st' x = Some f' \<Longrightarrow> m_file_descriptor f' = m_file_descriptor f \<or>
           (m_file_descriptor f = None \<and> (\<exists>d n. m_file_descriptor f' = Some (openat d n)))"
    using assms(2) unfolding fd_only_def by blast+
  show "case st x of
           None \<Rightarrow> st' x = None
         | Some f \<Rightarrow> (\<exists>f'. st' x = Some f' \<and> m_at_dir f' = m_at_dir f \<and> m_basename f' = m_basename f \<and>
              IsAtFDCWD f' = IsAtFDCWD f \<and>
              (m_path f' = m_path f \<or> (m_path f = [] \<and> path_rel st x (m_path f'))))"
  proof (cases "st x")
    case None
    then show ?thesis using e by simp
  next
    case (Some f)
    then obtain f' where f': "st' x = Some f'" and ff: "f'\<lparr>m_file_descriptor := None\<rparr> = f\<lparr>m_file_descriptor := None\<rparr>"
      using e by (cases "st' x") auto
    have "m_at_dir (f'\<lparr>m_file_descriptor := None\<rparr>) = m_at_dir (f\<lparr>m_file_descriptor := None\<rparr>)"
      "m_basename (f'\<lparr>m_file_descriptor := None\<rparr>) = m_basename (f\<lparr>m_file_descriptor := None\<rparr>)"
      "m_path (f'\<lparr>m_file_descriptor := None\<rparr>) = m_path (f\<lparr>m_file_descriptor := None\<rparr>)"
      using ff by simp_all
    moreover have "IsAtFDCWD f' = IsAtFDCWD f"
    proof -
      have "AT_FDCWD \<noteq> openat d n" for d n
        using assms(1) by metis
      then show ?thesis
        using d [OF Some f'] by (auto simp: IsAtFDCWD_def)
    qed
    ultimately show ?thesis
      using Some f' by simp
  qed
qed


lemma cache_ok_trans:
  assumes "cache_ok st st1" and "cache_ok st1 st2"
  shows "cache_ok st st2"
  unfolding cache_ok_def
proof (rule allI)
  fix x
  show "case st x of
           None \<Rightarrow> st2 x = None
         | Some f \<Rightarrow> (\<exists>f'. st2 x = Some f' \<and> m_at_dir f' = m_at_dir f \<and> m_basename f' = m_basename f \<and>
              IsAtFDCWD f' = IsAtFDCWD f \<and>
              (m_path f' = m_path f \<or> (m_path f = [] \<and> path_rel st x (m_path f'))))"
    using cache_okD [OF assms(1), of x] cache_okD [OF assms(2), of x] cache_ok_path_rel [OF assms(1)]
    by (auto split: option.splits)
qed


lemma cache_ok_same_path:
  "cache_ok st st1 \<Longrightarrow> st1 r = Some f1 \<Longrightarrow> m_at_dir g = m_at_dir f1 \<Longrightarrow> m_basename g = m_basename f1 \<Longrightarrow>
    m_file_descriptor g = m_file_descriptor f1 \<Longrightarrow> m_path g = m_path f1 \<Longrightarrow> cache_ok st (st1(r \<mapsto> g))"
  by (erule cache_ok_trans, rule cache_ok_update [OF cache_ok_refl]) (simp_all add: IsAtFDCWD_def)+


lemma stat_result_fields:
  "m_at_dir (stat_result sb f) = m_at_dir f" "m_basename (stat_result sb f) = m_basename f"
  "m_file_descriptor (stat_result sb f) = m_file_descriptor f" "m_path (stat_result sb f) = m_path f"
  by (simp_all add: stat_result_def split: option.splits)


lemma mode_file_type_init: "mode_file_type m \<noteq> FT_UNINITIALIZED"
  by (simp add: mode_file_type_def)


lemma stat_result_type: "m_file_type (stat_result sb f) =
    (case sb of None \<Rightarrow> FT_STAT_FAILED | Some s \<Rightarrow> mode_file_type (st_mode s))"
  by (simp add: stat_result_def split: option.splits)


lemma GetPath_cache:
  "GetPath st r = Some (p, st') \<Longrightarrow>
    path_rel st r p \<and> cache_ok st st' \<and> (\<exists>f. st' r = Some f \<and> m_path f = p) \<and> (p = [] \<longrightarrow> st' = st)"
  unfolding GetPath_def by (rule UnsyncedGetPath_cache)


lemma LazyLoadStatInfo_cache_ok:
  assumes "LazyLoadStatInfo stat st r = Some st'"
  shows "cache_ok st st'"
proof -
  obtain f where f: "st r = Some f"
    using assms by (auto simp: LazyLoadStatInfo_def split: option.splits)
  show ?thesis
  proof (cases "m_stat_info_valid f")
    case True
    then show ?thesis using assms f by (simp add: LazyLoadStatInfo_def cache_ok_refl)
  next
    case False
    then obtain p st1 f1 where g: "GetPath st r = Some (p, st1)" and f1: "st1 r = Some f1"
      and st': "st' = st1(r \<mapsto> stat_result (stat p) f1)"
      using assms f by (auto simp: LazyLoadStatInfo_def split: option.splits)
    show ?thesis
      unfolding st' using GetPath_cache [OF g]
      by (intro cache_ok_same_path [of st st1 r f1, OF _ f1]) (simp_all add: stat_result_fields)
  qed
qed


lemma GetFileType_cache_ok:
  "GetFileType stat st r = Some (t, st') \<Longrightarrow> cache_ok st st'"
  by (auto simp: GetFileType_def cache_ok_refl split: option.splits if_splits dest: LazyLoadStatInfo_cache_ok)


lemma SetDevIno_cache_ok:
  "st r = Some f \<Longrightarrow> cache_ok st (st(r \<mapsto> SetDevIno d i f))"
  by (rule cache_ok_same_path [OF cache_ok_refl]) (simp_all add: SetDevIno_def)


lemma fid_exec_cache_ok:
  assumes "\<forall>d n. openat d n \<noteq> AT_FDCWD" and "fid_exec stat openat st op = Some st'"
  shows "cache_ok st st'"
  using assms
  by (cases op) (auto simp: fid_exec_def dest: GetPath_cache GetFileType_cache_ok SetDevIno_cache_ok
      intro: fd_only_cache_ok GetFileDescriptor_fd_only)


lemma fid_run_cache_ok:
  "\<forall>d n. openat d n \<noteq> AT_FDCWD \<Longrightarrow> fid_run stat openat st ops = Some st' \<Longrightarrow> cache_ok st st'"
proof (induction ops arbitrary: st)
  case Nil
  then show ?case by (simp add: cache_ok_refl)
next
  case (Cons op ops)
  then obtain st1 where "fid_exec stat openat st op = Some st1" "fid_run stat openat st1 ops = Some st'"
    by (auto simp: bind_eq_Some_conv)
  then show ?case
    using Cons fid_exec_cache_ok cache_ok_trans by blast
qed


lemma path_only_refl: "path_only st st"
  by (simp add: path_only_def)

lemma path_only_set_path:
  "path_only st st1 \<Longrightarrow> st r = Some f \<Longrightarrow> path_only st (st1(r \<mapsto> f\<lparr>m_path := p\<rparr>))"
  by (simp add: path_only_def)

lemma UnsyncedGetPath_path_only:
  assumes "UnsyncedGetPath st r = Some (p, st')"
  shows "path_only st st'"
  apply (rule UnsyncedGetPath.raw_induct [where P = "\<lambda>st r res. path_only st (snd res)", OF _ assms, simplified])
  subgoal premises prems for g st r res
    using prems(2)
    by (auto simp: path_only_refl bind_eq_Some_conv Let_def split: option.splits if_splits
        intro!: path_only_set_path dest!: prems(1))
  done

lemma write_once_refl: "write_once st st"
  by (auto simp: write_once_def)

lemma write_once_trans: "write_once st st1 \<Longrightarrow> write_once st1 st2 \<Longrightarrow> write_once st st2"
  unfolding write_once_def by metis

lemma fields_eq_mod_path:
  "f'\<lparr>m_path := []\<rparr> = f\<lparr>m_path := []\<rparr> \<Longrightarrow>
     m_file_type f' = m_file_type f \<and> m_file_descriptor f' = m_file_descriptor f"
  by (metis file_id.select_convs file_id.surjective file_id.update_convs(3))

lemma GetPath_write_once:
  assumes "GetPath st r = Some (p, st')"
  shows "write_once st st'"
  unfolding write_once_def
proof (intro allI impI)
  fix x f
  assume f: "st x = Some f"
  have po: "path_only st st'" and co: "cache_ok st st'"
    using UnsyncedGetPath_path_only GetPath_cache assms unfolding GetPath_def by blast+
  obtain f' where f': "st' x = Some f'" and e: "f'\<lparr>m_path := []\<rparr> = f\<lparr>m_path := []\<rparr>"
    using po f unfolding path_only_def by (metis map_option_eq_Some)
  show "\<exists>f'. st' x = Some f' \<and> (m_file_type f \<noteq> FT_UNINITIALIZED \<longrightarrow> m_file_type f' = m_file_type f) \<and>
        (m_file_descriptor f \<noteq> None \<longrightarrow> m_file_descriptor f' = m_file_descriptor f) \<and>
        (m_path f \<noteq> [] \<longrightarrow> m_path f' = m_path f)"
    using f' fields_eq_mod_path [OF e] cache_ok_entry(2) [OF co f f'] by blast
qed

lemma write_once_update:
  assumes "write_once st st1" and "st1 r = Some f1" and "st r = Some f"
    and "m_file_type f = FT_UNINITIALIZED"
    and "m_file_descriptor g = m_file_descriptor f1" and "m_path g = m_path f1"
  shows "write_once st (st1(r \<mapsto> g))"
  unfolding write_once_def
proof (intro allI impI)
  fix x h
  assume h: "st x = Some h"
  show "\<exists>h'. (st1(r \<mapsto> g)) x = Some h' \<and> (m_file_type h \<noteq> FT_UNINITIALIZED \<longrightarrow> m_file_type h' = m_file_type h) \<and>
        (m_file_descriptor h \<noteq> None \<longrightarrow> m_file_descriptor h' = m_file_descriptor h) \<and>
        (m_path h \<noteq> [] \<longrightarrow> m_path h' = m_path h)"
  proof (cases "x = r")
    case True
    then show ?thesis
      using assms h unfolding write_once_def by fastforce
  next
    case False
    then show ?thesis
      using assms(1) h unfolding write_once_def by simp
  qed
qed

lemma GetFileType_write_once:
  assumes "GetFileType stat st r = Some (t, st')"
  shows "write_once st st'"
proof -
  obtain f where f: "st r = Some f"
    using assms by (auto simp: GetFileType_def split: option.splits)
  show ?thesis
  proof (cases "m_file_type f = FT_UNINITIALIZED \<and> \<not> m_stat_info_valid f")
    case True
    then obtain p st1 f1 where g: "GetPath st r = Some (p, st1)" and f1: "st1 r = Some f1"
      and st': "st' = st1(r \<mapsto> stat_result (stat p) f1)"
      using assms f by (auto simp: GetFileType_def LazyLoadStatInfo_def split: option.splits)
    show ?thesis
      unfolding st' using True
      by (intro write_once_update [OF GetPath_write_once [OF g] f1 f]) (simp_all add: stat_result_fields)
  next
    case False
    then have "st' = st"
      using assms f by (auto simp: GetFileType_def LazyLoadStatInfo_def split: if_splits)
    then show ?thesis by (simp add: write_once_refl)
  qed
qed

lemma fd_only_write_once:
  assumes "fd_only openat st st'"
  shows "write_once st st'"
  unfolding write_once_def
proof (intro allI impI)
  fix x f
  assume f: "st x = Some f"
  obtain f' where f': "st' x = Some f'" and e: "f'\<lparr>m_file_descriptor := None\<rparr> = f\<lparr>m_file_descriptor := None\<rparr>"
    using assms f unfolding fd_only_def by (metis map_option_eq_Some)
  have "m_file_type f' = m_file_type f \<and> m_path f' = m_path f"
    using e by (metis file_id.select_convs file_id.surjective file_id.update_convs(4))
  moreover have "\<forall>f f'. st x = Some f \<longrightarrow> st' x = Some f' \<longrightarrow> m_file_descriptor f' = m_file_descriptor f \<or>
      (m_file_descriptor f = None \<and> (\<exists>d n. m_file_descriptor f' = Some (openat d n)))"
    using assms unfolding fd_only_def by blast
  then have "m_file_descriptor f' = m_file_descriptor f \<or> m_file_descriptor f = None"
    using f f' by meson
  ultimately show "\<exists>f'. st' x = Some f' \<and> (m_file_type f \<noteq> FT_UNINITIALIZED \<longrightarrow> m_file_type f' = m_file_type f) \<and>
        (m_file_descriptor f \<noteq> None \<longrightarrow> m_file_descriptor f' = m_file_descriptor f) \<and>
        (m_path f \<noteq> [] \<longrightarrow> m_path f' = m_path f)"
    using f' by blast
qed

lemma fid_exec_write_once:
  "fid_exec stat openat st op = Some st' \<Longrightarrow> write_once st st'"
proof (cases op)
  case (OpSetDevIno r d i)
  assume "fid_exec stat openat st op = Some st'"
  then obtain f where "st r = Some f" "st' = st(r \<mapsto> SetDevIno d i f)"
    using OpSetDevIno by (auto simp: fid_exec_def)
  then show ?thesis
    unfolding write_once_def by (auto simp: SetDevIno_def)
qed (auto simp: fid_exec_def dest: GetPath_write_once GetFileType_write_once
      GetFileDescriptor_fd_only [THEN fd_only_write_once])


lemma example_path_rel: "path_rel example_store 2 ''a/b''"
proof -
  have "path_rel example_store 1 ''a''"
    using path_rel.cwd_child [of example_store 1 "FileID_relative 0 ''a'' FT_DIR" 0 FileID_cwd]
    by (simp add: example_store_def FileID_relative_def FileID_cwd_def fileid_default_def IsAtFDCWD_def)
  then show ?thesis
    using path_rel.child [of example_store 2 "FileID_relative 1 ''b'' FT_UNINITIALIZED" 1
        "FileID_relative 0 ''a'' FT_DIR" "''a''"]
    by (simp add: example_store_def FileID_relative_def FileID_cwd_def fileid_default_def IsAtFDCWD_def)
qed


lemma example_wf: "wf_store example_store"
  by (auto simp: wf_store_def example_store_def FileID_relative_def FileID_cwd_def fileid_default_def
      split: if_splits)


lemma UnsyncedGetPath_self:
  assumes "UnsyncedGetPath st r = Some (p, st')" and "st r = Some f"
  shows "st' r = Some (f\<lparr>m_path := p\<rparr>)"
  using assms by (subst (asm) UnsyncedGetPath.simps)
    (auto split: option.splits if_splits simp: bind_eq_Some_conv Let_def)


lemma example_stat_a_b: "example_stat ''a/b'' = Some \<lparr>st_dev = 1, st_ino = 2, st_mode = 33188, st_size = 10,
     st_blksize = 4096, st_blocks = 8\<rparr>"
  by (simp add: example_stat_def)


lemma store_fd_Inr:
  "store_fd st r f x = (Inr fd, st') \<Longrightarrow> st' r = Some (f\<lparr>m_file_descriptor := Some fd\<rparr>)"
  by (auto simp: store_fd_def Let_def split: if_splits)


lemma GetFileDescriptor_cases:
  assumes "GetFileDescriptor openat st r = Some (res, st')"
  obtains (cached) f fd where "st r = Some f" "m_file_descriptor f = Some fd" "res = Inr fd" "st' = st"
    | (cwd) f where "st r = Some f" "m_file_descriptor f = None"
        "(res, st') = store_fd st r f (openat AT_FDCWD (m_path f))"
    | (parent) f a res1 st1 where "st r = Some f" "m_file_descriptor f = None" "m_at_dir f = Some a"
        "GetFileDescriptor openat st a = Some (res1, st1)"
        "(case res1 of Inl e \<Rightarrow> (Inl e, st1) | Inr at_fd \<Rightarrow> store_fd st1 r f (openat at_fd (m_basename f))) = (res, st')"
proof -
  obtain f where f: "st r = Some f"
    using assms by (subst (asm) GetFileDescriptor.simps) (auto split: option.splits)
  show ?thesis
  proof (cases "m_file_descriptor f")
    case (Some fd)
    then show ?thesis
      using that(1) [OF f Some] assms f by (subst (asm) GetFileDescriptor.simps) simp
  next
    case None
    show ?thesis
    proof (cases "m_basename f = [] \<and> m_path f \<noteq> []")
      case True
      then show ?thesis
        using that(2) [OF f None] assms f None by (subst (asm) GetFileDescriptor.simps) simp
    next
      case False
      then obtain a res1 st1 where "m_at_dir f = Some a" "GetFileDescriptor openat st a = Some (res1, st1)"
        "(case res1 of Inl e \<Rightarrow> Some (Inl e, st1) | Inr at_fd \<Rightarrow> Some (store_fd st1 r f (openat at_fd (m_basename f)))) =
           Some (res, st')"
        using assms f None by (subst (asm) GetFileDescriptor.simps) (auto split: option.splits simp: bind_eq_Some_conv)
      then show ?thesis
        using that(3) [OF f None] by (cases res1) auto
    qed
  qed
qed


lemma GetFileDescriptor_self:
  assumes "GetFileDescriptor openat st r = Some (Inr fd, st')"
  shows "\<exists>f'. st' r = Some f' \<and> m_file_descriptor f' = Some fd"
  using assms
proof (cases rule: GetFileDescriptor_cases)
  case cwd
  then show ?thesis using store_fd_Inr by (metis file_id.select_convs(4) file_id.surjective file_id.update_convs(4))
next
  case (parent f a res1 st1)
  then show ?thesis using store_fd_Inr by (cases res1) (auto, metis file_id.select_convs(4) file_id.surjective file_id.update_convs(4))
qed simp


lemma example_run:
  "\<exists>st'. fid_run stat openat example_store [OpGetPath 2, OpSetDevIno 2 5 7] = Some st'"
proof -
  obtain st1 where g: "GetPath example_store 2 = Some (''a/b'', st1)"
    using example_path_rel GetPath_def UnsyncedGetPath_complete by metis
  then obtain f where "st1 2 = Some f"
    using GetPath_cache by blast
  then show ?thesis
    using g by (simp add: fid_exec_def)
qed


lemma mode_file_type_reg_example: "mode_file_type 33188 = FT_REG"
  by (simp add: mode_file_type_def S_ISREG_def)

lemma example_GetFileType: "\<exists>st'. GetFileType example_stat example_store 2 = Some (FT_REG, st')"
proof -
  obtain st1 where g: "UnsyncedGetPath example_store 2 = Some (''a/b'', st1)"
    using UnsyncedGetPath_complete [OF example_path_rel] by blast
  have s1: "st1 2 = Some ((FileID_relative 1 ''b'' FT_UNINITIALIZED)\<lparr>m_path := ''a/b''\<rparr>)"
    using UnsyncedGetPath_self [OF g] by (simp add: example_store_def)
  have e2: "example_store 2 = Some (FileID_relative 1 ''b'' FT_UNINITIALIZED)"
    by (simp add: example_store_def)
  show ?thesis
    using g s1 by (simp add: GetFileType_def LazyLoadStatInfo_def GetPath_def e2 FileID_relative_def
        fileid_default_def example_stat_a_b stat_result_type mode_file_type_reg_example)
qed

text \<open>
  C28. \<open>GetPath\<close> computes exactly the path the specification describes (4.C
  \<open>path()\<close>): it returns \<open>p\<close> for an entry if and only if \<open>p\<close> is the
  path given at construction or the parent's path, a slash and the basename (the
  basename alone under the current directory). The memoisation is an optimisation of
  the reference \<open>path_rel\<close>.
\<close>

theorem GetPath_path_rel: "(\<exists>st'. GetPath st r = Some (p, st')) \<longleftrightarrow> path_rel st r p"
  unfolding GetPath_def using UnsyncedGetPath_sound UnsyncedGetPath_complete by blast


text \<open>
  C29. After \<open>GetPath\<close> the path is stored in the entry, and a second call
  returns it without changing the store.
\<close>

theorem GetPath_caches:
  assumes "GetPath st r = Some (p, st')"
  shows "(\<exists>f. st' r = Some f \<and> m_path f = p) \<and> GetPath st' r = Some (p, st')"
proof -
  obtain f where f: "st' r = Some f" "m_path f = p" and e: "p = [] \<longrightarrow> st' = st"
    using GetPath_cache [OF assms] by blast
  have "GetPath st' r = Some (p, st')"
  proof (cases "p = []")
    case True
    then show ?thesis using assms e by simp
  next
    case False
    then show ?thesis using f unfolding GetPath_def by (subst UnsyncedGetPath.simps) simp
  qed
  then show ?thesis using f by blast
qed


theorem GetPath_caches_witness:
  "\<exists>st'. GetPath example_store 2 = Some (''a/b'', st') \<and>
     (\<exists>f. st' 2 = Some f \<and> m_path f = ''a/b'') \<and> GetPath st' 2 = Some (''a/b'', st')"
proof -
  obtain st' where g: "GetPath example_store 2 = Some (''a/b'', st')"
    using example_path_rel GetPath_def UnsyncedGetPath_complete by metis
  show ?thesis using g GetPath_caches [OF g] by blast
qed


text \<open>
  C30. On a well-formed store \<open>GetPath\<close> returns for every entry: the walk
  up the parents ends.
\<close>

theorem GetPath_terminates:
  assumes "wf_store st" and "st r \<noteq> None"
  shows "\<exists>p st'. GetPath st r = Some (p, st')"
  using wf_store_path_rel [OF assms(1)] assms(2) UnsyncedGetPath_complete unfolding GetPath_def by blast


theorem GetPath_terminates_witness: "\<exists>p st'. GetPath example_store 2 = Some (p, st')"
  by (rule GetPath_terminates [OF example_wf]) (simp add: example_store_def)


text \<open>
  C31. The lazily filled fields are written once: in every run of \<open>GetPath\<close>,
  \<open>GetFileType\<close>, \<open>GetFileDescriptor\<close> and \<open>SetDevIno\<close> calls, an
  entry whose type, descriptor or path is known keeps it, also when a call throws.
\<close>

theorem fid_run_write_once:
  assumes "fid_run stat openat st ops = Some st'" and "st x = Some f"
  shows "\<exists>f'. st' x = Some f' \<and>
    (m_file_type f \<noteq> FT_UNINITIALIZED \<longrightarrow> m_file_type f' = m_file_type f) \<and>
    (m_file_descriptor f \<noteq> None \<longrightarrow> m_file_descriptor f' = m_file_descriptor f) \<and>
    (m_path f \<noteq> [] \<longrightarrow> m_path f' = m_path f)"
proof -
  have "write_once st st'"
    using assms(1)
  proof (induction ops arbitrary: st)
    case Nil
    then show ?case by (simp add: write_once_refl)
  next
    case (Cons op ops)
    then obtain st1 where "fid_exec stat openat st op = Some st1" "fid_run stat openat st1 ops = Some st'"
      by (auto simp: bind_eq_Some_conv)
    then show ?case
      using Cons.IH fid_exec_write_once write_once_trans by blast
  qed
  then show ?thesis
    using assms(2) unfolding write_once_def by blast
qed

theorem fid_run_write_once_witness:
  "\<exists>st'. fid_run example_stat (\<lambda>_ _. -1) example_store [OpGetPath 2, OpSetDevIno 2 5 7] = Some st' \<and>
     (\<exists>f'. st' 1 = Some f' \<and> m_file_type f' = FT_DIR)"
proof -
  obtain st' where r: "fid_run example_stat (\<lambda>_ _. -1) example_store [OpGetPath 2, OpSetDevIno 2 5 7] = Some st'"
    using example_run by blast
  have e: "example_store 1 = Some (FileID_relative 0 ''a'' FT_DIR)"
    by (simp add: example_store_def)
  show ?thesis
    using r fid_run_write_once [OF r e] by (simp add: FileID_relative_def fileid_default_def)
qed


text \<open>
  C32. No sequence of operations changes the path any entry denotes, provided
  \<open>openat\<close> never returns \<open>AT_FDCWD\<close> (it returns -1 or a descriptor):
  the lazily filled fields are read-only once loaded, as 4.C requires.
\<close>

theorem fid_run_path_rel:
  assumes "\<forall>d n. openat d n \<noteq> AT_FDCWD" and "fid_run stat openat st ops = Some st'"
  shows "path_rel st' x q \<longleftrightarrow> path_rel st x q"
  using cache_ok_path_rel [OF fid_run_cache_ok [OF assms]] .


theorem fid_run_path_rel_witness:
  "\<exists>st'. fid_run example_stat (\<lambda>_ _. -1) example_store [OpGetPath 2, OpSetDevIno 2 5 7] = Some st' \<and>
     path_rel st' 2 ''a/b''"
proof -
  obtain st' where r: "fid_run example_stat (\<lambda>_ _. -1) example_store [OpGetPath 2, OpSetDevIno 2 5 7] = Some st'"
    using example_run by blast
  have "\<forall>d n. (\<lambda>_ _. -1) d n \<noteq> AT_FDCWD"
    by (simp add: AT_FDCWD_def)
  then show ?thesis
    using r fid_run_path_rel [of "\<lambda>_ _. -1", OF _ r] example_path_rel by blast
qed

text \<open>
  C33. For an entry whose type is not known yet, \<open>GetFileType\<close>
  \<open>stat\<close>s its path and returns the type decoded from \<open>st_mode\<close>, or
  \<open>FT_STAT_FAILED\<close>; the entry then holds its path and the \<open>stat\<close>
  fields.
\<close>

theorem GetFileType_stat:
  assumes "st r = Some f" and "m_file_type f = FT_UNINITIALIZED" and "\<not> m_stat_info_valid f"
    and "path_rel st r p"
  shows "\<exists>st'. GetFileType stat st r =
            Some (case stat p of None \<Rightarrow> FT_STAT_FAILED | Some s \<Rightarrow> mode_file_type (st_mode s), st') \<and>
          st' r = Some (stat_result (stat p) (f\<lparr>m_path := p\<rparr>))"
proof -
  obtain st1 where g: "UnsyncedGetPath st r = Some (p, st1)"
    using UnsyncedGetPath_complete [OF assms(4)] by blast
  have s1: "st1 r = Some (f\<lparr>m_path := p\<rparr>)"
    using UnsyncedGetPath_self [OF g assms(1)] .
  show ?thesis
    using assms(1-3) g s1 by (simp add: GetFileType_def LazyLoadStatInfo_def GetPath_def stat_result_type)
qed


theorem GetFileType_stat_witness:
  "\<exists>st'. GetFileType example_stat example_store 2 = Some (FT_REG, st') \<and>
     st' 2 = Some (stat_result (example_stat ''a/b'') ((FileID_relative 1 ''b'' FT_UNINITIALIZED)\<lparr>m_path := ''a/b''\<rparr>))"
proof -
  show ?thesis
    using GetFileType_stat [OF _ _ _ example_path_rel, of "FileID_relative 1 ''b'' FT_UNINITIALIZED" example_stat]
    by (simp add: example_store_def FileID_relative_def fileid_default_def example_stat_a_b mode_file_type_reg_example)
qed


text \<open>
  C34. \<open>GetFileType\<close> loads the type once: a second call returns the same
  type and leaves the store as it is whatever \<open>stat\<close> would now report, so
  it does not \<open>stat\<close> again (also after a failed \<open>stat\<close>, which leaves
  \<open>FT_STAT_FAILED\<close>).
\<close>

theorem GetFileType_stable:
  assumes "GetFileType stat st r = Some (t, st')"
  shows "GetFileType stat' st' r = Some (t, st')"
proof -
  obtain f where f: "st r = Some f"
    using assms by (auto simp: GetFileType_def split: option.splits)
  show ?thesis
  proof (cases "m_file_type f = FT_UNINITIALIZED \<and> \<not> m_stat_info_valid f")
    case True
    then obtain p st1 f1 where g: "GetPath st r = Some (p, st1)" and f1: "st1 r = Some f1"
      and e: "t = m_file_type (stat_result (stat p) f1)" "st' = st1(r \<mapsto> stat_result (stat p) f1)"
      using assms f by (auto simp: GetFileType_def LazyLoadStatInfo_def split: option.splits)
    then show ?thesis
      by (simp add: GetFileType_def stat_result_type mode_file_type_init split: option.splits)
  next
    case False
    then have "st' = st \<and> t = m_file_type f"
      using assms f by (auto simp: GetFileType_def LazyLoadStatInfo_def split: if_splits)
    then show ?thesis
      using False f by (auto simp: GetFileType_def LazyLoadStatInfo_def)
  qed
qed


theorem GetFileType_stable_witness:
  "\<exists>st'. GetFileType example_stat example_store 2 = Some (FT_REG, st') \<and>
     GetFileType (\<lambda>_. None) st' 2 = Some (FT_REG, st')"
  using example_GetFileType GetFileType_stable by blast

text \<open>
  C35. A \<open>FileID\<close> built from an \<open>FTSENT\<close> with \<open>stat\<close> information
  reports \<open>FT_UNINITIALIZED\<close> as its type, and never \<open>stat\<close>s: the
  constructor marks the \<open>stat\<close> information valid without setting the type.
\<close>

theorem GetFileType_ftsent:
  assumes "st r = Some (FileID_ftsent path (Some s))"
  shows "GetFileType stat st r = Some (FT_UNINITIALIZED, st)"
  using assms by (simp add: GetFileType_def LazyLoadStatInfo_def FileID_ftsent_def fileid_default_def)


theorem GetFileType_ftsent_witness:
  "GetFileType example_stat
     [0 \<mapsto> FileID_ftsent ''/x'' (Some \<lparr>st_dev = 1, st_ino = 2, st_mode = 33188, st_size = 10,
        st_blksize = 4096, st_blocks = 8\<rparr>)] 0 =
   Some (FT_UNINITIALIZED, [0 \<mapsto> FileID_ftsent ''/x'' (Some \<lparr>st_dev = 1, st_ino = 2, st_mode = 33188,
        st_size = 10, st_blksize = 4096, st_blocks = 8\<rparr>)])"
  by (rule GetFileType_ftsent) simp

text \<open>
  C36. When \<open>openat\<close> fails, \<open>GetFileDescriptor\<close> throws \<open>Bad fd\<close>
  but has already stored the negative descriptor, so the next call returns it as a
  valid descriptor.
\<close>

theorem GetFileDescriptor_bad_fd_cached:
  assumes "st r = Some f" and "m_file_descriptor f = None" and "m_basename f = []" and "m_path f \<noteq> []"
    and "openat AT_FDCWD (m_path f) < 0"
  shows "\<exists>st'. GetFileDescriptor openat st r = Some (Inl (RuntimeError ''Bad fd''), st') \<and>
           GetFileDescriptor openat st' r = Some (Inr (openat AT_FDCWD (m_path f)), st')"
proof -
  let ?st' = "st(r \<mapsto> f\<lparr>m_file_descriptor := Some (openat AT_FDCWD (m_path f))\<rparr>)"
  have "GetFileDescriptor openat st r = Some (Inl (RuntimeError ''Bad fd''), ?st')"
    using assms by (subst GetFileDescriptor.simps) (simp add: store_fd_def Let_def)
  moreover have "GetFileDescriptor openat ?st' r = Some (Inr (openat AT_FDCWD (m_path f)), ?st')"
    by (subst GetFileDescriptor.simps) simp
  ultimately show ?thesis by blast
qed


theorem GetFileDescriptor_bad_fd_cached_witness:
  "\<exists>st'. GetFileDescriptor (\<lambda>_ _. -1) [0 \<mapsto> FileID_ftsent ''/x'' None] 0 = Some (Inl (RuntimeError ''Bad fd''), st') \<and>
     GetFileDescriptor (\<lambda>_ _. -1) st' 0 = Some (Inr (-1), st')"
  using GetFileDescriptor_bad_fd_cached [of "[0 \<mapsto> FileID_ftsent ''/x'' None]" 0 "FileID_ftsent ''/x'' None" "\<lambda>_ _. -1"]
  by (simp add: FileID_ftsent_def fileid_default_def)


text \<open>
  A descriptor \<open>GetFileDescriptor\<close> returns is kept: the next call
  returns it again without opening anything.
\<close>

lemma GetFileDescriptor_caches:
  assumes "GetFileDescriptor openat st r = Some (Inr fd, st')"
  shows "GetFileDescriptor openat st' r = Some (Inr fd, st')"
  using GetFileDescriptor_self [OF assms] by (subst GetFileDescriptor.simps) auto


lemma GetFileDescriptor_caches_witness:
  "GetFileDescriptor (\<lambda>d n. if n = ''a'' then 3 else -1) example_store 1 = Some (Inr 3,
      example_store(1 \<mapsto> (FileID_relative 0 ''a'' FT_DIR)\<lparr>m_file_descriptor := Some 3\<rparr>)) \<and>
   GetFileDescriptor (\<lambda>d n. if n = ''a'' then 3 else -1)
     (example_store(1 \<mapsto> (FileID_relative 0 ''a'' FT_DIR)\<lparr>m_file_descriptor := Some 3\<rparr>)) 1 =
     Some (Inr 3, example_store(1 \<mapsto> (FileID_relative 0 ''a'' FT_DIR)\<lparr>m_file_descriptor := Some 3\<rparr>))"
proof -
  have z: "GetFileDescriptor (\<lambda>d n. if n = ''a'' then 3 else -1) example_store 0 = Some (Inr AT_FDCWD, example_store)"
    by (subst GetFileDescriptor.simps) (simp add: example_store_def FileID_cwd_def fileid_default_def)
  have one: "GetFileDescriptor (\<lambda>d n. if n = ''a'' then 3 else -1) example_store 1 = Some (Inr 3,
      example_store(1 \<mapsto> (FileID_relative 0 ''a'' FT_DIR)\<lparr>m_file_descriptor := Some 3\<rparr>))"
  proof -
    have e1: "example_store (Suc 0) = Some (FileID_relative 0 ''a'' FT_DIR)"
      by (simp add: example_store_def)
    show ?thesis
      by (subst GetFileDescriptor.simps) (simp add: z e1 FileID_relative_def fileid_default_def store_fd_def Let_def)
  qed
  show ?thesis
    using one GetFileDescriptor_caches [OF one] by simp
qed


text \<open>
  A \<open>FileID\<close> built from a \<open>dirent\<close> has neither path nor parent:
  \<open>GetPath\<close> dereferences the null parent, and \<open>GetAtDirCRef\<close> and
  \<open>GetAtDirRelativeBasename\<close> throw out of \<open>noexcept\<close> functions, which
  ends the program.
\<close>

lemma FileID_dirent_unusable:
  "GetPath (st(r \<mapsto> FileID_dirent)) r = None \<and>
   GetAtDirCRef FileID_dirent = Inl (Terminate ''no atdir'') \<and>
   GetAtDirRelativeBasename FileID_dirent = Inl (Terminate ''basename was empty'')"
  unfolding GetPath_def
  by (subst UnsyncedGetPath.simps)
    (simp add: FileID_dirent_def fileid_default_def GetAtDirCRef_def GetAtDirRelativeBasename_def)

end
