(* ===== verification/VersionText.thy ===== *)
theory VersionText
  imports Prelude
begin

text \<open>
  What \<open>ucg --version\<close> and \<open>ucg --help-types\<close> print
  (\<open>src/src/ArgParse.cpp\<close>): the version banner \<open>argp_program_version\<close>,
  \<open>ArgParse::PrintVersionText\<close> with its PCRE and PCRE2 sections, and
  \<open>ArgParse::PrintHelpTypes\<close>. The text written to the stream is a byte string.
  The libraries are their build configuration as \<open>pcre_config\<close> and
  \<open>pcre2_config\<close> report it. \<open>pcre2_config\<close> copies its string results
  into the caller's buffer with \<open>strcpy\<close>, so a buffer too small for the string
  and its NUL is written past its end: that undefined behaviour is the error value
  \<open>BufferOverflow\<close>, ending the model of the call.
\<close>

section \<open>Undefined behaviour\<close>

datatype ub = BufferOverflow (ub_buffer: bytes) (ub_size: nat) (ub_written: nat)

section \<open>The libraries' configuration\<close>

text \<open>
  PCRE (lines 537--559): the version string and the results of \<open>pcre_config\<close>
  as return code and value. \<open>PCRE_CONFIG_JITTARGET\<close> gives a pointer that is
  \<open>NULL\<close> without JIT support.
\<close>

record pcre1_build =
  p1_version :: bytes
  p1_config_jit :: "int \<times> int"
  p1_config_jittarget :: "int \<times> bytes option"
  p1_config_newline :: "int \<times> int"

text \<open>
  PCRE2 (lines 579--605): what its \<open>pcre2_config\<close> reports. The version string
  is \<open>MAJOR.MINOR DATE\<close>, e.g. \<open>10.42 2022-12-11\<close>; the JIT target name
  exists only with JIT support.
\<close>

record pcre2_build =
  p2_version :: bytes
  p2_jit_support :: bool
  p2_jit_target :: bytes
  p2_newline_default :: "32 word"

definition PCRE2_ERROR_BADOPTION :: int where
  "PCRE2_ERROR_BADOPTION = -34"

text \<open>
  \<open>pcre2_config\<close> on a string option with a buffer of \<open>n\<close> bytes: the string
  and its NUL are copied, and the call returns their length.
\<close>

definition pcre2_config_string :: "bytes \<Rightarrow> nat \<Rightarrow> bytes \<Rightarrow> ub + (int \<times> bytes)" where
  "pcre2_config_string buf n v =
     (if Suc (length v) \<le> n then Inr (int (Suc (length v)), v)
      else Inl (BufferOverflow buf n (Suc (length v))))"

datatype pcre2_config_what = PCRE2_CONFIG_JIT | PCRE2_CONFIG_NEWLINE

definition pcre2_config_u32 :: "pcre2_build \<Rightarrow> pcre2_config_what \<Rightarrow> int \<times> 32 word" where
  "pcre2_config_u32 p w =
     (case w of
        PCRE2_CONFIG_JIT \<Rightarrow> (0, if p2_jit_support p then 1 else 0)
      | PCRE2_CONFIG_NEWLINE \<Rightarrow> (0, p2_newline_default p))"

text \<open>\<open>PCRE2_CONFIG_JITTARGET\<close>: \<open>PCRE2_ERROR_BADOPTION\<close> without JIT support.\<close>

definition pcre2_config_jittarget :: "pcre2_build \<Rightarrow> bytes \<Rightarrow> nat \<Rightarrow> ub + (int \<times> bytes)" where
  "pcre2_config_jittarget p buf n =
     (if p2_jit_support p then pcre2_config_string buf n (p2_jit_target p)
      else Inr (PCRE2_ERROR_BADOPTION, []))"

section \<open>\<open>PrintVersionText\<close>\<close>

record build_info =
  bi_package_string :: bytes
  bi_git_describe :: bytes
  bi_cxx :: bytes
  bi_cxx_version_str :: bytes
  bi_sse4_2 :: bool
  bi_popcnt :: bool
  bi_pcre1 :: "pcre1_build option"
  bi_pcre2 :: "pcre2_build option"

definition yes_no :: "bool \<Rightarrow> bytes" where
  "yes_no b = (if b then ''yes'' else ''no'')"

text \<open>\<open>argp_program_version\<close> (lines 81--95): \<open>PACKAGE_STRING\<close> and the notice.\<close>

definition argp_program_version :: "bytes \<Rightarrow> bytes" where
  "argp_program_version pkg = pkg @ [nl] @
     ''Copyright (C) 2015-2016 Gary R. Van Sickle.'' @ [nl] @ [nl] @
     ''This program is free software; you can redistribute it and/or modify'' @ [nl] @
     ''it under the terms of version 3 of the GNU General Public License as'' @ [nl] @
     ''published by the Free Software Foundation.'' @ [nl] @ [nl] @
     ''This program is distributed in the hope that it will be useful,'' @ [nl] @
     ''but WITHOUT ANY WARRANTY; without even the implied warranty of'' @ [nl] @
     ''MERCHANTABILITY or FITNESS FOR A PARTICULAR PURPOSE.  See the'' @ [nl] @
     ''GNU General Public License for more details.'' @ [nl] @ [nl] @
     ''You should have received a copy of the GNU General Public License'' @ [nl] @
     ''along with this program. If not, see http://www.gnu.org/licenses/.''"

text \<open>The two \<open>newline_desc\<close> maps (lines 557--558 and 598--604).\<close>

definition pcre1_newline_desc :: "(int \<times> bytes) list" where
  "pcre1_newline_desc =
     [(10, ''LF''), (13, ''CR''), (3338, ''CRLF''), (-2, ''ANYCRLF''), (-1, ''ANY''),
      (21, ''LF(EBCDIC)''), (37, ''LF(37)(EBCDIC)''), (3349, ''CRLF(EBCDIC)''), (3365, ''CRLF(37)(EBCDIC)'')]"

definition pcre2_newline_desc :: "(32 word \<times> bytes) list" where
  "pcre2_newline_desc = [(2, ''LF''), (1, ''CR''), (3, ''CRLF''), (5, ''ANYCRLF''), (4, ''ANY'')]"

definition newline_name :: "('k \<times> bytes) list \<Rightarrow> int \<Rightarrow> 'k \<Rightarrow> bytes" where
  "newline_name desc rc k =
     (if rc = 0 then (case map_of desc k of Some d \<Rightarrow> d | None \<Rightarrow> ''unknown'') else ''unknown'')"

text \<open>The \<open>libpcre\<close> section (lines 532--569).\<close>

definition pcre1_info :: "pcre1_build option \<Rightarrow> bytes" where
  "pcre1_info po = [nl] @ ''libpcre info:'' @ [nl] @
     (case po of
        None \<Rightarrow> '' Not linked against libpcre.'' @ [nl]
      | Some p \<Rightarrow>
          (let s = (case p1_config_jit p of (rc, is_jit) \<Rightarrow> if rc = 0 then yes_no (is_jit \<noteq> 0) else ''no'');
               jittarget = (case p1_config_jittarget p of
                              (rc, Some t) \<Rightarrow> if rc = 0 then t else ''none''
                            | (_, None) \<Rightarrow> ''none'');
               nls = (case p1_config_newline p of (rc, n) \<Rightarrow> newline_name pcre1_newline_desc rc n)
           in '' Version: '' @ p1_version p @ [nl] @
              '' JIT support built in?: '' @ s @ [nl] @
              '' JIT target architecture: '' @ jittarget @ [nl] @
              '' Newline style: '' @ nls @ [nl]))"

text \<open>
  The \<open>libpcre2-8\<close> section (lines 574--615): the version is copied into
  \<open>char buffer[13]\<close>, the JIT target into \<open>char jittarget[48]\<close>, which
  holds \<open>none\<close> when the option is refused.
\<close>

definition pcre2_info :: "pcre2_build option \<Rightarrow> ub + bytes" where
  "pcre2_info po =
     (case po of
        None \<Rightarrow> Inr ([nl] @ ''libpcre2-8 info:'' @ [nl] @ '' Not linked against libpcre2-8.'' @ [nl])
      | Some p \<Rightarrow>
          (case pcre2_config_string ''buffer'' 13 (p2_version p) of
             Inl e \<Rightarrow> Inl e
           | Inr (_, buffer) \<Rightarrow>
               (let s = (case pcre2_config_u32 p PCRE2_CONFIG_JIT of
                           (rc, is_jit) \<Rightarrow> if rc = 0 then yes_no (is_jit \<noteq> 0) else ''no'')
                in case pcre2_config_jittarget p ''jittarget'' 48 of
                     Inl e \<Rightarrow> Inl e
                   | Inr (rc, t) \<Rightarrow>
                       (let jittarget = (if rc = PCRE2_ERROR_BADOPTION then ''none'' else t);
                            nls = (case pcre2_config_u32 p PCRE2_CONFIG_NEWLINE of
                                     (rc', n) \<Rightarrow> newline_name pcre2_newline_desc rc' n)
                        in Inr ([nl] @ ''libpcre2-8 info:'' @ [nl] @
                                '' Version: '' @ c_str buffer @ [nl] @
                                '' JIT support built in?: '' @ s @ [nl] @
                                '' JIT target architecture: '' @ c_str jittarget @ [nl] @
                                '' Newline style: '' @ nls @ [nl])))))"

text \<open>\<open>PrintVersionText\<close> (lines 500--616).\<close>

definition PrintVersionText :: "build_info \<Rightarrow> ub + bytes" where
  "PrintVersionText b =
     (case pcre2_info (bi_pcre2 b) of
        Inl e \<Rightarrow> Inl e
      | Inr s2 \<Rightarrow>
          Inr (argp_program_version (bi_package_string b) @
               [nl] @ [nl] @ ''Build info'' @ [nl] @
               [nl] @ ''Repo version: '' @ bi_git_describe b @ [nl] @
               [nl] @ ''Compiler info:'' @ [nl] @
               '' Name ($(CXX)): '' @ bi_cxx b @ [nl] @
               '' Version string: '' @ [CHR 0x22] @ bi_cxx_version_str b @ [CHR 0x22] @ [nl] @
               [nl] @ ''ISA extensions in use:'' @ [nl] @
               '' sse4.2: '' @ yes_no (bi_sse4_2 b) @ [nl] @
               '' popcnt: '' @ yes_no (bi_popcnt b) @ [nl] @
               pcre1_info (bi_pcre1 b) @ s2))"

section \<open>\<open>PrintHelpTypes\<close>\<close>

text \<open>
  Lines 618--624, over the text \<open>TypeManager::PrintTypesForHelp\<close> writes
  (the type table is data of the \<open>TypeManager\<close> sources, outside \<open>src/\<close>).
\<close>

definition PrintHelpTypes :: "bytes \<Rightarrow> bytes" where
  "PrintHelpTypes types_text =
     ''ucg recognizes the following file types:'' @ [nl] @ [nl] @ types_text @ [nl]"

section \<open>Proofs\<close>

text \<open>
  The PCRE2 section fails exactly when a string \<open>pcre2_config\<close> copies does not
  fit its buffer, the version first.
\<close>

lemma pcre2_info_Inl:
  "pcre2_info (Some p) = Inl e \<longleftrightarrow>
     (if 13 \<le> length (p2_version p) then e = BufferOverflow ''buffer'' 13 (Suc (length (p2_version p)))
      else p2_jit_support p \<and> 48 \<le> length (p2_jit_target p) \<and>
           e = BufferOverflow ''jittarget'' 48 (Suc (length (p2_jit_target p))))"
  by (auto simp: pcre2_info_def pcre2_config_string_def pcre2_config_jittarget_def Let_def
      split: prod.splits)

lemma PrintVersionText_Inl:
  "bi_pcre2 b = Some p \<Longrightarrow> PrintVersionText b = Inl e \<longleftrightarrow> pcre2_info (Some p) = Inl e"
  by (auto simp: PrintVersionText_def split: sum.splits)

text \<open>
  C37. \<open>ucg --version\<close> with PCRE2 linked writes past \<open>char buffer[13]\<close>
  whenever the PCRE2 version string has 13 bytes or more, and every PCRE2 release
  string (\<open>10.42 2022-12-11\<close>: 16 bytes, 17 with the NUL) has; the text is
  printed without undefined behaviour exactly when the version fits in 12 bytes and
  the JIT target name, if any, in 47.
\<close>

theorem PrintVersionText_pcre2_overflow:
  assumes "bi_pcre2 b = Some p"
  shows "((\<exists>e. PrintVersionText b = Inl e) \<longleftrightarrow>
            13 \<le> length (p2_version p) \<or> (p2_jit_support p \<and> 48 \<le> length (p2_jit_target p))) \<and>
         (13 \<le> length (p2_version p) \<longrightarrow>
            PrintVersionText b = Inl (BufferOverflow ''buffer'' 13 (Suc (length (p2_version p)))))"
  unfolding PrintVersionText_Inl [OF assms] pcre2_info_Inl by auto

theorem PrintVersionText_pcre2_overflow_witness:
  "PrintVersionText
     \<lparr>bi_package_string = ''ucg 0.3.0'', bi_git_describe = ''0.3.0'', bi_cxx = ''g++'',
      bi_cxx_version_str = ''12.2.0'', bi_sse4_2 = True, bi_popcnt = True, bi_pcre1 = None,
      bi_pcre2 = Some \<lparr>p2_version = ''10.42 2022-12-11'', p2_jit_support = True,
                       p2_jit_target = ''x86 64bit (little endian + unaligned)'', p2_newline_default = 2\<rparr>\<rparr> =
   Inl (BufferOverflow ''buffer'' 13 17)"
  using PrintVersionText_pcre2_overflow [of
     "\<lparr>bi_package_string = ''ucg 0.3.0'', bi_git_describe = ''0.3.0'', bi_cxx = ''g++'',
      bi_cxx_version_str = ''12.2.0'', bi_sse4_2 = True, bi_popcnt = True, bi_pcre1 = None,
      bi_pcre2 = Some \<lparr>p2_version = ''10.42 2022-12-11'', p2_jit_support = True,
                       p2_jit_target = ''x86 64bit (little endian + unaligned)'', p2_newline_default = 2\<rparr>\<rparr>"]
  by simp

end
