(* ===== verification/Spec2Isabelle.thy ===== *)
theory Spec2Isabelle
  imports Scanner SyncQueue ArgParse ProjectRc FileID VersionText
begin

text \<open>
  \<^bold>\<open>Verification development of UniversalCodeGrep (ucg).\<close>

  ucg searches the files below the given paths for a PCRE2 pattern. \<open>ArgParse\<close>
  (\<open>src/src/ArgParse.cpp\<close>) builds the options from the command line and the rc
  files, and configures the file-type registry \<open>TypeManager\<close>. A pool of
  traversal threads walks the directory tree: it names each entry with a
  \<open>FileID\<close> (\<open>src/src/libext/FileID.cpp\<close>, with the helpers of
  \<open>src/src/libext/filesystem.hpp\<close>). Directories go onto one \<open>sync_queue\<close>
  (\<open>src/src/sync_queue.h\<close>) and files to be searched onto another. A pool of
  scanner threads pulls files and runs \<open>FileScannerPCRE2::ScanFile\<close>
  (\<open>src/src/FileScannerPCRE2.cpp\<close>) on their contents.

  \<^bold>\<open>Theories and what they model.\<close>
  \<^item> \<open>Prelude\<close>: bytes as \<open>char list\<close>; the C library predicates and
    constants the sources use (\<open>isspace\<close>, \<open>isupper\<close>, \<open>atoi\<close>,
    \<open>std::to_string\<close> as \<open>dec_string\<close>, which \<open>atoi\<close> reads back,
    C strings up to the first NUL, \<open>SIZE_MAX\<close> = \<open>2^64 - 1\<close>); list lemmas.
  \<^item> \<open>Scanner\<close>: the constructor of \<open>FileScannerPCRE2\<close> (pattern wrapping,
    compile options, JIT and callout checks, \<open>FileScannerPCRE2_ctor\<close>), the
    end-of-line callout (\<open>callout_handler\<close>), and \<open>ScanFile\<close>. Its
    \<open>while\<close> loop is \<open>ScanFile_step\<close> iterated by the
    \<open>partial_function (option)\<close> \<open>scan_loop\<close>. PCRE2 is the interface
    \<open>pcre2_lib\<close>; the theorems assume only the documented contract
    \<open>pcre2_contract\<close> of \<open>pcre2_match\<close>. The exception messages
    are \<open>scanner_error_what\<close> over \<open>pcre2_get_error_message\<close>.
  \<^item> \<open>SyncQueue\<close>: every member function of \<open>sync_queue\<close>, as its critical
    sections under \<open>m_mutex\<close>. \<open>wait_pull\<close> and
    \<open>wait_for_worker_completion\<close> are split at their condition-variable waits.
    The threads around one queue are the inductive step relation \<open>qstep\<close>
    (N workers, a master, any closing thread), plus \<open>spurious\<close> wake-ups and
    \<open>reachable\<close> states, with a ghost history of pushed and pulled items.
  \<^item> \<open>RcFile\<close>: \<open>ConvertRCFileToArgv\<close> (the loop is \<open>rc_loop\<close>, a
    \<open>function\<close> with a measure), \<open>GetUserHomeDir\<close> and
    \<open>FindAndParseConfigFiles\<close>, taking the file system as an input.
  \<^item> \<open>TypeManager\<close>: the file-type registry. Its sources are not under
    \<open>src/\<close>, so it is modelled from the specification (4.B, 6), behind the
    interface record \<open>type_manager_ops\<close> that \<open>ArgParse\<close> programs against.
  \<^item> \<open>ArgParse\<close>: \<open>HandleTYPELogic\<close>; the argp callback \<open>parse_opt\<close>
    (every case) with the \<open>options[]\<close> table; GNU argp's calling contract
    (\<open>argp_getopt\<close>, \<open>run_opts\<close>, \<open>argp_parse\<close>: permutation,
    abbreviations, argp's own \<open>--help\<close>/\<open>--usage\<close>/\<open>--version\<close>
    options, options handed over one at a time so that an exit or a
    \<open>getopt_long\<close> error ends the parse where it occurs,
    \<open>ARGP_KEY_ARG\<close>/\<open>ARGP_KEY_END\<close>, and the exit status
    \<open>argp_exit_status\<close>); and \<open>Parse\<close>, which assembles the
    argument vector from rc files and command line and fills in defaults.
  \<^item> \<open>FileSystem\<close>: \<open>dev_ino_pair\<close> as a \<open>128 word\<close> (device in the high 64
    bits) with its order, \<open>is_same_file\<close> over an \<open>fstat\<close> function,
    \<open>portable::dirname\<close> over a model of glibc \<open>dirname(3)\<close>,
    \<open>is_pathname_absolute\<close>, \<open>dirent_get_name\<close> and \<open>opendirat\<close>; the
    record \<open>posix_fs\<close> of \<open>open\<close> and \<open>fstat\<close>.
  \<^item> \<open>ProjectRc\<close>: \<open>GetProjectRCFilename\<close>, whose loop is the
    \<open>partial_function (option)\<close> \<open>project_rc_walk\<close>. \<open>FindAndParseConfigFiles_sys\<close>
    composes \<open>FindAndParseConfigFiles\<close> with the walk it calls.
  \<^item> \<open>FileID\<close>: \<open>FileID\<close> objects in an explicit store (\<open>fid_store\<close>, a map
    from references to \<open>file_id\<close> records), because parents are shared and
    \<open>UnsyncedGetPath\<close> caches into them. The store covers every constructor,
    \<open>GetPath\<close>, \<open>LazyLoadStatInfo\<close>, \<open>GetFileType\<close>, \<open>SetDevIno\<close>,
    \<open>GetFileDescriptor\<close> and the throwing accessors. \<open>fid_exec\<close> and
    \<open>fid_run\<close> execute a datatype \<open>fid_op\<close> of operations and sequences of
    them. The reference \<open>path_rel\<close> is the path 4.C describes.
  \<^item> \<open>VersionText\<close>: what \<open>--version\<close> and \<open>--help-types\<close> print
    (\<open>argp_program_version\<close>, \<open>PrintVersionText\<close>,
    \<open>PrintHelpTypes\<close>) as byte strings over the build configuration
    (\<open>build_info\<close>) and what \<open>pcre_config\<close>/\<open>pcre2_config\<close> report.
    \<open>pcre2_config\<close> copies strings into the caller's fixed buffers; a copy past
    a buffer's end is the error value \<open>BufferOverflow\<close>.

  \<^bold>\<open>What the theorems show.\<close> They are the claims C1--C39, each after a text
  block naming it.
  \<^item> Scanner (C1--C5): under the PCRE2 contract \<open>ScanFile\<close> returns the
    ascending, duplicate-free lines on which accepted matches start. No reported
    match spans a newline. The loop ends whenever matches stay inside the subject. A
    match error ends the scan with the error. The constructor succeeds exactly when
    PCRE2 compiles the wrapped pattern (\<open>\Q..\E\<close>, then \<open>\b(?:..)\b\<close>,
    then the callout wrapper) with the source's options and the JIT and callout
    checks pass.
  \<^item> SyncQueue (C6--C10): in every reachable state the items leave in the order
    they entered; a successful quorum means all workers wait and the queue is empty;
    \<open>m_num_waiting_threads\<close> counts the parked workers; closed-queue operations
    behave as documented. \<open>close()\<close> cannot wake a master blocked in
    \<open>wait_for_worker_completion\<close>. No wake-up of the master is lost
    (C39): while it is blocked on an open queue its predicate is false.
  \<^item> rc files and options (C11--C20): rc-file round trip and re-parsing,
    malformed lines rejected, smart case, the order in which rc and command-line
    arguments combine, unique-prefix resolution of \<open>--TYPE\<close>, ambiguity
    errors, \<open>--\<close> handling, type names starting with \<open>no\<close>, and bounds on
    the parsed job counts.
  \<^item> file-system helpers (C21--C23): the \<open>dev_ino_pair\<close> round trip, its
    order is lexicographic, and \<open>is_same_file\<close> is equality of the keys.
  \<^item> project rc search (C24--C27): the walk ends for every C-string cwd not
    rooted at exactly two slashes; a found file is the nearest \<open>.ucgrc\<close> below
    \<open>$HOME\<close>; climbing into \<open>$HOME\<close> stops the search without its rc
    file. From \<open>//\<close> the walk never ends, and with it
    \<open>FindAndParseConfigFiles_sys\<close>, the configuration phase that calls it.
  \<^item> FileID (C28--C36): \<open>GetPath\<close> is equivalent to the reference path,
    caches it, and terminates on well-formed stores. Every run of operations
    writes the lazily filled type, descriptor and path at most once, and never
    changes the path an entry denotes. \<open>GetFileType\<close> decodes the
    \<open>stat\<close> mode on the first call and never \<open>stat\<close>s again. The FTSENT constructor leaves the type
    uninitialised. A failed \<open>openat\<close> is cached.
  \<^item> version text (C37): with PCRE2 linked, \<open>--version\<close> overflows
    \<open>char buffer[13]\<close> for every PCRE2 release string (16 bytes).
  \<^item> argp (C38): options run in command-line order, so \<open>--help\<close> (status 0)
    and \<open>-j0\<close> (status 255) pre-empt any later error; \<open>--help-types\<close>
    alone ends in \<open>argp_usage\<close> (255), and after a pattern it lets the
    parse succeed.

  \<^bold>\<open>Loops, fuel and bounds.\<close> No loop uses fuel. \<open>scan_loop\<close>,
  \<open>project_rc_walk\<close>, \<open>UnsyncedGetPath\<close> and \<open>GetFileDescriptor\<close> are
  \<open>partial_function (option)\<close>: a loop that does not end is \<open>None\<close>. The
  first three have a theorem that they return (\<open>\<exists>r. \<dots> = Some r\<close>) under
  stated hypotheses. \<open>scan_loop\<close> needs matches within the subject and progress
  on retries. \<open>project_rc_walk\<close> needs a cwd that is not rooted at \<open>//\<close>;
  another theorem proves the walk from \<open>//\<close> is \<open>None\<close>.
  \<open>UnsyncedGetPath\<close> needs a well-formed store (parents created before their
  children). \<open>GetFileDescriptor\<close> also dereferences a null parent when an
  entry with a basename has none (an absolute \<open>FileID\<close> built without a
  parent), so its theorems are about the calls that return.
  \<open>rc_loop\<close> is a \<open>function\<close> terminating by the length of the unread input.
  Offsets are \<open>nat\<close> below \<open>SIZE_MAX\<close> (the theorems assume a file shorter
  than \<open>SIZE_MAX\<close>, which \<open>ovector[0] = -1\<close> relies on). Device and inode
  numbers are 64-bit words and the key a 128-bit word.

  \<^bold>\<open>Not modelled.\<close>
  \<^item> PCRE2's regex matching itself (an interface with a contract).
  \<^item> Output only: the texts GNU argp prints for \<open>--help\<close>,
    \<open>--usage\<close> and its errors (their exits are modelled),
    \<open>TypeManager::PrintTypesForHelp\<close> (outside \<open>src/\<close>), \<open>LOG\<close>/\<open>perror\<close>.
  \<^item> The built-in type table, which is data of the \<open>TypeManager\<close> sources
    outside \<open>src/\<close>; a subset is modelled.
  \<^item> The mutex of \<open>FileID::GetPath\<close>: it only serialises calls, which
    \<open>fid_run\<close> already issues one at a time.
  \<^item> Closing descriptors, and memory management (\<open>strdup\<close>/\<open>free\<close>,
    \<open>shared_ptr\<close> lifetimes): they have no effect the model observes.
\<close>

end
